theory Spec2Isabelle
  imports Complex_Main "HOL-Library.Multiset"
begin

section \<open>The in-memory cache (class ApiCache)\<close>

text \<open>
  The cache module keeps a JavaScript \<^verbatim>\<open>Map<string, CacheEntry<any>>\<close>. A \<^verbatim>\<open>Map\<close>
  iterates in insertion order, \<^verbatim>\<open>Map.set\<close> on a key that is present replaces the
  value in place, and \<^verbatim>\<open>Array.prototype.sort\<close> is stable, so the order of the
  entries decides which of two entries with equal timestamps is evicted first. The map
  is therefore an association list in insertion order. Instants and durations are
  milliseconds, as \<^verbatim>\<open>Date.now()\<close> gives them, and every reading of the clock is a
  parameter of the operation that reads it.
\<close>

record 'v CacheEntry =
  data :: 'v
  timestamp :: int
  expiresAt :: int

record CacheOptions =
  ttl :: int
  maxSize :: nat

definition DEFAULT_OPTIONS :: CacheOptions where
  "DEFAULT_OPTIONS = \<lparr>ttl = 5 * 60 * 1000, maxSize = 100\<rparr>"

record 'v ApiCache =
  cache :: "(string \<times> 'v CacheEntry) list"
  options :: CacheOptions

text \<open>\<^verbatim>\<open>Map.prototype.get\<close>, \<^verbatim>\<open>set\<close> and \<^verbatim>\<open>delete\<close> on the association list.\<close>

fun Map_get :: "('k \<times> 'e) list \<Rightarrow> 'k \<Rightarrow> 'e option" where
  "Map_get [] k = None"
| "Map_get ((k', e) # m) k = (if k' = k then Some e else Map_get m k)"

fun Map_set :: "('k \<times> 'e) list \<Rightarrow> 'k \<Rightarrow> 'e \<Rightarrow> ('k \<times> 'e) list" where
  "Map_set [] k e = [(k, e)]"
| "Map_set ((k', e') # m) k e = (if k' = k then (k, e) # m else (k', e') # Map_set m k e)"

definition Map_delete :: "('k \<times> 'e) list \<Rightarrow> 'k \<Rightarrow> ('k \<times> 'e) list" where
  "Map_delete m k = filter (\<lambda>p. fst p \<noteq> k) m"

text \<open>
  The constructor: \<^verbatim>\<open>{ ...DEFAULT_OPTIONS, ...options }\<close>, each option given or
  left out.
\<close>

definition ApiCache_new :: "int option \<Rightarrow> nat option \<Rightarrow> 'v ApiCache" where
  "ApiCache_new ttl_opt maxSize_opt =
     \<lparr>cache = [],
      options = \<lparr>ttl = (case ttl_opt of None \<Rightarrow> ttl DEFAULT_OPTIONS | Some t \<Rightarrow> t),
                 maxSize = (case maxSize_opt of None \<Rightarrow> maxSize DEFAULT_OPTIONS | Some n \<Rightarrow> n)\<rparr>\<rparr>"

text \<open>
  \<^verbatim>\<open>get\<close> returns the data (or null) and may delete the entry; the model returns the
  result together with the cache after the call.
\<close>

definition ApiCache_get :: "'v ApiCache \<Rightarrow> int \<Rightarrow> string \<Rightarrow> 'v option \<times> 'v ApiCache" where
  "ApiCache_get c now key =
     (case Map_get (cache c) key of
        None \<Rightarrow> (None, c)
      | Some entry \<Rightarrow>
          if now > expiresAt entry
          then (None, c\<lparr>cache := Map_delete (cache c) key\<rparr>)
          else (Some (data entry), c))"

definition ApiCache_has :: "'v ApiCache \<Rightarrow> int \<Rightarrow> string \<Rightarrow> bool \<times> 'v ApiCache" where
  "ApiCache_has c now key =
     (case Map_get (cache c) key of
        None \<Rightarrow> (False, c)
      | Some entry \<Rightarrow>
          if now > expiresAt entry
          then (False, c\<lparr>cache := Map_delete (cache c) key\<rparr>)
          else (True, c))"

definition ApiCache_delete :: "'v ApiCache \<Rightarrow> string \<Rightarrow> 'v ApiCache" where
  "ApiCache_delete c key = c\<lparr>cache := Map_delete (cache c) key\<rparr>"

definition ApiCache_clear :: "'v ApiCache \<Rightarrow> 'v ApiCache" where
  "ApiCache_clear c = c\<lparr>cache := []\<rparr>"

text \<open>
  \<^verbatim>\<open>Math.ceil(this.options.maxSize * 0.2)\<close>. On a natural number the ceiling of a
  fifth is \<open>(n + 4) div 5\<close> (lemma \<open>removeCount_ceiling\<close> below relates it to the
  real-valued expression).
\<close>

definition removeCount :: "nat \<Rightarrow> nat" where
  "removeCount n = (n + 4) div 5"

text \<open>
  \<^verbatim>\<open>sortedEntries\<close>: the entries sorted by timestamp, ascending, equal timestamps in
  map order; \<open>sort_key\<close> is a stable sort.
\<close>

definition sortedEntries :: "(string \<times> 'v CacheEntry) list \<Rightarrow> (string \<times> 'v CacheEntry) list" where
  "sortedEntries m = sort_key (\<lambda>p. timestamp (snd p)) m"

definition expired :: "int \<Rightarrow> 'v CacheEntry \<Rightarrow> bool" where
  "expired now entry = (now > expiresAt entry)"

definition ApiCache_cleanup :: "'v ApiCache \<Rightarrow> int \<Rightarrow> 'v ApiCache" where
  "ApiCache_cleanup c now =
     (let live = foldl (\<lambda>m p. if expired now (snd p) then Map_delete m (fst p) else m)
                   (cache c) (cache c)
      in if length live \<ge> maxSize (options c)
         then c\<lparr>cache := foldl (\<lambda>m p. Map_delete m (fst p)) live
                             (take (removeCount (maxSize (options c))) (sortedEntries live))\<rparr>
         else c\<lparr>cache := live\<rparr>)"

text \<open>
  \<^verbatim>\<open>set\<close> reads the clock (\<open>now\<close>), and \<^verbatim>\<open>cleanup\<close> reads it again
  (\<open>now'\<close>). The optional \<^verbatim>\<open>ttl\<close> argument is \<^verbatim>\<open>ttl || this.options.ttl\<close>: an
  argument that is left out or is 0 selects the default.
\<close>

definition ApiCache_set :: "'v ApiCache \<Rightarrow> int \<Rightarrow> int \<Rightarrow> string \<Rightarrow> 'v \<Rightarrow> int option \<Rightarrow> 'v ApiCache" where
  "ApiCache_set c now now' key d ttl_arg =
     (let expires = now + (case ttl_arg of
                             None \<Rightarrow> ttl (options c)
                           | Some t \<Rightarrow> if t = 0 then ttl (options c) else t);
          c1 = (if length (cache c) \<ge> maxSize (options c) then ApiCache_cleanup c now' else c)
      in c1\<lparr>cache := Map_set (cache c1) key \<lparr>data = d, timestamp = now, expiresAt = expires\<rparr>\<rparr>)"

text \<open>A sequence of calls on one cache, each with the clock readings it makes.\<close>

datatype 'v cache_op =
    Get string int
  | Set string 'v "int option" int int
  | Has string int
  | Delete string
  | Clear

fun apply_op :: "'v ApiCache \<Rightarrow> 'v cache_op \<Rightarrow> 'v ApiCache" where
  "apply_op c (Get key now) = snd (ApiCache_get c now key)"
| "apply_op c (Set key d ttl_arg now now') = ApiCache_set c now now' key d ttl_arg"
| "apply_op c (Has key now) = snd (ApiCache_has c now key)"
| "apply_op c (Delete key) = ApiCache_delete c key"
| "apply_op c Clear = ApiCache_clear c"

definition run_ops :: "'v ApiCache \<Rightarrow> 'v cache_op list \<Rightarrow> 'v ApiCache" where
  "run_ops c ops = foldl apply_op c ops"

text \<open>
  Names for the parts of an eviction: the entries that have not expired at the reading
  \<open>now\<close> of the clock, the first \<open>n\<close> entries in the order of \<^verbatim>\<open>sortedEntries\<close>, and
  the invariant of a cache (its keys are those of a \<^verbatim>\<open>Map\<close>, each once, and it holds
  no more than \<open>maxSize\<close> entries).
\<close>

definition live_entries_of :: "int \<Rightarrow> (string \<times> 'v CacheEntry) list \<Rightarrow> (string \<times> 'v CacheEntry) list" where
  "live_entries_of now m = filter (\<lambda>p. \<not> expired now (snd p)) m"

definition oldest :: "nat \<Rightarrow> (string \<times> 'v CacheEntry) list \<Rightarrow> (string \<times> 'v CacheEntry) list" where
  "oldest n m = take n (sortedEntries m)"

definition cache_ok :: "'v ApiCache \<Rightarrow> bool" where
  "cache_ok c = (distinct (map fst (cache c)) \<and> length (cache c) \<le> maxSize (options c))"

section \<open>The API client (lib/github.ts): strings, errors and the path classifier\<close>

text \<open>
  \<^verbatim>\<open>String.prototype.includes\<close> and \<^verbatim>\<open>toLowerCase\<close>. Strings are lists of characters;
  \<^verbatim>\<open>toLowerCase\<close> is modelled on the letters A to Z, which is all that the ASCII
  patterns of the skip list can meet in an ASCII path.
\<close>

fun startsWith :: "string \<Rightarrow> string \<Rightarrow> bool" where
  "startsWith s [] = True"
| "startsWith [] (c # p) = False"
| "startsWith (a # s) (c # p) = (a = c \<and> startsWith s p)"

fun String_includes :: "string \<Rightarrow> string \<Rightarrow> bool" where
  "String_includes [] p = (p = [])"
| "String_includes (a # s) p = (startsWith (a # s) p \<or> String_includes s p)"

definition toLowerCase :: "string \<Rightarrow> string" where
  "toLowerCase s =
     map (\<lambda>c. case map_of (zip ''ABCDEFGHIJKLMNOPQRSTUVWXYZ'' ''abcdefghijklmnopqrstuvwxyz'') c of
                Some l \<Rightarrow> l
              | None \<Rightarrow> c) s"

definition skipPatterns :: "string list" where
  "skipPatterns =
     [''node_modules'', ''dist'', ''build'', ''.git'',
      ''.jpg'', ''.jpeg'', ''.png'', ''.gif'', ''.ico'',
      ''.woff'', ''.woff2'', ''.ttf'', ''.eot'', ''.otf'',
      ''.mp4'', ''.webm'', ''.ogg'', ''.mp3'', ''.wav'',
      ''.pdf'', ''.zip'', ''.tar'', ''.gz'', ''.rar'',
      ''.dll'', ''.exe'', ''.so'', ''.dylib'',
      ''package-lock.json'', ''yarn.lock'']"

definition shouldSkipPath :: "string \<Rightarrow> bool" where
  "shouldSkipPath path =
     list_ex (\<lambda>pattern. String_includes (toLowerCase path) (toLowerCase pattern)) skipPatterns"

text \<open>
  A value that is thrown and caught: the fields that \<^verbatim>\<open>github.ts\<close> reads from it. A
  rejection of a request by the provider carries an HTTP status and response headers;
  \<^verbatim>\<open>new Error(msg)\<close> has a message only.
\<close>

record ApiError =
  status :: "int option"
  message :: "string option"
  x_ratelimit_remaining :: "string option"

definition Error :: "string \<Rightarrow> ApiError" where
  "Error msg = \<lparr>status = None, message = Some msg, x_ratelimit_remaining = None\<rparr>"

text \<open>
  The test that every catch block of \<^verbatim>\<open>github.ts\<close> makes:
  \<^verbatim>\<open>error.status === 403 && (error.message?.includes("rate limit") ||
  error.headers?.["x-ratelimit-remaining"] === "0")\<close>.
\<close>

definition isRateLimitError :: "ApiError \<Rightarrow> bool" where
  "isRateLimitError error =
     (status error = Some 403 \<and>
      ((case message error of None \<Rightarrow> False | Some m \<Rightarrow> String_includes m ''rate limit'') \<or>
       x_ratelimit_remaining error = Some ''0''))"

section \<open>The API client: domain objects, provider responses and the environment\<close>

text \<open>
  The domain objects of \<^verbatim>\<open>github.ts\<close>. A field whose name is already a constant of HOL
  or a field of an earlier record carries a suffix.
\<close>

record Contributor =
  login :: string
  id_c :: int
  avatarUrl :: string
  url_c :: string
  contributions :: int

record CommitActivity =
  week :: int
  total :: int
  days :: "int list"

record RepoDetails =
  owner :: string
  name :: string
  fullName :: string
  description :: string
  stars :: int
  forks :: int
  watchers :: int
  primaryLanguage :: string
  license :: string
  updatedAt :: string
  createdAt :: string
  url :: string
  defaultBranch :: string
  size_r :: int
  openIssuesCount :: int

text \<open>
  \<^verbatim>\<open>FileContent\<close> refers to itself in \<^verbatim>\<open>children\<close>, so it is a datatype; an optional
  field is an \<open>option\<close>.
\<close>

datatype FileContent =
  FileContent (name_f: string) (path_f: string) (type_f: string) (content_f: "string option")
    (size_f: int) (url_f: string) (children: "FileContent list option")

record RateLimit =
  limit :: int
  remaining :: int
  reset :: int
  isAuthenticated_rl :: bool

text \<open>
  What the provider's client library answers (its declarations are not part of the
  repository): the fields of each response that \<^verbatim>\<open>github.ts\<close> reads, an optional or
  nullable one as an \<open>option\<close>.
\<close>

record RawRepo =
  repo_owner_login :: string
  repo_name :: string
  repo_full_name :: string
  repo_description :: "string option"
  repo_stargazers_count :: int
  repo_forks_count :: int
  repo_watchers_count :: int
  repo_language :: "string option"
  repo_license_name :: "string option"
  repo_updated_at :: string
  repo_created_at :: string
  repo_html_url :: string
  repo_default_branch :: string
  repo_size :: int
  repo_open_issues_count :: int

record RawContributor =
  contrib_login :: "string option"
  contrib_id :: "int option"
  contrib_avatar_url :: "string option"
  contrib_html_url :: "string option"
  contrib_contributions :: int

record RawWeek =
  raw_week :: "int option"
  raw_total :: "int option"
  raw_days :: "int list option"

record StatsResponse =
  stats_status :: int
  stats_data :: "RawWeek option list"

text \<open>
  The property \<^verbatim>\<open>content\<close> of an item: the code tests whether the item has the
  property, whether its value is truthy, and decodes the value, so a missing property,
  the value null and a string are told apart.
\<close>

datatype content_property = NoProperty | NullValue | StringValue string

record RawItem =
  item_name :: string
  item_path :: string
  item_type :: string
  item_size :: int
  item_html_url :: "string option"
  item_content :: content_property

datatype ContentResponse = Directory "RawItem list" | SingleFile RawItem

text \<open>
  The requests that \<^verbatim>\<open>github.ts\<close> sends, and the events of a run: a request, or a
  \<^verbatim>\<open>setTimeout\<close> of so many milliseconds that is awaited.
\<close>

datatype request =
    ReposGet string string
  | ListContributors string string
  | GetCommitActivityStats string string
  | ListCommits string string
  | GetContent string string string
  | RateLimitGet

datatype event = Call request | Sleep int

text \<open>
  The environment of a run: what the provider answers to each request (\<open>Inl\<close> a
  rejection), the base64 decoder of the platform, and the clock. The answer to a request
  and the clock reading after an await may depend on how many events came before, so
  that every attempt of a retried request has an answer of its own. A commit of
  \<^verbatim>\<open>listCommits\<close> is its author date as \<^verbatim>\<open>new Date(date).getTime()\<close> reads it, in
  milliseconds, or \<open>None\<close> when the commit has no author date.
\<close>

record Env =
  repos_get :: "nat \<Rightarrow> string \<Rightarrow> string \<Rightarrow> ApiError + RawRepo"
  list_contributors :: "nat \<Rightarrow> string \<Rightarrow> string \<Rightarrow> ApiError + RawContributor list"
  get_commit_activity_stats :: "nat \<Rightarrow> string \<Rightarrow> string \<Rightarrow> ApiError + StatsResponse"
  list_commits :: "nat \<Rightarrow> string \<Rightarrow> string \<Rightarrow> ApiError + int option list"
  get_content :: "nat \<Rightarrow> string \<Rightarrow> string \<Rightarrow> string \<Rightarrow> ApiError + ContentResponse"
  rate_limit_get :: "nat \<Rightarrow> ApiError + (int \<times> int \<times> int)"
  base64_decode :: "string \<Rightarrow> string"
  time_after :: "nat \<Rightarrow> int"

text \<open>
  The three caches hold values of any type (\<^verbatim>\<open>CacheEntry<any>\<close>), and
  \<^verbatim>\<open>get<T>\<close> is an unchecked cast. A cached value is therefore a sum of the types that
  are stored, and the cast is the selector of the type that the caller names (which says
  nothing about a value of another type, as the cast does not).
\<close>

datatype cached =
    CRepoDetails (the_RepoDetails: RepoDetails)
  | CContributors (the_Contributors: "Contributor list")
  | CCommitActivity (the_CommitActivity: "CommitActivity list")
  | CFiles (the_Files: "FileContent list")
  | CString (the_String: string)
  | CRateLimit (the_RateLimit: RateLimit)

text \<open>
  \<^verbatim>\<open>if (cachedData)\<close>: null is falsy, an object or an array is truthy, a string is
  truthy when it is not empty.
\<close>

definition truthy :: "cached option \<Rightarrow> bool" where
  "truthy v = (case v of None \<Rightarrow> False | Some (CString s) \<Rightarrow> s \<noteq> [] | Some _ \<Rightarrow> True)"

text \<open>
  The client object. The client library is not part of the repository. Its constructor
  takes the option \<^verbatim>\<open>auth\<close>, the token, and keeps it inside the authentication function
  that it stores as the property \<^verbatim>\<open>auth\<close> of the client; that function has no property
  \<^verbatim>\<open>token\<close>, with or without a token. \<open>token_used\<close> is the token that the requests of
  the client carry, and \<open>auth_token\<close> is what \<^verbatim>\<open>octokit.auth?.token\<close> reads, \<open>None\<close> for
  undefined. The options for throttling configure what the library does inside a
  request; a request of the model stands for the awaited call, and its answer for what
  the call returns or throws.
\<close>

record Octokit =
  token_used :: "string option"
  auth_token :: "string option"

definition Octokit_new :: "string option \<Rightarrow> Octokit" where
  "Octokit_new auth' = \<lparr>token_used = auth', auth_token = None\<rparr>"

text \<open>
  \<^verbatim>\<open>createOctokit(token)\<close>, with the value of \<^verbatim>\<open>process.env.GITHUB_TOKEN\<close>:
  \<^verbatim>\<open>token || process.env.GITHUB_TOKEN\<close> is the token unless it is undefined or
  empty, and the client gets the option \<^verbatim>\<open>auth\<close> when that value is truthy.
\<close>

definition createOctokit :: "string option \<Rightarrow> string option \<Rightarrow> Octokit" where
  "createOctokit token envToken =
     (let githubToken = (case token of
                           None \<Rightarrow> envToken
                         | Some t \<Rightarrow> if t = [] then envToken else Some t)
      in case githubToken of
           None \<Rightarrow> Octokit_new None
         | Some t \<Rightarrow> if t = [] then Octokit_new None else Octokit_new (Some t))"

text \<open>
  The state of the module: the three caches of the cache module (each with the default
  \<open>maxSize\<close>), the current client (the variable \<^verbatim>\<open>octokit\<close>), the environment variable
  \<^verbatim>\<open>GITHUB_TOKEN\<close>, the clock, and the events so far. The module starts with
  \<^verbatim>\<open>createOctokit()\<close>.
\<close>

record World =
  repoCache :: "cached ApiCache"
  contentCache :: "cached ApiCache"
  rateLimitCache :: "cached ApiCache"
  octokit :: Octokit
  GITHUB_TOKEN :: "string option"
  clock :: int
  trace :: "event list"

definition initial_World :: "string option \<Rightarrow> int \<Rightarrow> World" where
  "initial_World envToken now =
     \<lparr>repoCache = ApiCache_new (Some (10 * 60 * 1000)) None,
      contentCache = ApiCache_new (Some (30 * 60 * 1000)) None,
      rateLimitCache = ApiCache_new (Some (30 * 1000)) None,
      octokit = createOctokit None envToken, GITHUB_TOKEN = envToken,
      clock = now, trace = []\<rparr>"

text \<open>\<^verbatim>\<open>isAuthenticated\<close>: \<^verbatim>\<open>!!octokit.auth?.token\<close>.\<close>

definition isAuthenticated :: "World \<Rightarrow> bool" where
  "isAuthenticated w = (case auth_token (octokit w) of None \<Rightarrow> False | Some t \<Rightarrow> t \<noteq> [])"

text \<open>\<^verbatim>\<open>updateGitHubToken\<close>: a new client with the token; it returns what
  \<^verbatim>\<open>isAuthenticated\<close> says of the new client.\<close>

definition updateGitHubToken :: "World \<Rightarrow> string \<Rightarrow> bool \<times> World" where
  "updateGitHubToken w token =
     (let w' = w\<lparr>octokit := createOctokit (Some token) (GITHUB_TOKEN w)\<rparr>
      in (isAuthenticated w', w'))"

definition isApproachingRateLimit :: "int \<Rightarrow> int \<Rightarrow> bool" where
  "isApproachingRateLimit remaining' limit' = (real_of_int remaining' < real_of_int limit' * 0.1)"

text \<open>
  An awaited request or timer adds its event and lets the clock move to the reading that
  the environment gives. The answer to a request is looked up with the number of events
  before it.
\<close>

definition await_event :: "Env \<Rightarrow> World \<Rightarrow> event \<Rightarrow> World" where
  "await_event env w ev = w\<lparr>clock := time_after env (length (trace w)), trace := trace w @ [ev]\<rparr>"

section \<open>The API client: the fetchers\<close>

text \<open>
  Numbers in template strings and \<^verbatim>\<open>Number.prototype.toFixed(1)\<close>. The two quotients
  that \<^verbatim>\<open>formatSize\<close> formats are by powers of two, so the double is the exact
  quotient \<open>a / b\<close>; \<^verbatim>\<open>toFixed(1)\<close> rounds it to a tenth, a tie upwards.
\<close>

fun digits :: "nat \<Rightarrow> string" where
  "digits n =
     (if n < 10 then [''0123456789'' ! n] else digits (n div 10) @ [''0123456789'' ! (n mod 10)])"

declare digits.simps [simp del]

definition String_of_int :: "int \<Rightarrow> string" where
  "String_of_int i = (if i < 0 then ''-'' @ digits (nat (- i)) else digits (nat i))"

definition toFixed1 :: "int \<Rightarrow> int \<Rightarrow> string" where
  "toFixed1 a b =
     (let n = (20 * a + b) div (2 * b)
      in String_of_int (n div 10) @ ''.'' @ String_of_int (n mod 10))"

definition formatSize :: "int \<Rightarrow> string" where
  "formatSize sizeInBytes =
     (if sizeInBytes \<ge> 1024 * 1024 then toFixed1 sizeInBytes (1024 * 1024) @ '' MB''
      else if sizeInBytes \<ge> 1024 then toFixed1 sizeInBytes 1024 @ '' KB''
      else String_of_int sizeInBytes @ '' bytes'')"

text \<open>\<^verbatim>\<open>x || d\<close> on an optional string: the default for a missing or empty one.\<close>

definition or_default :: "string option \<Rightarrow> string \<Rightarrow> string" where
  "or_default x d = (case x of None \<Rightarrow> d | Some s \<Rightarrow> if s = [] then d else s)"

text \<open>
  The template strings of \<^verbatim>\<open>github.ts\<close>: the cache keys, the messages of the errors
  that the fetchers throw, and the placeholder strings that \<^verbatim>\<open>getFileContent\<close>
  returns.
\<close>

definition repoDetailsKey :: "string \<Rightarrow> string \<Rightarrow> string" where
  "repoDetailsKey owner' repo = ''repo-details:'' @ owner' @ ''/'' @ repo"

definition contributorsKey :: "string \<Rightarrow> string \<Rightarrow> string" where
  "contributorsKey owner' repo = ''contributors:'' @ owner' @ ''/'' @ repo"

definition commitActivityKey :: "string \<Rightarrow> string \<Rightarrow> string" where
  "commitActivityKey owner' repo = ''commit-activity:'' @ owner' @ ''/'' @ repo"

definition repoContentsKey :: "string \<Rightarrow> string \<Rightarrow> string \<Rightarrow> string" where
  "repoContentsKey owner' repo path = ''repo-contents:'' @ owner' @ ''/'' @ repo @ '':'' @ path"

definition fileContentKey :: "string \<Rightarrow> string \<Rightarrow> string \<Rightarrow> string" where
  "fileContentKey owner' repo path = ''file-content:'' @ owner' @ ''/'' @ repo @ '':'' @ path"

definition fileTreeKey :: "string \<Rightarrow> string \<Rightarrow> string \<Rightarrow> nat \<Rightarrow> nat \<Rightarrow> string" where
  "fileTreeKey owner' repo path maxDepth currentDepth =
     ''file-tree:'' @ owner' @ ''/'' @ repo @ '':'' @ path @ '':''
     @ String_of_int (int maxDepth) @ '':'' @ String_of_int (int currentDepth)"

definition tryAgainLater :: string where
  "tryAgainLater = ''Try again later.''"

definition addAToken :: string where
  "addAToken = ''Add a GitHub token to increase your rate limit from 60 to 5,000 requests per hour.''"

definition contentsRateLimitMessage :: "string \<Rightarrow> string" where
  "contentsRateLimitMessage path =
     ''GitHub API rate limit exceeded when fetching contents for path: '' @ path @ ''. ''"

definition fileContentRateLimitMessage :: string where
  "fileContentRateLimitMessage = ''GitHub API rate limit exceeded when fetching file content. ''"

definition fileTreeRateLimitMessage :: "string \<Rightarrow> string" where
  "fileTreeRateLimitMessage path =
     ''GitHub API rate limit exceeded when building file tree for path: '' @ path @ ''. ''"

definition stillComputingMessage :: string where
  "stillComputingMessage =
     ''GitHub is still computing commit activity statistics. Please try again in a few moments.''"

definition fileSkipped :: "string \<Rightarrow> string" where
  "fileSkipped path = ''// File skipped: '' @ path @ '' (likely binary or too large)''"

definition fileTooLarge :: "string \<Rightarrow> int \<Rightarrow> string" where
  "fileTooLarge path sz =
     ''// File too large to display: '' @ path @ '' ('' @ formatSize sz
     @ ''). Maximum size limit is 2MB.''"

definition fileNotFound :: "string \<Rightarrow> string" where
  "fileNotFound path = ''// File not found: '' @ path"

definition fileLoadError :: "ApiError \<Rightarrow> string" where
  "fileLoadError error =
     ''// Error loading file content: '' @ or_default (message error) ''Unknown error''"

definition notADirectoryError :: ApiError where
  "notADirectoryError = Error ''Path points to a directory, not a file''"

definition noContentError :: ApiError where
  "noContentError = Error ''File content not available''"

text \<open>
  The error that the platform's \<^verbatim>\<open>Buffer.from(content, 'base64')\<close> throws when the
  content is null.
\<close>

definition invalidArgumentError :: ApiError where
  "invalidArgumentError =
     Error (''The first argument must be of type string or an instance of Buffer, ''
            @ ''ArrayBuffer, or Array or an Array-like Object. Received null'')"

text \<open>\<^verbatim>\<open>if (cachedData) return cachedData\<close>: the cached value that is returned, if any.\<close>

definition cache_hit :: "cached option \<Rightarrow> cached option" where
  "cache_hit cachedData = (if truthy cachedData then cachedData else None)"

text \<open>
  \<^verbatim>\<open>getRateLimit\<close>: the cached snapshot, or a request; a rejection of the request is
  thrown as a new error.
\<close>

definition rateLimitKey :: string where
  "rateLimitKey = ''rate-limit''"

definition rateLimitFetchFailedMessage :: string where
  "rateLimitFetchFailedMessage = ''Failed to fetch rate limit information''"

definition getRateLimit :: "Env \<Rightarrow> World \<Rightarrow> (ApiError + RateLimit) \<times> World" where
  "getRateLimit env w =
     (let cacheKey = rateLimitKey;
          (cachedData, rc) = ApiCache_get (rateLimitCache w) (clock w) cacheKey;
          w1 = w\<lparr>rateLimitCache := rc\<rparr>
      in case cache_hit cachedData of
           Some v \<Rightarrow> (Inr (the_RateLimit v), w1)
         | None \<Rightarrow>
             let n = length (trace w1);
                 w2 = await_event env w1 (Call RateLimitGet)
             in case rate_limit_get env n of
                  Inl error \<Rightarrow> (Inl (Error rateLimitFetchFailedMessage), w2)
                | Inr (limit', remaining', reset') \<Rightarrow>
                    let result = \<lparr>limit = limit', remaining = remaining', reset = reset',
                                  isAuthenticated_rl = isAuthenticated w2\<rparr>;
                        w3 = w2\<lparr>rateLimitCache :=
                                  ApiCache_set (rateLimitCache w2) (clock w2) (clock w2) cacheKey
                                    (CRateLimit result) None\<rparr>
                    in (Inr result, w3))"

text \<open>
  \<^verbatim>\<open>Math.max(resetTime - currentTime, 0)\<close> with
  \<^verbatim>\<open>currentTime = Math.floor(Date.now() / 1000)\<close>.
\<close>

definition timeToReset :: "RateLimit \<Rightarrow> World \<Rightarrow> int" where
  "timeToReset rateLimit w = max (reset rateLimit - clock w div 1000) 0"

definition rateLimitAdvice :: "World \<Rightarrow> string" where
  "rateLimitAdvice w =
     (if isAuthenticated w then tryAgainLater else addAToken)"

definition item_of :: "RawItem \<Rightarrow> FileContent" where
  "item_of item =
     FileContent (item_name item) (item_path item) (item_type item) None (item_size item)
       (or_default (item_html_url item) ''#'') None"

definition file_of :: "Env \<Rightarrow> RawItem \<Rightarrow> FileContent" where
  "file_of env fileData =
     FileContent (item_name fileData) (item_path fileData) (item_type fileData)
       (case item_content fileData of
          NoProperty \<Rightarrow> None
        | NullValue \<Rightarrow> None
        | StringValue c \<Rightarrow> if c = [] then None else Some (base64_decode env c))
       (item_size fileData) (or_default (item_html_url fileData) ''#'') None"

text \<open>
  \<^verbatim>\<open>getRepoContents\<close>. Its parameter \<^verbatim>\<open>maxSize\<close> is not used by its body and is
  left out. The retry returns the promise of the recursive call, so what that call
  returns or throws is the outcome of the call.
\<close>

function getRepoContents ::
  "Env \<Rightarrow> World \<Rightarrow> string \<Rightarrow> string \<Rightarrow> string \<Rightarrow> nat \<Rightarrow> (ApiError + FileContent list) \<times> World"
where
  "getRepoContents env w owner' repo path retryCount =
     (let cacheKey = repoContentsKey owner' repo path;
          (cachedData, cc) = ApiCache_get (contentCache w) (clock w) cacheKey;
          w1 = w\<lparr>contentCache := cc\<rparr>
      in case cache_hit cachedData of
           Some v \<Rightarrow> (Inr (the_Files v), w1)
         | None \<Rightarrow>
             if shouldSkipPath path then (Inr [], w1)
             else
               let n = length (trace w1);
                   w2 = await_event env w1 (Call (GetContent owner' repo path))
               in case get_content env n owner' repo path of
                    Inr response \<Rightarrow>
                      let result = (case response of
                                      Directory items \<Rightarrow> map item_of items
                                    | SingleFile fileData \<Rightarrow> [file_of env fileData]);
                          w3 = w2\<lparr>contentCache :=
                                    ApiCache_set (contentCache w2) (clock w2) (clock w2) cacheKey
                                      (CFiles result) None\<rparr>
                      in (Inr result, w3)
                  | Inl error \<Rightarrow>
                      if isRateLimitError error
                      then (case getRateLimit env w2 of
                              (Inr rateLimit, w3) \<Rightarrow>
                                if retryCount < 2 \<and> timeToReset rateLimit w3 < 30
                                then getRepoContents env
                                       (await_event env w3
                                          (Sleep ((timeToReset rateLimit w3 + 1) * 1000)))
                                       owner' repo path (retryCount + 1)
                                else (Inl (Error (contentsRateLimitMessage path
                                                  @ rateLimitAdvice w3)), w3)
                            | (Inl rateLimitError, w3) \<Rightarrow>
                                (Inl (Error (contentsRateLimitMessage path
                                             @ rateLimitAdvice w3)), w3))
                      else (Inr [], w2))"
  by pat_completeness auto
termination
  by (relation "measure (\<lambda>(env, w, owner', repo, path, retryCount). 2 - retryCount)") auto

declare getRepoContents.simps [simp del]

text \<open>
  \<^verbatim>\<open>getFileContent\<close>. The part of its try block that runs once the provider has
  answered either returns a string (and may store it in the cache) or throws.
\<close>

definition readFileResponse ::
  "Env \<Rightarrow> World \<Rightarrow> string \<Rightarrow> string \<Rightarrow> ContentResponse \<Rightarrow> ApiError + (string \<times> World)"
where
  "readFileResponse env w cacheKey path response =
     (case response of
        Directory items \<Rightarrow> Inl notADirectoryError
      | SingleFile fileData \<Rightarrow>
          let fileSizeLimit = 2 * 1024 * 1024
          in if item_size fileData > fileSizeLimit
             then Inr (fileTooLarge path (item_size fileData), w)
             else case item_content fileData of
                    NoProperty \<Rightarrow> Inl noContentError
                  | NullValue \<Rightarrow> Inl invalidArgumentError
                  | StringValue content' \<Rightarrow>
                      let decodedContent = base64_decode env content';
                          w' = w\<lparr>contentCache :=
                                   ApiCache_set (contentCache w) (clock w) (clock w) cacheKey
                                     (CString decodedContent) None\<rparr>
                      in Inr (decodedContent, w'))"

function getFileContent ::
  "Env \<Rightarrow> World \<Rightarrow> string \<Rightarrow> string \<Rightarrow> string \<Rightarrow> nat \<Rightarrow> (ApiError + string) \<times> World"
where
  "getFileContent env w owner' repo path retryCount =
     (let cacheKey = fileContentKey owner' repo path;
          (cachedData, cc) = ApiCache_get (contentCache w) (clock w) cacheKey;
          w1 = w\<lparr>contentCache := cc\<rparr>
      in case cache_hit cachedData of
           Some v \<Rightarrow> (Inr (the_String v), w1)
         | None \<Rightarrow>
             if shouldSkipPath path
             then (Inr (fileSkipped path), w1)
             else
               let n = length (trace w1);
                   w2 = await_event env w1 (Call (GetContent owner' repo path))
               in case (case get_content env n owner' repo path of
                          Inl error \<Rightarrow> Inl error
                        | Inr response \<Rightarrow> readFileResponse env w2 cacheKey path response) of
                    Inr (result, w3) \<Rightarrow> (Inr result, w3)
                  | Inl error \<Rightarrow>
                      if isRateLimitError error
                      then (case getRateLimit env w2 of
                              (Inr rateLimit, w3) \<Rightarrow>
                                if retryCount < 2 \<and> timeToReset rateLimit w3 < 30
                                then getFileContent env
                                       (await_event env w3
                                          (Sleep ((timeToReset rateLimit w3 + 1) * 1000)))
                                       owner' repo path (retryCount + 1)
                                else (Inl (Error (fileContentRateLimitMessage
                                                  @ rateLimitAdvice w3)), w3)
                            | (Inl rateLimitError, w3) \<Rightarrow>
                                (Inl (Error (fileContentRateLimitMessage
                                             @ rateLimitAdvice w3)), w3))
                      else if status error = Some 404
                      then (Inr (fileNotFound path), w2)
                      else (Inr (fileLoadError error), w2))"
  by pat_completeness auto
termination
  by (relation "measure (\<lambda>(env, w, owner', repo, path, retryCount). 2 - retryCount)") auto

declare getFileContent.simps [simp del]

text \<open>\<^verbatim>\<open>handleApiError\<close> always throws; the model returns what it throws.\<close>

definition rateLimitExceededMessage :: "World \<Rightarrow> string" where
  "rateLimitExceededMessage w =
     ''GitHub API rate limit exceeded. ''
     @ (if isAuthenticated w then ''Try again later.''
        else ''Add a GITHUB_TOKEN to increase your rate limit from 60 to 5,000 requests per hour.'')"

definition couldNotBeFoundMessage :: "string \<Rightarrow> string" where
  "couldNotBeFoundMessage entityName =
     ''The requested '' @ entityName
     @ '' could not be found. The repository may be private or does not exist.''"

definition invalidRequestMessage :: "string \<Rightarrow> string" where
  "invalidRequestMessage entityName =
     ''Invalid request when fetching '' @ entityName
     @ ''. Please check the repository name and owner.''"

definition unableToFetchMessage :: "string \<Rightarrow> string" where
  "unableToFetchMessage entityName =
     ''Unable to fetch '' @ entityName @ ''. GitHub API may be unavailable or rate limited.''"

definition handleApiError :: "World \<Rightarrow> ApiError \<Rightarrow> string \<Rightarrow> ApiError" where
  "handleApiError w error entityName =
     (if isRateLimitError error
      then Error (rateLimitExceededMessage w)
      else if status error = Some 404
      then Error (couldNotBeFoundMessage entityName)
      else if status error = Some 422
      then Error (invalidRequestMessage entityName)
      else Error (unableToFetchMessage entityName))"

definition repoDetails_of :: "RawRepo \<Rightarrow> RepoDetails" where
  "repoDetails_of d =
     \<lparr>owner = repo_owner_login d, name = repo_name d, fullName = repo_full_name d,
      description = or_default (repo_description d) [],
      stars = repo_stargazers_count d, forks = repo_forks_count d,
      watchers = repo_watchers_count d,
      primaryLanguage = or_default (repo_language d) ''Not specified'',
      license = or_default (repo_license_name d) ''No license'',
      updatedAt = repo_updated_at d, createdAt = repo_created_at d, url = repo_html_url d,
      defaultBranch = repo_default_branch d, size_r = repo_size d,
      openIssuesCount = repo_open_issues_count d\<rparr>"

text \<open>
  \<^verbatim>\<open>getRepoDetails\<close>. \<^verbatim>\<open>ENABLE_UNGH_FALLBACK\<close> is the constant \<^verbatim>\<open>false\<close>, so the
  catch block is the call of \<^verbatim>\<open>handleApiError\<close>. The warning that
  \<^verbatim>\<open>isApproachingRateLimit\<close> guards is written to the console only.
\<close>

definition getRepoDetails ::
  "Env \<Rightarrow> World \<Rightarrow> string \<Rightarrow> string \<Rightarrow> (ApiError + RepoDetails) \<times> World"
where
  "getRepoDetails env w owner' repo =
     (let cacheKey = repoDetailsKey owner' repo;
          (cachedData, rc) = ApiCache_get (repoCache w) (clock w) cacheKey;
          w1 = w\<lparr>repoCache := rc\<rparr>
      in case cache_hit cachedData of
           Some v \<Rightarrow> (Inr (the_RepoDetails v), w1)
         | None \<Rightarrow>
             (case getRateLimit env w1 of
                (Inl error, w2) \<Rightarrow> (Inl (handleApiError w2 error ''repository details''), w2)
              | (Inr rateLimit, w2) \<Rightarrow>
                  let n = length (trace w2);
                      w3 = await_event env w2 (Call (ReposGet owner' repo))
                  in case repos_get env n owner' repo of
                       Inl error \<Rightarrow> (Inl (handleApiError w3 error ''repository details''), w3)
                     | Inr d \<Rightarrow>
                         let result = repoDetails_of d;
                             w4 = w3\<lparr>repoCache :=
                                       ApiCache_set (repoCache w3) (clock w3) (clock w3) cacheKey
                                         (CRepoDetails result) None\<rparr>
                         in (Inr result, w4)))"

text \<open>
  \<^verbatim>\<open>getContributors\<close>. As \<^verbatim>\<open>ENABLE_UNGH_FALLBACK\<close> is false, the catch block rethrows
  a rate-limit error and returns an empty array for any other error.
\<close>

definition contributor_of :: "string \<Rightarrow> RawContributor \<Rightarrow> Contributor" where
  "contributor_of owner' contributor =
     \<lparr>login = or_default (contrib_login contributor) ''anonymous'',
      id_c = (case contrib_id contributor of None \<Rightarrow> 0 | Some i \<Rightarrow> i),
      avatarUrl = or_default (contrib_avatar_url contributor)
                    ''https://avatars.githubusercontent.com/u/0'',
      url_c = or_default (contrib_html_url contributor) (''https://github.com/'' @ owner'),
      contributions = contrib_contributions contributor\<rparr>"

definition getContributors ::
  "Env \<Rightarrow> World \<Rightarrow> string \<Rightarrow> string \<Rightarrow> (ApiError + Contributor list) \<times> World"
where
  "getContributors env w owner' repo =
     (let cacheKey = contributorsKey owner' repo;
          (cachedData, rc) = ApiCache_get (repoCache w) (clock w) cacheKey;
          w1 = w\<lparr>repoCache := rc\<rparr>
      in case cache_hit cachedData of
           Some v \<Rightarrow> (Inr (the_Contributors v), w1)
         | None \<Rightarrow>
             let n = length (trace w1);
                 w2 = await_event env w1 (Call (ListContributors owner' repo))
             in case list_contributors env n owner' repo of
                  Inr d \<Rightarrow>
                    if length d = 0 then (Inr [], w2)
                    else
                      let result = map (contributor_of owner') d;
                          w3 = w2\<lparr>repoCache :=
                                    ApiCache_set (repoCache w2) (clock w2) (clock w2) cacheKey
                                      (CContributors result) None\<rparr>
                      in (Inr result, w3)
                | Inl error \<Rightarrow>
                    if isRateLimitError error then (Inl error, w2) else (Inr [], w2))"

text \<open>
  The alternative computation of the commit activity. Times are whole seconds
  (\<^verbatim>\<open>Math.floor(ms / 1000)\<close>); JavaScript's \<^verbatim>\<open>%\<close> takes the sign of the dividend;
  \<^verbatim>\<open>getUTCDay\<close> is the day of the week of an instant in milliseconds, 0 for Sunday (the
  first day of 1970 was a Thursday).
\<close>

definition js_rem :: "int \<Rightarrow> int \<Rightarrow> int" where
  "js_rem a b = (if a \<ge> 0 then a mod b else - ((- a) mod b))"

definition weekStartOf :: "int \<Rightarrow> int" where
  "weekStartOf t = t - js_rem t (7 * 24 * 60 * 60)"

definition getUTCDay :: "int \<Rightarrow> nat" where
  "getUTCDay ms = nat ((ms div 86400000 + 4) mod 7)"

record WeekData =
  total_w :: int
  days_w :: "int list"

definition emptyWeek :: WeekData where
  "emptyWeek = \<lparr>total_w = 0, days_w = [0, 0, 0, 0, 0, 0, 0]\<rparr>"

text \<open>
  The body of the \<^verbatim>\<open>forEach\<close> over the commits. A commit without an author date is
  left out. The week that is counted up is the one in the map, or the empty one that
  was just stored for a week that was not there.
\<close>

definition countCommit :: "(int \<times> WeekData) list \<Rightarrow> int option \<Rightarrow> (int \<times> WeekData) list" where
  "countCommit weeklyCommits date =
     (case date of
        None \<Rightarrow> weeklyCommits
      | Some ms \<Rightarrow>
          let commitTime = ms div 1000;
              weekStart = weekStartOf commitTime;
              dayOfWeek = getUTCDay ms;
              wk = (case Map_get weeklyCommits weekStart of None \<Rightarrow> emptyWeek | Some d \<Rightarrow> d)
          in Map_set weeklyCommits weekStart
               \<lparr>total_w = total_w wk + 1,
                days_w = (days_w wk)[dayOfWeek := days_w wk ! dayOfWeek + 1]\<rparr>)"

definition initialWeeks :: "int \<Rightarrow> (int \<times> WeekData) list" where
  "initialWeeks currentTime =
     foldl (\<lambda>weeklyCommits i.
              let weekTime = currentTime - (i * 7 * 24 * 60 * 60);
                  weekStart = weekStartOf weekTime
              in Map_set weeklyCommits weekStart emptyWeek)
       [] [0, 1, 2, 3]"

definition bucketCommits :: "int \<Rightarrow> int option list \<Rightarrow> CommitActivity list" where
  "bucketCommits currentTime commits =
     (let weeklyCommits = foldl countCommit (initialWeeks currentTime) commits
      in sort_key week
           (map (\<lambda>(wk, d). \<lparr>week = wk, total = total_w d, days = days_w d\<rparr>) weeklyCommits))"

text \<open>
  \<^verbatim>\<open>getCommitActivityAlternative\<close> catches every error and returns an empty array, so it
  never throws. The \<^verbatim>\<open>since\<close> parameter of the request only selects what the provider
  answers, which the environment gives.
\<close>

definition getCommitActivityAlternative ::
  "Env \<Rightarrow> World \<Rightarrow> string \<Rightarrow> string \<Rightarrow> CommitActivity list \<times> World"
where
  "getCommitActivityAlternative env w owner' repo =
     (let n = length (trace w);
          w1 = await_event env w (Call (ListCommits owner' repo))
      in case list_commits env n owner' repo of
           Inl error \<Rightarrow> ([], w1)
         | Inr commits \<Rightarrow>
             if length commits = 0 then ([], w1)
             else (bucketCommits (clock w1 div 1000) commits, w1))"

definition commitActivity_of :: "RawWeek option \<Rightarrow> CommitActivity" where
  "commitActivity_of wk =
     (case wk of
        None \<Rightarrow> \<lparr>week = 0, total = 0, days = [0, 0, 0, 0, 0, 0, 0]\<rparr>
      | Some r \<Rightarrow>
          \<lparr>week = (case raw_week r of None \<Rightarrow> 0 | Some x \<Rightarrow> x),
           total = (case raw_total r of None \<Rightarrow> 0 | Some x \<Rightarrow> x),
           days = (case raw_days r of None \<Rightarrow> [0, 0, 0, 0, 0, 0, 0] | Some ds \<Rightarrow> ds)\<rparr>)"

text \<open>
  The catch block of \<^verbatim>\<open>getCommitActivity\<close>: it receives whatever the try block throws.
\<close>

definition commitActivityRateLimitMessage :: string where
  "commitActivityRateLimitMessage = ''GitHub API rate limit exceeded. Please try again later.''"

definition repositoryNotFoundMessage :: string where
  "repositoryNotFoundMessage = ''Repository not found or you don't have access to it.''"

definition getCommitActivity_catch ::
  "Env \<Rightarrow> World \<Rightarrow> string \<Rightarrow> string \<Rightarrow> ApiError \<Rightarrow> (ApiError + CommitActivity list) \<times> World"
where
  "getCommitActivity_catch env w owner' repo error =
     (if isRateLimitError error
      then (Inl (Error commitActivityRateLimitMessage), w)
      else if status error = Some 404
      then (Inl (Error repositoryNotFoundMessage), w)
      else let (result, w') = getCommitActivityAlternative env w owner' repo
           in (Inr result, w'))"

text \<open>
  \<^verbatim>\<open>getCommitActivity\<close>. The retry returns the promise of the recursive call, so what
  that call returns or throws is the outcome. The \<^verbatim>\<open>throw\<close> after the third retry
  stands inside the try block, so the catch block of the same call receives it.
\<close>

function getCommitActivity ::
  "Env \<Rightarrow> World \<Rightarrow> string \<Rightarrow> string \<Rightarrow> nat \<Rightarrow> (ApiError + CommitActivity list) \<times> World"
where
  "getCommitActivity env w owner' repo retryCount =
     (let cacheKey = commitActivityKey owner' repo;
          (cachedData, rc) = ApiCache_get (repoCache w) (clock w) cacheKey;
          w1 = w\<lparr>repoCache := rc\<rparr>
      in case cache_hit cachedData of
           Some v \<Rightarrow> (Inr (the_CommitActivity v), w1)
         | None \<Rightarrow>
             let n = length (trace w1);
                 w2 = await_event env w1 (Call (GetCommitActivityStats owner' repo))
             in case get_commit_activity_stats env n owner' repo of
                  Inr response \<Rightarrow>
                    if stats_status response = 202
                    then if retryCount < 3
                         then getCommitActivity env (await_event env w2 (Sleep 3000))
                                owner' repo (retryCount + 1)
                         else getCommitActivity_catch env w2 owner' repo
                                (Error stillComputingMessage)
                    else if length (stats_data response) = 0 then (Inr [], w2)
                    else
                      let result = map commitActivity_of (stats_data response);
                          w3 = w2\<lparr>repoCache :=
                                    ApiCache_set (repoCache w2) (clock w2) (clock w2) cacheKey
                                      (CCommitActivity result) None\<rparr>
                      in (Inr result, w3)
                | Inl error \<Rightarrow> getCommitActivity_catch env w2 owner' repo error)"
  by pat_completeness auto
termination
  by (relation "measure (\<lambda>(env, w, owner', repo, retryCount). 3 - retryCount)") auto

declare getCommitActivity.simps [simp del]

text \<open>
  \<^verbatim>\<open>buildFileTree\<close> and the loop over the contents of a directory. The loop carries the
  number of directories that came before the item: \<^verbatim>\<open>dirsToProcess\<close> holds the first 25
  directories of \<^verbatim>\<open>contents\<close>, the same objects, so \<^verbatim>\<open>dirsToProcess.includes(item)\<close>
  holds for a directory exactly when fewer than 25 directories came before it.
\<close>

definition with_children :: "FileContent \<Rightarrow> FileContent list \<Rightarrow> FileContent" where
  "with_children item cs =
     FileContent (name_f item) (path_f item) (type_f item) (content_f item) (size_f item)
       (url_f item) (Some cs)"

function buildFileTree ::
  "Env \<Rightarrow> World \<Rightarrow> string \<Rightarrow> string \<Rightarrow> string \<Rightarrow> nat \<Rightarrow> nat \<Rightarrow> nat
     \<Rightarrow> (ApiError + FileContent list) \<times> World"
and expandItems ::
  "Env \<Rightarrow> World \<Rightarrow> string \<Rightarrow> string \<Rightarrow> nat \<Rightarrow> nat \<Rightarrow> FileContent list \<Rightarrow> nat
     \<Rightarrow> FileContent list \<times> World"
where
  "buildFileTree env w owner' repo path maxDepth currentDepth retryCount =
     (let cacheKey = fileTreeKey owner' repo path maxDepth currentDepth;
          (cachedData, cc) = ApiCache_get (contentCache w) (clock w) cacheKey;
          w1 = w\<lparr>contentCache := cc\<rparr>
      in case cache_hit cachedData of
           Some v \<Rightarrow> (Inr (the_Files v), w1)
         | None \<Rightarrow>
             if currentDepth \<ge> maxDepth then (Inr [], w1)
             else
               (case getRepoContents env w1 owner' repo path 0 of
                  (Inr contents, w2) \<Rightarrow>
                    (case expandItems env w2 owner' repo maxDepth currentDepth contents 0 of
                       (result, w3) \<Rightarrow>
                         (Inr result,
                          w3\<lparr>contentCache :=
                                ApiCache_set (contentCache w3) (clock w3) (clock w3) cacheKey
                                  (CFiles result) None\<rparr>))
                | (Inl error, w2) \<Rightarrow>
                    if isRateLimitError error
                    then (case getRateLimit env w2 of
                            (Inr rateLimit, w3) \<Rightarrow>
                              if retryCount < 2 \<and> timeToReset rateLimit w3 < 30
                              then buildFileTree env
                                     (await_event env w3
                                        (Sleep ((timeToReset rateLimit w3 + 1) * 1000)))
                                     owner' repo path maxDepth currentDepth (retryCount + 1)
                              else (Inl (Error (fileTreeRateLimitMessage path
                                                @ rateLimitAdvice w3)), w3)
                          | (Inl rateLimitError, w3) \<Rightarrow>
                              (Inl (Error (fileTreeRateLimitMessage path
                                           @ rateLimitAdvice w3)), w3))
                    else (Inr [], w2)))"
| "expandItems env w owner' repo maxDepth currentDepth [] dirsBefore = ([], w)"
| "expandItems env w owner' repo maxDepth currentDepth (item # items) dirsBefore =
     (if type_f item = ''dir'' \<and> dirsBefore < 25
      then (case buildFileTree env w owner' repo (path_f item) maxDepth (currentDepth + 1) 0 of
              (r, w1) \<Rightarrow>
                (case expandItems env w1 owner' repo maxDepth currentDepth items (dirsBefore + 1) of
                   (result, w2) \<Rightarrow>
                     ((case r of
                         Inr children' \<Rightarrow> with_children item children'
                       | Inl error \<Rightarrow> with_children item []) # result, w2)))
      else (case expandItems env w owner' repo maxDepth currentDepth items
                   (if type_f item = ''dir'' then dirsBefore + 1 else dirsBefore) of
              (result, w2) \<Rightarrow> (item # result, w2)))"
  by pat_completeness auto
termination
  by (relation "measures
        [\<lambda>x. case x of
                Inl (env, w, owner', repo, path, maxDepth, currentDepth, retryCount) \<Rightarrow>
                  (if currentDepth \<ge> maxDepth then 0 else 2 * (maxDepth - currentDepth) + 1)
              | Inr (env, w, owner', repo, maxDepth, currentDepth, items, dirsBefore) \<Rightarrow>
                  (if currentDepth \<ge> maxDepth then 1 else 2 * (maxDepth - currentDepth)),
         \<lambda>x. case x of
                Inl (env, w, owner', repo, path, maxDepth, currentDepth, retryCount) \<Rightarrow>
                  2 - retryCount
              | Inr (env, w, owner', repo, maxDepth, currentDepth, items, dirsBefore) \<Rightarrow>
                  length items]") auto

declare buildFileTree.simps [simp del]


section \<open>Metrics (calculateMetrics)\<close>

text \<open>
  \<^verbatim>\<open>calculateMetrics\<close>. JavaScript numbers are read as exact numbers: counts are
  integers, and the quotients are reals. The code computes the averages and
  \<^verbatim>\<open>changePercent\<close> in double precision, rounding after each operation, so these three
  values, and \<open>trend\<close> where \<^verbatim>\<open>changePercent\<close> is within a rounding error of 20 or -20,
  are the code's only up to that rounding; \<open>totalCommits\<close> and \<open>mostActiveContributors\<close>
  do not depend on it. \<^verbatim>\<open>[...contributors].sort((a, b) =>
  b.contributions - a.contributions)\<close> is a stable sort, descending in the count; it is
  \<open>sort_key\<close> on the negated count. \<^verbatim>\<open>slice(-4)\<close> and \<^verbatim>\<open>slice(-8, -4)\<close> clamp at the
  start of the array, as truncating subtraction on \<open>nat\<close> does.
\<close>

record ActivityTrend =
  trend :: string
  changePercent :: real

record Metrics =
  averageCommitsPerWeek :: real
  totalCommits :: int
  mostActiveContributors :: "Contributor list"
  activityTrend :: ActivityTrend

definition sum_totals :: "CommitActivity list \<Rightarrow> int" where
  "sum_totals weeks = foldl (\<lambda>sum w. sum + total w) 0 weeks"

definition calculateMetrics :: "CommitActivity list \<Rightarrow> Contributor list \<Rightarrow> Metrics" where
  "calculateMetrics commitActivity contributors =
     (if length commitActivity = 0
      then \<lparr>averageCommitsPerWeek = 0, totalCommits = 0, mostActiveContributors = [],
            activityTrend = \<lparr>trend = ''stable'', changePercent = 0\<rparr>\<rparr>
      else
        let totalCommits = sum_totals commitActivity;
            averageCommitsPerWeek = real_of_int totalCommits / real (length commitActivity);
            mostActiveContributors = take 5 (sort_key (\<lambda>c. - contributions c) contributors);
            recentWeeks = drop (length commitActivity - 4) commitActivity;
            olderWeeks = drop (length commitActivity - 8)
                           (take (length commitActivity - 4) commitActivity);
            recentAvg = (if length recentWeeks \<noteq> 0
                         then real_of_int (sum_totals recentWeeks) / real (length recentWeeks)
                         else 0);
            olderAvg = (if length olderWeeks \<noteq> 0
                        then real_of_int (sum_totals olderWeeks) / real (length olderWeeks)
                        else 0);
            changePercent = (if olderAvg > 0 then ((recentAvg - olderAvg) / olderAvg) * 100 else 0);
            trend = (if olderAvg > 0
                     then (if changePercent > 20 then ''increasing''
                           else if changePercent < - 20 then ''decreasing'' else ''stable'')
                     else ''stable'')
        in \<lparr>averageCommitsPerWeek = averageCommitsPerWeek, totalCommits = totalCommits,
            mostActiveContributors = mostActiveContributors,
            activityTrend = \<lparr>trend = trend, changePercent = changePercent\<rparr>\<rparr>)"

text \<open>
  The claim's words, as a second definition to compare the code with: the most active
  contributor of a list is the one with the highest count, the earlier one of two with
  the same count; the top \<open>n\<close> are found by taking the most active one out of the list \<open>n\<close>
  times.
\<close>

fun most_active :: "Contributor \<Rightarrow> Contributor list \<Rightarrow> Contributor" where
  "most_active x [] = x"
| "most_active x (y # ys) =
     (let m = most_active y ys in if contributions m > contributions x then m else x)"

fun top_contributors :: "nat \<Rightarrow> Contributor list \<Rightarrow> Contributor list" where
  "top_contributors 0 xs = []"
| "top_contributors (Suc n) [] = []"
| "top_contributors (Suc n) (x # xs) =
     (let m = most_active x xs in m # top_contributors n (remove1 m (x # xs)))"

text \<open>
  For the statements about the alternative computation: the times, in seconds, of the
  commits that have a date, and the invariant of the loop over the commits (the keys
  of the map are distinct multiples of a week, every commit seen so far has its week
  in the map, and every week holds seven day counts that sum to its total, which is the
  number of commits seen so far whose week it is).
\<close>

definition commitTimes :: "int option list \<Rightarrow> int list" where
  "commitTimes commits = map (\<lambda>d. the d div 1000) (filter (\<lambda>d. d \<noteq> None) commits)"

definition counted :: "int option list \<Rightarrow> (int \<times> WeekData) list \<Rightarrow> bool" where
  "counted commits weeklyCommits =
     (distinct (map fst weeklyCommits) \<and>
      (\<forall>t\<in>set (commitTimes commits). weekStartOf t \<in> fst ` set weeklyCommits) \<and>
      (\<forall>p\<in>set weeklyCommits.
         fst p mod (7 * 24 * 60 * 60) = 0 \<and>
         length (days_w (snd p)) = 7 \<and>
         sum_list (days_w (snd p)) = total_w (snd p) \<and>
         total_w (snd p) = int (length (filter (\<lambda>t. weekStartOf t = fst p) (commitTimes commits)))))"

text \<open>Environments and errors for the examples.\<close>

definition not_found :: ApiError where
  "not_found = \<lparr>status = Some 404, message = Some ''Not Found'', x_ratelimit_remaining = None\<rparr>"

definition rate_limited :: ApiError where
  "rate_limited =
     \<lparr>status = Some 403, message = Some ''API rate limit exceeded for 192.0.2.1.'',
      x_ratelimit_remaining = Some ''0''\<rparr>"

definition no_provider :: Env where
  "no_provider =
     \<lparr>repos_get = (\<lambda>n owner' repo. Inl not_found),
      list_contributors = (\<lambda>n owner' repo. Inl not_found),
      get_commit_activity_stats = (\<lambda>n owner' repo. Inl not_found),
      list_commits = (\<lambda>n owner' repo. Inl not_found),
      get_content = (\<lambda>n owner' repo path. Inl not_found),
      rate_limit_get = (\<lambda>n. Inl not_found),
      base64_decode = (\<lambda>s. s),
      time_after = (\<lambda>n. 0)\<rparr>"

text \<open>A contributor with a login and a count, for the examples.\<close>

definition person :: "string \<Rightarrow> int \<Rightarrow> Contributor" where
  "person l n = \<lparr>login = l, id_c = 0, avatarUrl = [], url_c = [], contributions = n\<rparr>"

text \<open>
  For the statements about the fetchers. A cache misses a key when a \<^verbatim>\<open>get\<close> of the
  key cannot give a truthy value, whatever the clock reads: the key is not there, or its
  value is falsy. The number of the requests for the contents of a path in a list of
  events.
\<close>

definition misses :: "cached ApiCache \<Rightarrow> string \<Rightarrow> bool" where
  "misses c key = (case Map_get (cache c) key of None \<Rightarrow> True | Some e \<Rightarrow> \<not> truthy (Some (data e)))"

definition GetContent_calls :: "string \<Rightarrow> string \<Rightarrow> string \<Rightarrow> event list \<Rightarrow> nat" where
  "GetContent_calls owner' repo path evs =
     length (filter (\<lambda>ev. ev = Call (GetContent owner' repo path)) evs)"

text \<open>
  An environment where every request for contents is rejected with the provider's
  rate-limit error, and the limit is reported to reset at once.
\<close>

definition always_rate_limited :: Env where
  "always_rate_limited =
     no_provider\<lparr>get_content := (\<lambda>n owner' repo path. Inl rate_limited),
                 rate_limit_get := (\<lambda>n. Inr (60, 0, 0))\<rparr>"

text \<open>
  For the statements about retries: the world after a content fetcher has missed the
  cache and awaited its request, whether the retry policy retries on the outcome \<open>g\<close>
  of \<^verbatim>\<open>getRateLimit\<close>, and the world after the wait that precedes the retry.
\<close>

definition afterRequest :: "Env \<Rightarrow> World \<Rightarrow> string \<Rightarrow> request \<Rightarrow> World" where
  "afterRequest env w key req =
     await_event env (w\<lparr>contentCache := snd (ApiCache_get (contentCache w) (clock w) key)\<rparr>)
       (Call req)"

definition willRetry :: "(ApiError + RateLimit) \<times> World \<Rightarrow> nat \<Rightarrow> bool" where
  "willRetry g retryCount =
     (case fst g of
        Inr rateLimit \<Rightarrow> retryCount < 2 \<and> timeToReset rateLimit (snd g) < 30
      | Inl rateLimitError \<Rightarrow> False)"

definition retryWorld :: "Env \<Rightarrow> (ApiError + RateLimit) \<times> World \<Rightarrow> World" where
  "retryWorld env g =
     (case fst g of
        Inr rateLimit \<Rightarrow>
          await_event env (snd g) (Sleep ((timeToReset rateLimit (snd g) + 1) * 1000))
      | Inl rateLimitError \<Rightarrow> snd g)"

text \<open>
  Environments for the examples: one where the provider reports the rate limit and
  rejects every other request as not found, and one where every request for contents is
  rejected with the rate-limit error and the limit resets in an hour.
\<close>

definition provider_without_repo :: Env where
  "provider_without_repo = no_provider\<lparr>rate_limit_get := (\<lambda>n. Inr (60, 59, 3600))\<rparr>"

definition rate_limited_for_an_hour :: Env where
  "rate_limited_for_an_hour =
     no_provider\<lparr>get_content := (\<lambda>n owner' repo path. Inl rate_limited),
                 rate_limit_get := (\<lambda>n. Inr (60, 0, 3600))\<rparr>"

text \<open>
  Environments for the examples: a provider that knows the repository octo/demo, and
  one that answers every request for the commit activity statistics with status 202.
\<close>

definition demo_repo :: RawRepo where
  "demo_repo =
     \<lparr>repo_owner_login = ''octo'', repo_name = ''demo'', repo_full_name = ''octo/demo'',
      repo_description = None, repo_stargazers_count = 3, repo_forks_count = 1,
      repo_watchers_count = 3, repo_language = Some ''TypeScript'', repo_license_name = None,
      repo_updated_at = ''2024-01-02T00:00:00Z'', repo_created_at = ''2023-01-02T00:00:00Z'',
      repo_html_url = ''https://github.com/octo/demo'', repo_default_branch = ''main'',
      repo_size = 120, repo_open_issues_count = 0\<rparr>"

definition provider_with_repo :: Env where
  "provider_with_repo =
     no_provider\<lparr>repos_get := (\<lambda>n owner' repo. Inr demo_repo),
                 rate_limit_get := (\<lambda>n. Inr (60, 59, 3600))\<rparr>"

definition statistics_pending :: Env where
  "statistics_pending =
     no_provider\<lparr>get_commit_activity_stats :=
                   (\<lambda>n owner' repo. Inr \<lparr>stats_status = 202, stats_data = []\<rparr>)\<rparr>"

text \<open>
  The state after a call of \<^verbatim>\<open>getRateLimit\<close> on the initial state, with the provider
  that knows the repository: the rate-limit cache holds a snapshot.
\<close>

definition world_with_snapshot :: World where
  "world_with_snapshot = snd (getRateLimit provider_with_repo (initial_World None 0))"

text \<open>
  For the statements about the loop of \<^verbatim>\<open>buildFileTree\<close>: which items of a directory
  listing are expanded (a directory with fewer than 25 directories before it, counted
  from \<open>dirsBefore\<close>), the state in which the loop reaches each item, and the entry that
  the loop pushes for an item that it reaches in the state \<open>w\<close>.
\<close>

fun expandFlags :: "FileContent list \<Rightarrow> nat \<Rightarrow> bool list" where
  "expandFlags [] dirsBefore = []"
| "expandFlags (item # items) dirsBefore =
     (type_f item = ''dir'' \<and> dirsBefore < 25)
     # expandFlags items (if type_f item = ''dir'' then dirsBefore + 1 else dirsBefore)"

fun expandWorlds ::
  "Env \<Rightarrow> World \<Rightarrow> string \<Rightarrow> string \<Rightarrow> nat \<Rightarrow> nat \<Rightarrow> FileContent list \<Rightarrow> nat \<Rightarrow> World list"
where
  "expandWorlds env w owner' repo maxDepth currentDepth [] dirsBefore = []"
| "expandWorlds env w owner' repo maxDepth currentDepth (item # items) dirsBefore =
     w # expandWorlds env
           (if type_f item = ''dir'' \<and> dirsBefore < 25
            then snd (buildFileTree env w owner' repo (path_f item) maxDepth (currentDepth + 1) 0)
            else w)
           owner' repo maxDepth currentDepth items
           (if type_f item = ''dir'' then dirsBefore + 1 else dirsBefore)"

definition expandedEntry ::
  "Env \<Rightarrow> string \<Rightarrow> string \<Rightarrow> nat \<Rightarrow> nat \<Rightarrow> FileContent \<Rightarrow> bool \<Rightarrow> World \<Rightarrow> FileContent"
where
  "expandedEntry env owner' repo maxDepth currentDepth item expand w =
     (if expand
      then with_children item
             (case fst (buildFileTree env w owner' repo (path_f item) maxDepth
                          (currentDepth + 1) 0) of
                Inr children' \<Rightarrow> children'
              | Inl error \<Rightarrow> [])
      else item)"

text \<open>
  A repository for the examples: the root holds the directory src, the file README.md and
  the directory docs; src holds one file; every other request for contents, among them
  the one for docs, is rejected with the rate-limit error, and the limit resets in an
  hour.
\<close>

definition dir_entry :: "string \<Rightarrow> RawItem" where
  "dir_entry p =
     \<lparr>item_name = p, item_path = p, item_type = ''dir'', item_size = 0,
      item_html_url = None, item_content = NoProperty\<rparr>"

definition file_entry :: "string \<Rightarrow> RawItem" where
  "file_entry p =
     \<lparr>item_name = p, item_path = p, item_type = ''file'', item_size = 10,
      item_html_url = None, item_content = NoProperty\<rparr>"

definition small_repo :: Env where
  "small_repo =
     no_provider
       \<lparr>get_content := (\<lambda>n owner' repo path.
          if path = [] then Inr (Directory [dir_entry ''src'', file_entry ''README.md'',
                                            dir_entry ''docs''])
          else if path = ''src'' then Inr (Directory [file_entry ''src/a.ts''])
          else Inl rate_limited),
        rate_limit_get := (\<lambda>n. Inr (60, 0, 3600))\<rparr>"

text \<open>
  The state after the loop of \<^verbatim>\<open>buildFileTree\<close>, started in the state \<open>w\<close>, has handled
  the first \<open>i\<close> items of a listing.
\<close>

definition stateAfter ::
  "Env \<Rightarrow> World \<Rightarrow> string \<Rightarrow> string \<Rightarrow> nat \<Rightarrow> nat \<Rightarrow> FileContent list \<Rightarrow> nat \<Rightarrow> World"
where
  "stateAfter env w owner' repo maxDepth currentDepth items i =
     snd (expandItems env w owner' repo maxDepth currentDepth (take i items) 0)"

text \<open>
  A wide repository for the examples: the root holds the file README.md and the 26
  directories a to z, and every directory is empty.
\<close>

definition wide_names :: "string list" where
  "wide_names = map (\<lambda>c. [c]) ''abcdefghijklmnopqrstuvwxyz''"

definition wide_listing :: "FileContent list" where
  "wide_listing = item_of (file_entry ''README.md'') # map (\<lambda>p. item_of (dir_entry p)) wide_names"

definition wide_repo :: Env where
  "wide_repo =
     no_provider
       \<lparr>get_content := (\<lambda>n owner' repo path.
          if path = [] then Inr (Directory (file_entry ''README.md'' # map dir_entry wide_names))
          else Inr (Directory []))\<rparr>"

section \<open>Properties of the cache\<close>

lemma removeCount_ceiling: "int (removeCount n) = \<lceil>real n * 0.2\<rceil>"
proof -
  have "\<lceil>real n * 0.2\<rceil> = \<lceil>real n / 5\<rceil>" by simp
  also have "\<dots> = (int n + 4) div 5"
    by linarith
  finally show ?thesis by (simp add: removeCount_def zdiv_int)
qed


lemma Map_get_Map_set_same: "Map_get (Map_set m k e) k = Some e"
  by (induction m) auto

lemma Map_get_Map_set_other: "k' \<noteq> k \<Longrightarrow> Map_get (Map_set m k e) k' = Map_get m k'"
  by (induction m) auto

lemma Map_get_Map_delete_same: "Map_get (Map_delete m k) k = None"
  by (induction m) (auto simp: Map_delete_def)

lemma keys_Map_delete: "fst ` set (Map_delete m k) = fst ` set m - {k}"
  by (auto simp: Map_delete_def)

lemma map_fst_Map_set:
  "map fst (Map_set m k e) = (if k \<in> set (map fst m) then map fst m else map fst m @ [k])"
  by (induction m) (auto simp: rev_image_eqI)

lemma keys_Map_set: "fst ` set (Map_set m k e) = insert k (fst ` set m)"
  using map_fst_Map_set [of m k e, THEN arg_cong, of set] by (auto split: if_splits)

lemma length_Map_set: "length (Map_set m k e) \<le> Suc (length m)"
  by (induction m) auto

lemma length_Map_delete: "length (Map_delete m k) \<le> length m"
  by (simp add: Map_delete_def)

lemma distinct_Map_set: "distinct (map fst m) \<Longrightarrow> distinct (map fst (Map_set m k e))"
  by (simp add: map_fst_Map_set)

lemma distinct_Map_delete: "distinct (map fst m) \<Longrightarrow> distinct (map fst (Map_delete m k))"
  by (simp add: Map_delete_def distinct_map_filter)

lemma foldl_Map_delete_if:
  "foldl (\<lambda>m p. if P p then Map_delete m (fst p) else m) m0 xs
     = filter (\<lambda>q. fst q \<notin> fst ` {p \<in> set xs. P p}) m0"
proof (induction xs arbitrary: m0)
  case Nil
  show ?case by simp
next
  case (Cons x xs)
  show ?case
    by (auto simp: Cons.IH Map_delete_def intro!: filter_cong)
qed

lemma foldl_Map_delete:
  "foldl (\<lambda>m p. Map_delete m (fst p)) m0 xs = filter (\<lambda>q. fst q \<notin> fst ` set xs) m0"
  using foldl_Map_delete_if [of "\<lambda>_. True" m0 xs] by simp

lemma distinct_keys_filter:
  assumes "distinct (map fst m)" and "set xs \<subseteq> set m"
  shows "filter (\<lambda>q. fst q \<notin> fst ` set xs) m = filter (\<lambda>q. q \<notin> set xs) m"
proof (rule filter_cong)
  fix q assume q: "q \<in> set m"
  have "fst q \<in> fst ` set xs \<longleftrightarrow> q \<in> set xs"
  proof
    assume "fst q \<in> fst ` set xs"
    then obtain p where p: "p \<in> set xs" "fst p = fst q" by auto
    with assms(2) have "p \<in> set m" by auto
    with assms(1) q p(2) have "p = q" by (metis distinct_map inj_onD)
    with p(1) show "q \<in> set xs" by simp
  qed auto
  then show "(fst q \<notin> fst ` set xs) = (q \<notin> set xs)" by simp
qed simp

lemma live_entries:
  assumes "distinct (map fst m)"
  shows "foldl (\<lambda>m' p. if expired now (snd p) then Map_delete m' (fst p) else m') m m
           = filter (\<lambda>p. \<not> expired now (snd p)) m"
proof -
  have "filter (\<lambda>q. fst q \<notin> fst ` {p \<in> set m. expired now (snd p)}) m
          = filter (\<lambda>q. fst q \<notin> fst ` set (filter (\<lambda>p. expired now (snd p)) m)) m"
    by simp
  also have "\<dots> = filter (\<lambda>q. q \<notin> set (filter (\<lambda>p. expired now (snd p)) m)) m"
    by (rule distinct_keys_filter [OF assms]) auto
  also have "\<dots> = filter (\<lambda>p. \<not> expired now (snd p)) m"
    by (rule filter_cong) auto
  finally show ?thesis by (simp add: foldl_Map_delete_if)
qed

lemma set_oldest: "set (oldest n m) \<subseteq> set m"
  unfolding oldest_def sortedEntries_def by (metis set_sort set_take_subset)

lemma cleanup_cache:
  assumes "distinct (map fst (cache c))"
  shows "cache (ApiCache_cleanup c now) =
           (let live = live_entries_of now (cache c)
            in if length live \<ge> maxSize (options c)
               then filter (\<lambda>q. q \<notin> set (oldest (removeCount (maxSize (options c))) live)) live
               else live)"
proof -
  let ?live = "live_entries_of now (cache c)"
  have d: "distinct (map fst ?live)"
    using assms by (simp add: live_entries_of_def distinct_map_filter)
  have "foldl (\<lambda>m p. Map_delete m (fst p)) ?live (oldest (removeCount (maxSize (options c))) ?live)
          = filter (\<lambda>q. q \<notin> set (oldest (removeCount (maxSize (options c))) ?live)) ?live"
    unfolding foldl_Map_delete by (rule distinct_keys_filter [OF d set_oldest])
  then show ?thesis
    by (simp add: ApiCache_cleanup_def live_entries [OF assms] Let_def
          live_entries_of_def [symmetric] oldest_def [symmetric])
qed

lemma options_cleanup: "options (ApiCache_cleanup c now) = options c"
  by (simp add: ApiCache_cleanup_def Let_def)

lemma distinct_cleanup:
  "distinct (map fst (cache c)) \<Longrightarrow> distinct (map fst (cache (ApiCache_cleanup c now)))"
  by (simp add: cleanup_cache Let_def live_entries_of_def distinct_map_filter)

lemma removeCount_pos: "0 < n \<Longrightarrow> 0 < removeCount n"
  by (simp add: removeCount_def)

lemma removeCount_le: "removeCount n \<le> n"
  by (simp add: removeCount_def)

lemma length_cleanup:
  assumes "distinct (map fst (cache c))" and "0 < maxSize (options c)"
    and "length (cache c) \<le> maxSize (options c)"
  shows "length (cache (ApiCache_cleanup c now)) < maxSize (options c)"
proof -
  let ?live = "live_entries_of now (cache c)"
  let ?old = "oldest (removeCount (maxSize (options c))) ?live"
  have le: "length ?live \<le> length (cache c)" by (simp add: live_entries_of_def)
  show ?thesis
  proof (cases "length ?live \<ge> maxSize (options c)")
    case False
    then show ?thesis using assms(1) by (simp add: cleanup_cache Let_def)
  next
    case True
    have "length (sortedEntries ?live) = length ?live"
      by (simp add: sortedEntries_def)
    with True assms(2) have ne: "sortedEntries ?live \<noteq> []"
      by auto
    then have "hd (sortedEntries ?live) \<in> set ?old"
      using removeCount_pos [OF assms(2)]
      by (cases "sortedEntries ?live"; cases "removeCount (maxSize (options c))") (auto simp: oldest_def)
    moreover have "set ?old \<subseteq> set ?live" by (rule set_oldest)
    ultimately have "\<exists>q\<in>set ?live. \<not> q \<notin> set ?old" by auto
    then have "length (filter (\<lambda>q. q \<notin> set ?old) ?live) < length ?live"
      by (metis (mono_tags, lifting) length_filter_less)
    with True le assms(3) show ?thesis using assms(1) by (simp add: cleanup_cache Let_def)
  qed
qed

lemma options_set: "options (ApiCache_set c now now' key d ttl_arg) = options c"
  by (simp add: ApiCache_set_def Let_def options_cleanup)

lemma distinct_set:
  "distinct (map fst (cache c)) \<Longrightarrow> distinct (map fst (cache (ApiCache_set c now now' key d ttl_arg)))"
  by (simp add: ApiCache_set_def Let_def distinct_Map_set distinct_cleanup)

lemma length_set:
  assumes "distinct (map fst (cache c))" and "0 < maxSize (options c)"
    and "length (cache c) \<le> maxSize (options c)"
  shows "length (cache (ApiCache_set c now now' key d ttl_arg)) \<le> maxSize (options c)"
proof (cases "length (cache c) \<ge> maxSize (options c)")
  case True
  have "length (cache (ApiCache_cleanup c now')) < maxSize (options c)"
    by (rule length_cleanup [OF assms])
  then show ?thesis
    using True length_Map_set [of "cache (ApiCache_cleanup c now')" key]
    by (simp add: ApiCache_set_def Let_def) (meson Suc_leI le_trans)
next
  case False
  then show ?thesis
    using length_Map_set [of "cache c" key]
    by (simp add: ApiCache_set_def Let_def) (meson Suc_leI le_trans not_le)
qed

lemma apply_op_options: "options (apply_op c x) = options c"
  by (cases x) (auto simp: ApiCache_get_def ApiCache_has_def ApiCache_delete_def
      ApiCache_clear_def options_set split: option.splits)

lemma apply_op_ok:
  assumes "0 < maxSize (options c)" and "cache_ok c"
  shows "cache_ok (apply_op c x)"
proof (cases x)
  case (Set key d ttl_arg now now')
  then show ?thesis
    using assms by (simp add: cache_ok_def distinct_set length_set options_set)
next
  case (Get key now)
  then show ?thesis
    using assms length_Map_delete [of "cache c" key]
    by (auto simp: cache_ok_def ApiCache_get_def distinct_Map_delete split: option.splits)
next
  case (Has key now)
  then show ?thesis
    using assms length_Map_delete [of "cache c" key]
    by (auto simp: cache_ok_def ApiCache_has_def distinct_Map_delete split: option.splits)
next
  case (Delete key)
  then show ?thesis
    using assms length_Map_delete [of "cache c" key]
    by (auto simp: cache_ok_def ApiCache_delete_def distinct_Map_delete)
next
  case Clear
  then show ?thesis by (simp add: cache_ok_def ApiCache_clear_def)
qed

lemma run_ops_options: "options (run_ops c ops) = options c"
  unfolding run_ops_def by (induction ops arbitrary: c) (simp_all add: apply_op_options)

lemma run_ops_ok:
  "0 < maxSize (options c) \<Longrightarrow> cache_ok c \<Longrightarrow> cache_ok (run_ops c ops)"
  unfolding run_ops_def
  by (induction ops arbitrary: c) (simp_all add: apply_op_ok apply_op_options)

lemma apply_op_distinct:
  "distinct (map fst (cache c)) \<Longrightarrow> distinct (map fst (cache (apply_op c x)))"
  by (cases x) (auto simp: ApiCache_get_def ApiCache_has_def ApiCache_delete_def
      ApiCache_clear_def distinct_set distinct_Map_delete split: option.splits)

lemma run_ops_distinct:
  "distinct (map fst (cache c)) \<Longrightarrow> distinct (map fst (cache (run_ops c ops)))"
  unfolding run_ops_def by (induction ops arbitrary: c) (simp_all add: apply_op_distinct)

lemma oldest_minimal:
  assumes "p \<in> set (oldest n m)" and "q \<in> set m" and "q \<notin> set (oldest n m)"
  shows "timestamp (snd p) \<le> timestamp (snd q)"
proof -
  let ?s = "sortedEntries m"
  have s: "sorted (map (\<lambda>p. timestamp (snd p)) (take n ?s @ drop n ?s))"
    by (simp add: sortedEntries_def)
  have "q \<in> set ?s" using assms(2) by (simp add: sortedEntries_def)
  then have "q \<in> set (take n ?s) \<union> set (drop n ?s)"
    by (metis append_take_drop_id set_append)
  with assms(3) have "q \<in> set (drop n ?s)" by (simp add: oldest_def)
  with s assms(1) show ?thesis
    unfolding map_append sorted_append oldest_def by auto
qed

subsection \<open>Capacity and eviction\<close>

text \<open>
  Claim C1, as the code has it. Let \<open>c\<close> be a cache after any sequence of \<^verbatim>\<open>get\<close>,
  \<^verbatim>\<open>set\<close>, \<^verbatim>\<open>has\<close>, \<^verbatim>\<open>delete\<close> and \<^verbatim>\<open>clear\<close> calls on a new cache. If
  \<open>maxSize\<close> is at least 1, then \<open>c\<close> holds at most \<open>maxSize\<close> entries. A \<^verbatim>\<open>set\<close>
  called when \<open>c\<close> holds \<open>maxSize\<close> entries or more first drops every entry that has
  expired at the clock reading of the cleanup; if \<open>maxSize\<close> entries or more remain, it
  drops \<open>removeCount maxSize\<close> \<open>= \<lceil>maxSize \<times> 0.2\<rceil>\<close> of them, none of which is stored later
  than an entry that stays; then it stores the new entry. The bound on the number of
  entries needs \<open>maxSize \<ge> 1\<close>: a cache of capacity 0 holds one entry after its first
  \<^verbatim>\<open>set\<close> (\<open>ApiCache_capacity_counterexample\<close>).
\<close>

theorem ApiCache_capacity_and_eviction:
  fixes c :: "'v ApiCache"
  assumes "c = run_ops (ApiCache_new ttl_opt maxSize_opt) ops"
  shows "(0 < maxSize (options c) \<longrightarrow> length (cache c) \<le> maxSize (options c)) \<and>
         (length (cache c) \<ge> maxSize (options c) \<longrightarrow>
            (let live = live_entries_of now' (cache c);
                 old = oldest (removeCount (maxSize (options c))) live;
                 kept = (if length live \<ge> maxSize (options c)
                         then filter (\<lambda>q. q \<notin> set old) live else live);
                 entry = \<lparr>data = d, timestamp = now,
                           expiresAt = now + (case ttl_arg of
                                                None \<Rightarrow> ttl (options c)
                                              | Some t \<Rightarrow> if t = 0 then ttl (options c) else t)\<rparr>
             in cache (ApiCache_set c now now' key d ttl_arg) = Map_set kept key entry \<and>
                (length live \<ge> maxSize (options c) \<longrightarrow>
                   length old = removeCount (maxSize (options c)) \<and>
                   set old \<subseteq> set live \<and>
                   (\<forall>p\<in>set old. \<forall>q\<in>set live - set old.
                      timestamp (snd p) \<le> timestamp (snd q)))))"
proof -
  let ?c0 = "ApiCache_new ttl_opt maxSize_opt :: 'v ApiCache"
  have ok0: "cache_ok ?c0" by (simp add: cache_ok_def ApiCache_new_def)
  have opts: "options c = options ?c0" by (simp add: assms run_ops_options)
  have d: "distinct (map fst (cache c))"
    unfolding assms by (rule run_ops_distinct) (simp add: ApiCache_new_def)
  have inv: "0 < maxSize (options c) \<longrightarrow> length (cache c) \<le> maxSize (options c)"
  proof
    assume "0 < maxSize (options c)"
    then have "cache_ok (run_ops ?c0 ops)" using ok0 opts by (simp add: run_ops_ok)
    then show "length (cache c) \<le> maxSize (options c)" by (simp add: cache_ok_def assms)
  qed
  let ?live = "live_entries_of now' (cache c)"
  let ?n = "removeCount (maxSize (options c))"
  have len: "length ?live \<ge> maxSize (options c) \<Longrightarrow> length (oldest ?n ?live) = ?n"
    using removeCount_le [of "maxSize (options c)"] by (simp add: oldest_def sortedEntries_def)
  have small: "\<forall>p\<in>set (oldest ?n ?live). \<forall>q\<in>set ?live - set (oldest ?n ?live).
                 timestamp (snd p) \<le> timestamp (snd q)"
    using oldest_minimal by blast
  have "length (cache c) \<ge> maxSize (options c) \<Longrightarrow>
          cache (ApiCache_set c now now' key d ttl_arg) =
            Map_set (if length ?live \<ge> maxSize (options c)
                     then filter (\<lambda>q. q \<notin> set (oldest ?n ?live)) ?live else ?live) key
              \<lparr>data = d, timestamp = now,
               expiresAt = now + (case ttl_arg of
                                    None \<Rightarrow> ttl (options c)
                                  | Some t \<Rightarrow> if t = 0 then ttl (options c) else t)\<rparr>"
    by (simp add: ApiCache_set_def Let_def cleanup_cache [OF d])
  with inv len small set_oldest [of ?n ?live] show ?thesis
    by (simp add: Let_def)
qed

theorem ApiCache_capacity_and_eviction_witness:
  "(let c = run_ops (ApiCache_new None (Some 2))
              [Set ''a'' (1::nat) None 10 10, Set ''b'' 2 None 20 20]
    in 0 < maxSize (options c) \<and> length (cache c) = 2 \<and> maxSize (options c) = 2 \<and>
       length (live_entries_of 30 (cache c)) = 2 \<and>
       cache (ApiCache_set c 30 30 ''c'' 3 None) =
         [(''b'', \<lparr>data = 2, timestamp = 20, expiresAt = 300020\<rparr>),
          (''c'', \<lparr>data = 3, timestamp = 30, expiresAt = 300030\<rparr>)])"
  using ApiCache_capacity_and_eviction
    [of "run_ops (ApiCache_new None (Some 2)) [Set ''a'' (1::nat) None 10 10, Set ''b'' 2 None 20 20]"
        None "Some 2" "[Set ''a'' (1::nat) None 10 10, Set ''b'' 2 None 20 20]" 30 3 30 None "''c''"]
  by (simp add: run_ops_def ApiCache_new_def ApiCache_set_def DEFAULT_OPTIONS_def Let_def
        live_entries_of_def expired_def oldest_def sortedEntries_def removeCount_def)

theorem ApiCache_capacity_counterexample:
  "(let c = run_ops (ApiCache_new None (Some 0)) [Set ''a'' (1::nat) None 10 10]
    in length (cache c) = 1 \<and> maxSize (options c) = 0)"
  by (simp add: run_ops_def ApiCache_new_def ApiCache_set_def ApiCache_cleanup_def
        removeCount_def sortedEntries_def Let_def)

subsection \<open>Expiry on read\<close>

text \<open>
  Claim C2, as the code has it. A \<^verbatim>\<open>get\<close> at a time \<open>now\<close> strictly after the entry's
  \<open>expiresAt\<close> returns null and deletes the entry from the map; a \<^verbatim>\<open>get\<close> at a time
  \<open>now'\<close> strictly before \<open>expiresAt\<close> returns the stored data and leaves the cache as
  it is. An entry stored at time \<open>t\<close> expires at \<open>t + T'\<close>, where \<open>T'\<close> is the ttl argument
  of \<^verbatim>\<open>set\<close> when that is given and not 0, and the default ttl of the cache otherwise:
  read back before \<open>t + T'\<close> it is present, read after \<open>t + T'\<close> it is absent and evicted.
  With the ttl argument 0 the entry is therefore still present after \<open>t + 0\<close>
  (\<open>ApiCache_get_expiry_counterexample\<close>).
\<close>

theorem ApiCache_get_expiry:
  fixes c :: "'v ApiCache"
  shows "(Map_get (cache c) key = Some entry \<and> expiresAt entry < now \<longrightarrow>
            fst (ApiCache_get c now key) = None \<and>
            cache (snd (ApiCache_get c now key)) = Map_delete (cache c) key \<and>
            Map_get (cache (snd (ApiCache_get c now key))) key = None \<and>
            key \<notin> fst ` set (cache (snd (ApiCache_get c now key)))) \<and>
         (Map_get (cache c) key = Some entry \<and> now' < expiresAt entry \<longrightarrow>
            ApiCache_get c now' key = (Some (data entry), c)) \<and>
         (let T' = (case ttl_arg of
                      None \<Rightarrow> ttl (options c)
                    | Some T \<Rightarrow> if T = 0 then ttl (options c) else T);
              c1 = ApiCache_set c t t' key d ttl_arg
          in (now' < t + T' \<longrightarrow> ApiCache_get c1 now' key = (Some d, c1)) \<and>
             (t + T' < now \<longrightarrow>
                fst (ApiCache_get c1 now key) = None \<and>
                key \<notin> fst ` set (cache (snd (ApiCache_get c1 now key)))))"
proof -
  let ?T = "case ttl_arg of None \<Rightarrow> ttl (options c)
            | Some T \<Rightarrow> if T = 0 then ttl (options c) else T"
  let ?c1 = "ApiCache_set c t t' key d ttl_arg"
  have g: "Map_get (cache ?c1) key = Some \<lparr>data = d, timestamp = t, expiresAt = t + ?T\<rparr>"
    by (simp add: ApiCache_set_def Let_def Map_get_Map_set_same)
  have live: "now' < t + ?T \<Longrightarrow> ApiCache_get ?c1 now' key = (Some d, ?c1)"
    by (simp add: ApiCache_get_def g)
  have dead: "t + ?T < now \<Longrightarrow> fst (ApiCache_get ?c1 now key) = None \<and>
                key \<notin> fst ` set (cache (snd (ApiCache_get ?c1 now key)))"
    by (simp add: ApiCache_get_def g keys_Map_delete)
  have a: "Map_get (cache c) key = Some entry \<and> expiresAt entry < now \<longrightarrow>
            fst (ApiCache_get c now key) = None \<and>
            cache (snd (ApiCache_get c now key)) = Map_delete (cache c) key \<and>
            Map_get (cache (snd (ApiCache_get c now key))) key = None \<and>
            key \<notin> fst ` set (cache (snd (ApiCache_get c now key)))"
    by (simp add: ApiCache_get_def Map_get_Map_delete_same keys_Map_delete)
  have b: "Map_get (cache c) key = Some entry \<and> now' < expiresAt entry \<longrightarrow>
            ApiCache_get c now' key = (Some (data entry), c)"
    by (simp add: ApiCache_get_def)
  show ?thesis unfolding Let_def using a b live dead by blast
qed

theorem ApiCache_get_expiry_witness:
  "(let c = ApiCache_set (ApiCache_new None None) 0 0 ''k'' ''v'' (Some 100);
        entry = \<lparr>data = ''v'', timestamp = 0, expiresAt = 100\<rparr>;
        c1 = ApiCache_set c 0 0 ''k'' ''w'' (Some 60)
    in Map_get (cache c) ''k'' = Some entry \<and> expiresAt entry < 200 \<and> 50 < expiresAt entry \<and>
       fst (ApiCache_get c 200 ''k'') = None \<and>
       cache (snd (ApiCache_get c 200 ''k'')) = [] \<and>
       ApiCache_get c 50 ''k'' = (Some ''v'', c) \<and>
       ApiCache_get c1 50 ''k'' = (Some ''w'', c1) \<and>
       fst (ApiCache_get c1 200 ''k'') = None \<and>
       ''k'' \<notin> fst ` set (cache (snd (ApiCache_get c1 200 ''k''))))"
  using ApiCache_get_expiry
    [of "ApiCache_set (ApiCache_new None None) 0 0 ''k'' ''v'' (Some 100)" "''k''"
        "\<lparr>data = ''v'', timestamp = 0, expiresAt = 100\<rparr>" 200 50 "Some 60" 0 0 "''w''"]
  by (simp add: ApiCache_new_def ApiCache_set_def ApiCache_get_def DEFAULT_OPTIONS_def
        Map_delete_def Let_def)

theorem ApiCache_get_expiry_counterexample:
  "(let c1 = ApiCache_set (ApiCache_new None None) 0 0 ''k'' ''v'' (Some 0)
    in (0::int) + 0 < 1 \<and> fst (ApiCache_get c1 1 ''k'') = Some ''v'')"
  by (simp add: ApiCache_new_def ApiCache_set_def ApiCache_get_def DEFAULT_OPTIONS_def Let_def)

section \<open>Properties of the alternative commit activity\<close>

lemma set_Map_set:
  "distinct (map fst m) \<Longrightarrow> set (Map_set m k e) = insert (k, e) {p \<in> set m. fst p \<noteq> k}"
  by (induction m) (force split: if_splits)+

lemma Map_get_None: "Map_get m k = None \<longleftrightarrow> k \<notin> fst ` set m"
  by (induction m) (force split: if_splits)+

lemma Map_get_Some: "distinct (map fst m) \<Longrightarrow> Map_get m k = Some e \<longleftrightarrow> (k, e) \<in> set m"
  by (induction m) (force split: if_splits)+

lemma weekStartOf_aligned: "weekStartOf t mod (7 * 24 * 60 * 60) = 0"
proof (cases "t \<ge> 0")
  case True
  then show ?thesis by (simp add: weekStartOf_def js_rem_def minus_mod_eq_mult_div)
next
  case False
  have "t + (- t) mod 604800 = - ((- t) - (- t) mod 604800)" by simp
  also have "\<dots> = - (604800 * ((- t) div 604800))" by (simp add: minus_mod_eq_mult_div)
  finally show ?thesis using False by (simp add: weekStartOf_def js_rem_def)
qed

lemma weekStartOf_interval:
  assumes "0 \<le> t" and "k mod (7 * 24 * 60 * 60) = 0"
  shows "weekStartOf t = k \<longleftrightarrow> k \<le> t \<and> t < k + 7 * 24 * 60 * 60"
proof -
  from assms(2) obtain q where k: "k = 604800 * q" by auto
  have w: "weekStartOf t = 604800 * (t div 604800)"
    using assms(1) by (simp add: weekStartOf_def js_rem_def minus_mod_eq_mult_div)
  have "t div 604800 = q \<longleftrightarrow> 604800 * q \<le> t \<and> t < 604800 * q + 604800"
    by auto
  then show ?thesis by (simp add: w k)
qed

lemma sum_list_update_add:
  "i < length xs \<Longrightarrow> sum_list (xs[i := xs ! i + (1::int)]) = sum_list xs + 1"
  by (induction xs arbitrary: i) (auto split: nat.splits)

lemma getUTCDay_less: "getUTCDay ms < 7"
  by (simp add: getUTCDay_def nat_less_iff)

lemma commitTimes_snoc:
  "commitTimes (ds @ [d]) = (case d of None \<Rightarrow> commitTimes ds | Some ms \<Rightarrow> commitTimes ds @ [ms div 1000])"
  by (simp add: commitTimes_def split: option.splits)

lemma counted_keys:
  "counted ds m \<Longrightarrow> t \<in> set (commitTimes ds) \<Longrightarrow> weekStartOf t \<in> fst ` set m"
  by (simp add: counted_def)

lemma counted_distinct: "counted ds m \<Longrightarrow> distinct (map fst m)"
  by (simp add: counted_def)

lemma counted_entry:
  "counted ds m \<Longrightarrow> p \<in> set m \<Longrightarrow>
     fst p mod (7 * 24 * 60 * 60) = 0 \<and>
     length (days_w (snd p)) = 7 \<and>
     sum_list (days_w (snd p)) = total_w (snd p) \<and>
     total_w (snd p) = int (length (filter (\<lambda>t. weekStartOf t = fst p) (commitTimes ds)))"
  by (simp add: counted_def)

lemma countedI:
  assumes "distinct (map fst m)"
    and "\<And>t. t \<in> set (commitTimes ds) \<Longrightarrow> weekStartOf t \<in> fst ` set m"
    and "\<And>p. p \<in> set m \<Longrightarrow>
           fst p mod (7 * 24 * 60 * 60) = 0 \<and>
           length (days_w (snd p)) = 7 \<and>
           sum_list (days_w (snd p)) = total_w (snd p) \<and>
           total_w (snd p) = int (length (filter (\<lambda>t. weekStartOf t = fst p) (commitTimes ds)))"
  shows "counted ds m"
  unfolding counted_def using assms by blast

lemma counted_empty_week:
  assumes "counted [] m"
  shows "counted [] (Map_set m (weekStartOf x) emptyWeek)"
proof (rule countedI)
  have d: "distinct (map fst m)" by (rule counted_distinct [OF assms])
  then show "distinct (map fst (Map_set m (weekStartOf x) emptyWeek))"
    by (rule distinct_Map_set)
  show "weekStartOf t \<in> fst ` set (Map_set m (weekStartOf x) emptyWeek)"
    if "t \<in> set (commitTimes [])" for t
    using that by (simp add: commitTimes_def)
  fix p assume "p \<in> set (Map_set m (weekStartOf x) emptyWeek)"
  then consider "p = (weekStartOf x, emptyWeek)" | "p \<in> set m"
    by (auto simp: set_Map_set [OF d])
  then show "fst p mod (7 * 24 * 60 * 60) = 0 \<and>
           length (days_w (snd p)) = 7 \<and>
           sum_list (days_w (snd p)) = total_w (snd p) \<and>
           total_w (snd p) = int (length (filter (\<lambda>t. weekStartOf t = fst p) (commitTimes [])))"
  proof cases
    case 1
    then show ?thesis
      using weekStartOf_aligned [of x] by (simp add: emptyWeek_def commitTimes_def)
  next
    case 2
    then show ?thesis by (rule counted_entry [OF assms])
  qed
qed

lemma counted_initial: "counted [] (initialWeeks currentTime)"
proof -
  have "counted [] []" by (simp add: counted_def commitTimes_def)
  then show ?thesis
    by (simp only: initialWeeks_def foldl.simps Let_def) (intro counted_empty_week)
qed

lemma counted_step:
  assumes "counted ds m"
  shows "counted (ds @ [d]) (countCommit m d)"
proof (cases d)
  case None
  with assms show ?thesis by (simp add: countCommit_def counted_def commitTimes_snoc)
next
  case (Some ms)
  let ?k = "weekStartOf (ms div 1000)"
  let ?wk = "case Map_get m ?k of None \<Rightarrow> emptyWeek | Some d \<Rightarrow> d"
  let ?new = "\<lparr>total_w = total_w ?wk + 1,
               days_w = (days_w ?wk)[getUTCDay ms := days_w ?wk ! getUTCDay ms + 1]\<rparr>"
  let ?n = "\<lambda>k ts. int (length (filter (\<lambda>t. weekStartOf t = k) ts))"
  have d: "distinct (map fst m)" by (rule counted_distinct [OF assms])
  have ts: "commitTimes (ds @ [d]) = commitTimes ds @ [ms div 1000]"
    by (simp add: commitTimes_snoc Some)
  have m': "countCommit m d = Map_set m ?k ?new"
    by (simp add: Some countCommit_def Let_def)
  have wk: "length (days_w ?wk) = 7 \<and> sum_list (days_w ?wk) = total_w ?wk \<and>
            total_w ?wk = ?n ?k (commitTimes ds)"
  proof (cases "Map_get m ?k")
    case None
    then have nk: "?k \<notin> fst ` set m" by (simp add: Map_get_None)
    have "weekStartOf t \<noteq> ?k" if "t \<in> set (commitTimes ds)" for t
      using counted_keys [OF assms that] nk by metis
    then have "filter (\<lambda>t. weekStartOf t = ?k) (commitTimes ds) = []"
      by (simp add: filter_empty_conv)
    with None show ?thesis by (simp add: emptyWeek_def)
  next
    case (Some e)
    then have "(?k, e) \<in> set m" using d by (simp add: Map_get_Some)
    from counted_entry [OF assms this] Some show ?thesis by simp
  qed
  have new: "length (days_w ?new) = 7 \<and> sum_list (days_w ?new) = total_w ?new \<and>
             total_w ?new = ?n ?k (commitTimes (ds @ [d]))"
    using wk getUTCDay_less [of ms]
    by (simp add: sum_list_update_add ts)
  show ?thesis
    unfolding m'
  proof (rule countedI)
    show "distinct (map fst (Map_set m ?k ?new))" by (rule distinct_Map_set [OF d])
    show "weekStartOf t \<in> fst ` set (Map_set m ?k ?new)"
      if "t \<in> set (commitTimes (ds @ [d]))" for t
      using that counted_keys [OF assms, of t] by (auto simp: ts keys_Map_set)
    fix p assume "p \<in> set (Map_set m ?k ?new)"
    then consider "p = (?k, ?new)" | "p \<in> set m" "fst p \<noteq> ?k"
      by (auto simp: set_Map_set [OF d])
    then show "fst p mod (7 * 24 * 60 * 60) = 0 \<and>
          length (days_w (snd p)) = 7 \<and>
          sum_list (days_w (snd p)) = total_w (snd p) \<and>
          total_w (snd p) = ?n (fst p) (commitTimes (ds @ [d]))"
    proof cases
      case 1
      then show ?thesis using new weekStartOf_aligned [of "ms div 1000"] by simp
    next
      case 2
      have "?n (fst p) (commitTimes (ds @ [d])) = ?n (fst p) (commitTimes ds)"
        using 2(2) by (simp add: ts)
      with counted_entry [OF assms 2(1)] show ?thesis by simp
    qed
  qed
qed

lemma counted_foldl: "counted ds m \<Longrightarrow> counted (ds @ es) (foldl countCommit m es)"
proof (induction es arbitrary: ds m)
  case Nil
  then show ?case by simp
next
  case (Cons e es)
  from Cons.IH [OF counted_step [OF Cons.prems, of e]] show ?case by simp
qed

lemma bucketCommits_weeks:
  assumes "\<forall>ms. Some ms \<in> set commits \<longrightarrow> 0 \<le> ms"
  shows "(\<forall>wk\<in>set (bucketCommits currentTime commits).
            week wk mod (7 * 24 * 60 * 60) = 0 \<and>
            total wk = int (length (filter (\<lambda>t. week wk \<le> t \<and> t < week wk + 7 * 24 * 60 * 60)
                                      (commitTimes commits))) \<and>
            length (days wk) = 7 \<and>
            sum_list (days wk) = total wk) \<and>
         sorted (map week (bucketCommits currentTime commits)) \<and>
         distinct (map week (bucketCommits currentTime commits)) \<and>
         (\<forall>t\<in>set (commitTimes commits).
            \<exists>wk\<in>set (bucketCommits currentTime commits). week wk \<le> t \<and> t < week wk + 7 * 24 * 60 * 60)"
proof -
  let ?m = "foldl countCommit (initialWeeks currentTime) commits"
  let ?conv = "\<lambda>(wk, d). \<lparr>week = wk, total = total_w d, days = days_w d\<rparr>"
  have c: "counted commits ?m"
    using counted_foldl [OF counted_initial [of currentTime], of commits] by simp
  have b: "bucketCommits currentTime commits = sort_key week (map ?conv ?m)"
    by (simp add: bucketCommits_def)
  have wk: "map week (map ?conv ?m) = map fst ?m" by (simp add: case_prod_beta)
  have nonneg: "\<forall>t\<in>set (commitTimes commits). 0 \<le> t"
    using assms by (auto simp: commitTimes_def)
  have iv: "filter (\<lambda>t. weekStartOf t = k) (commitTimes commits)
              = filter (\<lambda>t. k \<le> t \<and> t < k + 7 * 24 * 60 * 60) (commitTimes commits)"
    if "k mod (7 * 24 * 60 * 60) = 0" for k
    by (rule filter_cong) (use nonneg that weekStartOf_interval in auto)
  have 1: "\<forall>wk\<in>set (bucketCommits currentTime commits).
            week wk mod (7 * 24 * 60 * 60) = 0 \<and>
            total wk = int (length (filter (\<lambda>t. week wk \<le> t \<and> t < week wk + 7 * 24 * 60 * 60)
                                      (commitTimes commits))) \<and>
            length (days wk) = 7 \<and>
            sum_list (days wk) = total wk"
  proof
    fix x assume "x \<in> set (bucketCommits currentTime commits)"
    then obtain p where p: "p \<in> set ?m" "x = ?conv p" by (auto simp: b)
    from c p(1) have *: "fst p mod (7 * 24 * 60 * 60) = 0 \<and>
         length (days_w (snd p)) = 7 \<and>
         sum_list (days_w (snd p)) = total_w (snd p) \<and>
         total_w (snd p) = int (length (filter (\<lambda>t. weekStartOf t = fst p) (commitTimes commits)))"
      unfolding counted_def by blast
    then have "fst p mod (7 * 24 * 60 * 60) = 0" by blast
    from iv [OF this] * show "week x mod (7 * 24 * 60 * 60) = 0 \<and>
            total x = int (length (filter (\<lambda>t. week x \<le> t \<and> t < week x + 7 * 24 * 60 * 60)
                                      (commitTimes commits))) \<and>
            length (days x) = 7 \<and>
            sum_list (days x) = total x"
      by (simp add: p(2) case_prod_beta)
  qed
  have 2: "sorted (map week (bucketCommits currentTime commits))"
    by (simp add: b)
  have "distinct (map week (map ?conv ?m))"
    using c unfolding wk by (simp add: counted_def)
  then have "distinct (map ?conv ?m)" "inj_on week (set (map ?conv ?m))"
    by (simp_all only: distinct_map)
  then have 3: "distinct (map week (bucketCommits currentTime commits))"
    unfolding b by (simp add: distinct_map)
  have 4: "\<forall>t\<in>set (commitTimes commits).
            \<exists>wk\<in>set (bucketCommits currentTime commits). week wk \<le> t \<and> t < week wk + 7 * 24 * 60 * 60"
  proof
    fix t assume t: "t \<in> set (commitTimes commits)"
    with c obtain p where p: "p \<in> set ?m" "fst p = weekStartOf t"
      unfolding counted_def by (metis (no_types, lifting) imageE)
    have "weekStartOf t = fst p \<longleftrightarrow> fst p \<le> t \<and> t < fst p + 7 * 24 * 60 * 60"
      by (rule weekStartOf_interval) (use nonneg t p(2) weekStartOf_aligned in auto)
    with p have "week (?conv p) \<le> t \<and> t < week (?conv p) + 7 * 24 * 60 * 60"
      by (simp add: case_prod_beta)
    moreover have "?conv p \<in> set (bucketCommits currentTime commits)"
      using p(1) by (simp add: b)
    ultimately show "\<exists>wk\<in>set (bucketCommits currentTime commits). week wk \<le> t \<and> t < week wk + 7 * 24 * 60 * 60"
      by blast
  qed
  from 1 2 3 4 show ?thesis by blast
qed

text \<open>
  Claim C6. Let the provider answer the request for the commits with \<open>commits\<close>, the
  author dates of which are instants of 1970 or later (as every instant inside the
  30-day window of the request is). Then in the weeks that
  \<^verbatim>\<open>getCommitActivityAlternative\<close> returns, every \<open>week\<close> is a multiple of 7 days since
  the epoch, its \<open>total\<close> is the number of commits whose time lies in
  \<open>[week, week + 7 days)\<close>, its \<open>days\<close> are seven counts that sum to the total, and the
  weeks are in ascending order with no week twice. Every dated commit lies in one of the
  returned weeks.
\<close>

theorem getCommitActivityAlternative_buckets:
  assumes "list_commits env (length (trace w)) owner' repo = Inr commits"
    and "\<forall>ms. Some ms \<in> set commits \<longrightarrow> 0 \<le> ms"
  shows "(let weeks = fst (getCommitActivityAlternative env w owner' repo)
          in (\<forall>wk\<in>set weeks.
                week wk mod (7 * 24 * 60 * 60) = 0 \<and>
                total wk = int (length (filter (\<lambda>t. week wk \<le> t \<and> t < week wk + 7 * 24 * 60 * 60)
                                          (commitTimes commits))) \<and>
                length (days wk) = 7 \<and>
                sum_list (days wk) = total wk) \<and>
             sorted (map week weeks) \<and>
             distinct (map week weeks) \<and>
             (commits \<noteq> [] \<longrightarrow>
                (\<forall>t\<in>set (commitTimes commits).
                   \<exists>wk\<in>set weeks. week wk \<le> t \<and> t < week wk + 7 * 24 * 60 * 60)))"
proof (cases "commits = []")
  case True
  then show ?thesis by (simp add: getCommitActivityAlternative_def assms(1) Let_def)
next
  case False
  then have "fst (getCommitActivityAlternative env w owner' repo)
               = bucketCommits (clock (await_event env w (Call (ListCommits owner' repo))) div 1000) commits"
    by (simp add: getCommitActivityAlternative_def assms(1) Let_def)
  with bucketCommits_weeks [OF assms(2)] show ?thesis
    unfolding Let_def by presburger
qed

lemma example_weeks:
  "bucketCommits 1700000000
     [Some 1699500000000, Some 1699000000000, None, Some 1698900000000, Some 1698300000000]
   = [\<lparr>week = 1697673600, total = 0, days = [0, 0, 0, 0, 0, 0, 0]\<rparr>,
      \<lparr>week = 1698278400, total = 1, days = [0, 0, 0, 0, 1, 0, 0]\<rparr>,
      \<lparr>week = 1698883200, total = 2, days = [0, 0, 0, 0, 1, 1, 0]\<rparr>,
      \<lparr>week = 1699488000, total = 1, days = [0, 0, 0, 0, 1, 0, 0]\<rparr>]"
  by (simp add: bucketCommits_def initialWeeks_def countCommit_def weekStartOf_def js_rem_def
        getUTCDay_def emptyWeek_def Let_def)

theorem getCommitActivityAlternative_buckets_witness:
  "(let env = no_provider
            \<lparr>list_commits := (\<lambda>n owner' repo.
               Inr [Some 1699500000000, Some 1699000000000, None, Some 1698900000000,
                    Some 1698300000000]),
             time_after := (\<lambda>n. 1700000000000)\<rparr>;
        w = initial_World None 1699999999000
    in list_commits env (length (trace w)) ''octo'' ''demo''
         = Inr [Some 1699500000000, Some 1699000000000, None, Some 1698900000000,
                Some 1698300000000] \<and>
       fst (getCommitActivityAlternative env w ''octo'' ''demo'')
         = [\<lparr>week = 1697673600, total = 0, days = [0, 0, 0, 0, 0, 0, 0]\<rparr>,
            \<lparr>week = 1698278400, total = 1, days = [0, 0, 0, 0, 1, 0, 0]\<rparr>,
            \<lparr>week = 1698883200, total = 2, days = [0, 0, 0, 0, 1, 1, 0]\<rparr>,
            \<lparr>week = 1699488000, total = 1, days = [0, 0, 0, 0, 1, 0, 0]\<rparr>] \<and>
       commitTimes [Some 1699500000000, Some 1699000000000, None, Some 1698900000000,
                    Some 1698300000000]
         = [1699500000, 1699000000, 1698900000, 1698300000])"
  using getCommitActivityAlternative_buckets
    [of "no_provider
            \<lparr>list_commits := (\<lambda>n owner' repo.
               Inr [Some 1699500000000, Some 1699000000000, None, Some 1698900000000,
                    Some 1698300000000]),
             time_after := (\<lambda>n. 1700000000000)\<rparr>"
        "initial_World None 1699999999000" "''octo''" "''demo''"
        "[Some 1699500000000, Some 1699000000000, None, Some 1698900000000,
          Some 1698300000000]"]
  by (simp add: getCommitActivityAlternative_def no_provider_def initial_World_def
        await_event_def example_weeks commitTimes_def Let_def)


section \<open>Properties of the metrics\<close>

lemma sort_key_most_active:
  "sort_key (\<lambda>c. - contributions c) (x # xs) =
     most_active x xs # sort_key (\<lambda>c. - contributions c) (remove1 (most_active x xs) (x # xs))"
proof (induction x xs rule: most_active.induct)
  case (1 x)
  show ?case by simp
next
  case (2 x y ys)
  let ?f = "\<lambda>c. - contributions c"
  let ?m = "most_active y ys"
  show ?case
  proof (cases "contributions ?m > contributions x")
    case True
    then have ne: "x \<noteq> ?m" by auto
    have "sort_key ?f (x # y # ys) = insort_key ?f x (sort_key ?f (y # ys))" by simp
    also have "\<dots> = insort_key ?f x (?m # sort_key ?f (remove1 ?m (y # ys)))"
      using "2.IH" by simp
    also have "\<dots> = ?m # insort_key ?f x (sort_key ?f (remove1 ?m (y # ys)))"
      using True by simp
    also have "\<dots> = ?m # sort_key ?f (remove1 ?m (x # y # ys))"
      using ne by simp
    finally show ?thesis using True by (simp add: Let_def)
  next
    case False
    have "sort_key ?f (x # y # ys) = insort_key ?f x (sort_key ?f (y # ys))" by simp
    also have "\<dots> = insort_key ?f x (?m # sort_key ?f (remove1 ?m (y # ys)))"
      using "2.IH" by simp
    also have "\<dots> = x # ?m # sort_key ?f (remove1 ?m (y # ys))"
      using False by simp
    also have "\<dots> = x # sort_key ?f (y # ys)"
      using "2.IH" by simp
    finally show ?thesis using False by (simp add: Let_def)
  qed
qed

lemma take_sort_key_top:
  "take n (sort_key (\<lambda>c. - contributions c) xs) = top_contributors n xs"
proof (induction n xs rule: top_contributors.induct)
  case (3 n x xs)
  then show ?case
    by (simp only: sort_key_most_active [of x xs] top_contributors.simps Let_def take_Suc_Cons)
qed simp_all

text \<open>
  Claim C9, as the code has it. When \<open>commitActivity\<close> is not empty,
  \<open>mostActiveContributors\<close> is the top 5 of the contributors by contribution count,
  descending, two contributors with the same count in their original order: it is
  \<open>top_contributors 5\<close>, and it is the first five of a list that holds the same
  contributors, is sorted by descending count, and keeps the contributors of each count
  in the order they came in. When \<open>commitActivity\<close> is empty, the early return of
  \<^verbatim>\<open>calculateMetrics\<close> gives an empty \<open>mostActiveContributors\<close>, whatever the
  contributors are (\<open>calculateMetrics_mostActive_counterexample\<close>).
\<close>

theorem calculateMetrics_mostActive:
  "(commitActivity \<noteq> [] \<longrightarrow>
      mostActiveContributors (calculateMetrics commitActivity contributors)
        = top_contributors 5 contributors \<and>
      (\<exists>ys. mostActiveContributors (calculateMetrics commitActivity contributors) = take 5 ys \<and>
            mset ys = mset contributors \<and>
            sorted_wrt (\<lambda>a b. contributions a \<ge> contributions b) ys \<and>
            (\<forall>k. filter (\<lambda>c. contributions c = k) ys
                   = filter (\<lambda>c. contributions c = k) contributors))) \<and>
   mostActiveContributors (calculateMetrics [] contributors) = []"
proof -
  let ?ys = "sort_key (\<lambda>c. - contributions c) contributors"
  have "sorted (map (\<lambda>c. - contributions c) ?ys)" by simp
  then have s: "sorted_wrt (\<lambda>a b. contributions a \<ge> contributions b) ?ys"
    by (simp add: sorted_map)
  have st: "filter (\<lambda>c. contributions c = k) ?ys = filter (\<lambda>c. contributions c = k) contributors"
    for k
    using sort_key_stable [of "\<lambda>c. - contributions c" "- k" contributors] by simp
  have "commitActivity \<noteq> [] \<Longrightarrow>
          mostActiveContributors (calculateMetrics commitActivity contributors) = take 5 ?ys"
    by (simp add: calculateMetrics_def Let_def)
  moreover have "mostActiveContributors (calculateMetrics [] contributors) = []"
    by (simp add: calculateMetrics_def)
  moreover have "mset ?ys = mset contributors" by simp
  ultimately show ?thesis
    using s st take_sort_key_top [of 5 contributors] by metis
qed


theorem calculateMetrics_mostActive_witness:
  "[\<lparr>week = 0, total = 1, days = [1, 0, 0, 0, 0, 0, 0]\<rparr>] \<noteq> [] \<and>
   mostActiveContributors
     (calculateMetrics [\<lparr>week = 0, total = 1, days = [1, 0, 0, 0, 0, 0, 0]\<rparr>]
        [person ''a'' 3, person ''b'' 5, person ''c'' 5, person ''d'' 1, person ''e'' 7,
         person ''f'' 2])
     = [person ''e'' 7, person ''b'' 5, person ''c'' 5, person ''a'' 3, person ''f'' 2]"
  using calculateMetrics_mostActive
    [of "[\<lparr>week = 0, total = 1, days = [1, 0, 0, 0, 0, 0, 0]\<rparr>]"
        "[person ''a'' 3, person ''b'' 5, person ''c'' 5, person ''d'' 1, person ''e'' 7,
          person ''f'' 2]"]
  by (simp add: eval_nat_numeral person_def Let_def)

theorem calculateMetrics_mostActive_counterexample:
  "mostActiveContributors (calculateMetrics [] [person ''a'' 3]) = [] \<and>
   top_contributors 5 [person ''a'' 3] = [person ''a'' 3]"
  by (simp add: calculateMetrics_def eval_nat_numeral)


section \<open>Properties of the fetchers\<close>

text \<open>
  No client that \<^verbatim>\<open>createOctokit\<close> makes has the property that \<^verbatim>\<open>isAuthenticated\<close>
  reads: with the client of the module, and after any \<^verbatim>\<open>updateGitHubToken\<close>,
  \<^verbatim>\<open>isAuthenticated\<close> is false.
\<close>

lemma auth_token_createOctokit [simp]: "auth_token (createOctokit token envToken) = None"
  by (simp add: createOctokit_def Octokit_new_def Let_def split: option.splits)

lemma isAuthenticated_createOctokit:
  "octokit w = createOctokit token envToken \<Longrightarrow> isAuthenticated w = False"
  by (simp add: isAuthenticated_def)

lemma isAuthenticated_initial_World: "isAuthenticated (initial_World envToken now) = False"
  by (simp add: isAuthenticated_def initial_World_def)

lemma updateGitHubToken_returns_false: "fst (updateGitHubToken w token) = False"
  by (simp add: updateGitHubToken_def isAuthenticated_def Let_def)

lemma miss_then_misses:
  "cache_hit (fst (ApiCache_get c now key)) = None \<Longrightarrow> misses (snd (ApiCache_get c now key)) key"
  by (auto simp: ApiCache_get_def misses_def cache_hit_def Map_get_Map_delete_same
      split: option.splits if_splits)

lemma misses_get:
  "misses c key \<Longrightarrow> cache_hit (fst (ApiCache_get c now key)) = None"
  by (auto simp: ApiCache_get_def misses_def cache_hit_def truthy_def split: option.splits)

lemma getRateLimit_fields:
  assumes "getRateLimit env w = (r, w')"
  shows "contentCache w' = contentCache w \<and> repoCache w' = repoCache w \<and>
         octokit w' = octokit w \<and>
         (trace w' = trace w \<or> trace w' = trace w @ [Call RateLimitGet])"
  using assms
  by (auto simp: getRateLimit_def Let_def await_event_def
      split: prod.splits option.splits sum.splits)

lemma await_event_fields [simp]:
  "contentCache (await_event env w ev) = contentCache w"
  "repoCache (await_event env w ev) = repoCache w"
  "rateLimitCache (await_event env w ev) = rateLimitCache w"
  "octokit (await_event env w ev) = octokit w"
  "trace (await_event env w ev) = trace w @ [ev]"
  "clock (await_event env w ev) = time_after env (length (trace w))"
  by (simp_all add: await_event_def)

lemma rateLimitAdvice_cong: "octokit w' = octokit w \<Longrightarrow> rateLimitAdvice w' = rateLimitAdvice w"
  by (simp add: rateLimitAdvice_def isAuthenticated_def)

lemma getRepoContents_rate_limited:
  assumes "cache_hit (fst (ApiCache_get (contentCache w) (clock w)
                            (repoContentsKey owner' repo path))) = None"
    and "\<not> shouldSkipPath path"
    and "get_content env (length (trace w)) owner' repo path = Inl e"
    and "isRateLimitError e"
  shows "getRepoContents env w owner' repo path retryCount =
     (let w1 = w\<lparr>contentCache := snd (ApiCache_get (contentCache w) (clock w)
                     (repoContentsKey owner' repo path))\<rparr>;
          w2 = await_event env w1 (Call (GetContent owner' repo path))
      in case getRateLimit env w2 of
           (Inr rateLimit, w3) \<Rightarrow>
             if retryCount < 2 \<and> timeToReset rateLimit w3 < 30
             then getRepoContents env
                    (await_event env w3 (Sleep ((timeToReset rateLimit w3 + 1) * 1000)))
                    owner' repo path (retryCount + 1)
             else (Inl (Error (contentsRateLimitMessage path @ rateLimitAdvice w3)), w3)
         | (Inl rateLimitError, w3) \<Rightarrow>
             (Inl (Error (contentsRateLimitMessage path @ rateLimitAdvice w3)), w3))"
  apply (subst getRepoContents.simps)
  using assms
  apply (simp add: Let_def case_prod_beta)
  done

lemma getRepoContents_limited_throws:
  assumes H: "\<forall>n. \<exists>e. get_content env n owner' repo path = Inl e \<and> isRateLimitError e"
    and skip: "\<not> shouldSkipPath path"
    and miss: "cache_hit (fst (ApiCache_get (contentCache w) (clock w)
                            (repoContentsKey owner' repo path))) = None"
    and rc: "retryCount \<le> 2"
  shows "\<exists>w' evs.
           getRepoContents env w owner' repo path retryCount =
             (Inl (Error (contentsRateLimitMessage path @ rateLimitAdvice w)), w') \<and>
           octokit w' = octokit w \<and>
           trace w' = trace w @ evs \<and>
           1 \<le> GetContent_calls owner' repo path evs \<and>
           GetContent_calls owner' repo path evs \<le> 3 - retryCount"
  using miss rc
proof (induction "2 - retryCount" arbitrary: retryCount w)
  case 0
  let ?key = "repoContentsKey owner' repo path"
  let ?w1 = "w\<lparr>contentCache := snd (ApiCache_get (contentCache w) (clock w) ?key)\<rparr>"
  let ?w2 = "await_event env ?w1 (Call (GetContent owner' repo path))"
  from H obtain e where e: "get_content env (length (trace w)) owner' repo path = Inl e"
    "isRateLimitError e" by blast
  obtain r w3 where g: "getRateLimit env ?w2 = (r, w3)" by (cases "getRateLimit env ?w2")
  from getRateLimit_fields [OF g]
  have f: "octokit w3 = octokit w"
    "trace w3 = trace w @ [Call (GetContent owner' repo path)] \<or>
     trace w3 = trace w @ [Call (GetContent owner' repo path), Call RateLimitGet]"
    by auto
  from "0.hyps" have n2: "\<not> retryCount < 2" by simp
  have "getRepoContents env w owner' repo path retryCount =
          (Inl (Error (contentsRateLimitMessage path @ rateLimitAdvice w3)), w3)"
    using n2
    by (simp add: getRepoContents_rate_limited [OF "0.prems"(1) skip e] g Let_def
          split: sum.splits)
  with f show ?case
    using rateLimitAdvice_cong [OF f(1)] "0.prems"(2) by (auto simp: GetContent_calls_def)
next
  case (Suc k)
  let ?key = "repoContentsKey owner' repo path"
  let ?w1 = "w\<lparr>contentCache := snd (ApiCache_get (contentCache w) (clock w) ?key)\<rparr>"
  let ?w2 = "await_event env ?w1 (Call (GetContent owner' repo path))"
  from H obtain e where e: "get_content env (length (trace w)) owner' repo path = Inl e"
    "isRateLimitError e" by blast
  obtain r w3 where g: "getRateLimit env ?w2 = (r, w3)" by (cases "getRateLimit env ?w2")
  from getRateLimit_fields [OF g]
  have f: "octokit w3 = octokit w"
    "contentCache w3 = snd (ApiCache_get (contentCache w) (clock w) ?key)"
    "trace w3 = trace w @ [Call (GetContent owner' repo path)] \<or>
     trace w3 = trace w @ [Call (GetContent owner' repo path), Call RateLimitGet]"
    by auto
  have unfold: "getRepoContents env w owner' repo path retryCount =
     (case r of
        Inr rateLimit \<Rightarrow>
             if retryCount < 2 \<and> timeToReset rateLimit w3 < 30
             then getRepoContents env
                    (await_event env w3 (Sleep ((timeToReset rateLimit w3 + 1) * 1000)))
                    owner' repo path (retryCount + 1)
             else (Inl (Error (contentsRateLimitMessage path @ rateLimitAdvice w3)), w3)
      | Inl rateLimitError \<Rightarrow>
             (Inl (Error (contentsRateLimitMessage path @ rateLimitAdvice w3)), w3))"
    by (simp add: getRepoContents_rate_limited [OF Suc.prems(1) skip e] g Let_def
          split: sum.splits)
  show ?case
  proof (cases "\<exists>rateLimit. r = Inr rateLimit \<and> retryCount < 2 \<and> timeToReset rateLimit w3 < 30")
    case False
    then have "getRepoContents env w owner' repo path retryCount =
          (Inl (Error (contentsRateLimitMessage path @ rateLimitAdvice w3)), w3)"
      unfolding unfold by (auto split: sum.splits)
    with f show ?thesis
      using rateLimitAdvice_cong [OF f(1)] Suc.prems(2) by (auto simp: GetContent_calls_def)
  next
    case True
    then obtain rateLimit where t: "r = Inr rateLimit" "retryCount < 2"
      "timeToReset rateLimit w3 < 30" by blast
    let ?w4 = "await_event env w3 (Sleep ((timeToReset rateLimit w3 + 1) * 1000))"
    have m4: "cache_hit (fst (ApiCache_get (contentCache ?w4) (clock ?w4) ?key)) = None"
      using miss_then_misses [OF Suc.prems(1)] by (simp add: f(2) misses_get)
    have k: "k = 2 - (retryCount + 1)" using Suc.hyps(2) by simp
    have rc': "retryCount + 1 \<le> 2" using t(2) by simp
    from Suc.hyps(1) [OF k m4 rc']
    obtain w' evs where r:
      "getRepoContents env ?w4 owner' repo path (retryCount + 1) =
         (Inl (Error (contentsRateLimitMessage path @ rateLimitAdvice ?w4)), w')"
      "octokit w' = octokit ?w4"
      "trace w' = trace ?w4 @ evs"
      "1 \<le> GetContent_calls owner' repo path evs"
      "GetContent_calls owner' repo path evs \<le> 3 - (retryCount + 1)"
      by blast
    have a4: "rateLimitAdvice ?w4 = rateLimitAdvice w"
      by (rule rateLimitAdvice_cong) (simp add: f(1))
    have res: "getRepoContents env w owner' repo path retryCount =
         (Inl (Error (contentsRateLimitMessage path @ rateLimitAdvice w)), w')"
      unfolding unfold using t r(1) a4 by simp
    from f(3) r(3) obtain evs' where evs':
      "trace w' = trace w @ evs'"
      "GetContent_calls owner' repo path evs' = 1 + GetContent_calls owner' repo path evs"
      by (auto simp: GetContent_calls_def)
    with res r(2,4,5) f(1) t(2) show ?thesis
      by (intro exI [of _ w'] exI [of _ evs']) auto
  qed
qed

lemma getRepoContents_no_call:
  assumes "cache_hit (fst (ApiCache_get (contentCache w) (clock w)
                            (repoContentsKey owner' repo path))) \<noteq> None \<or> shouldSkipPath path"
  shows "trace (snd (getRepoContents env w owner' repo path retryCount)) = trace w"
  apply (subst getRepoContents.simps)
  using assms
  apply (auto simp: Let_def case_prod_beta split: option.splits)
  done

subsection \<open>Retries of getRepoContents under rate limiting\<close>

text \<open>
  Claim C3, as the code has it. Let every request of \<^verbatim>\<open>getRepoContents\<close> for the
  contents of the path be rejected with a rate-limit error, whatever the rate-limit
  information and the clock say, and let the client be one that \<^verbatim>\<open>createOctokit\<close> has
  made, with any token or none (the client of the module, or the one that
  \<^verbatim>\<open>updateGitHubToken\<close> has set). Then a call (with the default retry count 0) sends
  at most 3 requests, that is, it retries at most 2 times; it sends no request exactly
  when the cache holds the contents or the path is on the skip list; and if it sends a
  request at all, it throws the rate-limit error. The message of that error ends with
  the advice to add a token, also when a token is set: \<^verbatim>\<open>isAuthenticated\<close> is false
  of every client, so the branch of the message that says \<open>tryAgainLater\<close> is never taken.
\<close>

theorem getRepoContents_rate_limit_retries:
  assumes "\<forall>n. \<exists>e. get_content env n owner' repo path = Inl e \<and> isRateLimitError e"
    and "octokit w = createOctokit token envToken"
  shows "(case getRepoContents env w owner' repo path 0 of
            (res, w') \<Rightarrow>
              \<exists>evs. trace w' = trace w @ evs \<and>
                    GetContent_calls owner' repo path evs \<le> 3 \<and>
                    (1 \<le> GetContent_calls owner' repo path evs \<longrightarrow>
                       res = Inl (Error (contentsRateLimitMessage path @ addAToken))) \<and>
                    (GetContent_calls owner' repo path evs = 0 \<longleftrightarrow>
                       cache_hit (fst (ApiCache_get (contentCache w) (clock w)
                                         (repoContentsKey owner' repo path))) \<noteq> None
                       \<or> shouldSkipPath path)) \<and>
         \<not> isAuthenticated w \<and>
         \<not> isAuthenticated (snd (updateGitHubToken w newToken)) \<and>
         \<not> fst (updateGitHubToken w newToken)"
proof (intro conjI)
  have auth: "isAuthenticated w = False"
    using assms(2) by (rule isAuthenticated_createOctokit)
  show "\<not> isAuthenticated w" by (simp add: auth)
  show "\<not> isAuthenticated (snd (updateGitHubToken w newToken))"
    by (simp add: updateGitHubToken_def isAuthenticated_def Let_def)
  show "\<not> fst (updateGitHubToken w newToken)"
    by (simp add: updateGitHubToken_returns_false)
  show "(case getRepoContents env w owner' repo path 0 of
            (res, w') \<Rightarrow>
              \<exists>evs. trace w' = trace w @ evs \<and>
                    GetContent_calls owner' repo path evs \<le> 3 \<and>
                    (1 \<le> GetContent_calls owner' repo path evs \<longrightarrow>
                       res = Inl (Error (contentsRateLimitMessage path @ addAToken))) \<and>
                    (GetContent_calls owner' repo path evs = 0 \<longleftrightarrow>
                       cache_hit (fst (ApiCache_get (contentCache w) (clock w)
                                         (repoContentsKey owner' repo path))) \<noteq> None
                       \<or> shouldSkipPath path))"
  proof (cases "cache_hit (fst (ApiCache_get (contentCache w) (clock w)
                                 (repoContentsKey owner' repo path))) \<noteq> None
                \<or> shouldSkipPath path")
    case True
    from getRepoContents_no_call [OF True, of env 0]
    have "trace (snd (getRepoContents env w owner' repo path 0)) = trace w @ []" by simp
    with True show ?thesis
      by (auto simp: case_prod_beta GetContent_calls_def)
  next
    case False
    then have miss: "cache_hit (fst (ApiCache_get (contentCache w) (clock w)
                                       (repoContentsKey owner' repo path))) = None"
      and skip: "\<not> shouldSkipPath path" by auto
    from getRepoContents_limited_throws [OF assms(1) skip miss, of 0]
    obtain w' evs where r:
      "getRepoContents env w owner' repo path 0 =
         (Inl (Error (contentsRateLimitMessage path @ rateLimitAdvice w)), w')"
      "trace w' = trace w @ evs"
      "1 \<le> GetContent_calls owner' repo path evs"
      "GetContent_calls owner' repo path evs \<le> 3"
      by auto
    with False show ?thesis
      by (auto simp: rateLimitAdvice_def auth intro!: exI [of _ evs])
  qed
qed

lemma src_not_skipped: "shouldSkipPath ''src'' = False"
  by code_simp

lemma rate_limited_is: "isRateLimitError rate_limited = True"
  by code_simp

theorem getRepoContents_rate_limit_retries_witness:
  "(\<forall>n. \<exists>e. get_content always_rate_limited n ''octo'' ''demo'' ''src'' = Inl e \<and>
            isRateLimitError e) \<and>
   octokit (snd (updateGitHubToken (initial_World None 0) ''ghp_token''))
     = createOctokit (Some ''ghp_token'') None \<and>
   token_used (octokit (snd (updateGitHubToken (initial_World None 0) ''ghp_token'')))
     = Some ''ghp_token'' \<and>
   fst (updateGitHubToken (initial_World None 0) ''ghp_token'') = False \<and>
   fst (getRepoContents always_rate_limited
          (snd (updateGitHubToken (initial_World None 0) ''ghp_token''))
          ''octo'' ''demo'' ''src'' 0)
     = Inl (Error (contentsRateLimitMessage ''src'' @ addAToken)) \<and>
   GetContent_calls ''octo'' ''demo'' ''src''
     (trace (snd (getRepoContents always_rate_limited
                    (snd (updateGitHubToken (initial_World None 0) ''ghp_token''))
                    ''octo'' ''demo'' ''src'' 0))) = 3 \<and>
   fst (getRepoContents always_rate_limited (initial_World None 0) ''octo'' ''demo'' ''src'' 0)
     = Inl (Error (contentsRateLimitMessage ''src'' @ addAToken))"
  using getRepoContents_rate_limit_retries
    [of always_rate_limited "''octo''" "''demo''" "''src''"
        "snd (updateGitHubToken (initial_World None 0) ''ghp_token'')"
        "Some ''ghp_token''" None "''ghp_token''"]
  by (simp add: getRepoContents.simps getRateLimit_def always_rate_limited_def no_provider_def
        initial_World_def src_not_skipped rate_limited_is Let_def ApiCache_get_def ApiCache_set_def
        ApiCache_new_def cache_hit_def truthy_def await_event_def timeToReset_def
        DEFAULT_OPTIONS_def rateLimitAdvice_def isAuthenticated_def repoContentsKey_def
        rateLimitKey_def GetContent_calls_def updateGitHubToken_def createOctokit_def
        Octokit_new_def)



lemma not_found_not_rate_limit: "status e = Some 404 \<Longrightarrow> \<not> isRateLimitError e"
  by (simp add: isRateLimitError_def)

lemma Error_not_rate_limit [simp]: "\<not> isRateLimitError (Error msg)"
  by (simp add: isRateLimitError_def Error_def)

lemma status_Error [simp]: "status (Error msg) = None"
  by (simp add: Error_def)

lemma getFileContent_Inl:
  assumes "getFileContent env w owner' repo path retryCount = (Inl err, w')"
  shows "cache_hit (fst (ApiCache_get (contentCache w) (clock w)
                           (fileContentKey owner' repo path))) = None \<and>
         \<not> shouldSkipPath path \<and>
         (\<exists>e. get_content env (length (trace w)) owner' repo path = Inl e \<and> isRateLimitError e) \<and>
         (let g = getRateLimit env
                    (afterRequest env w (fileContentKey owner' repo path)
                       (GetContent owner' repo path))
          in if willRetry g retryCount
             then getFileContent env (retryWorld env g) owner' repo path (retryCount + 1)
                    = (Inl err, w')
             else err = Error (fileContentRateLimitMessage @ rateLimitAdvice (snd g)) \<and>
                  w' = snd g)"
  using assms
  apply (subst (asm) getFileContent.simps)
  apply (auto simp: Let_def case_prod_beta readFileResponse_def notADirectoryError_def
      noContentError_def invalidArgumentError_def afterRequest_def willRetry_def retryWorld_def
      split: option.splits sum.splits if_splits ContentResponse.splits prod.splits
        content_property.splits)
  done

lemma getRateLimit_trace:
  "\<exists>evs. trace (snd (getRateLimit env w)) = trace w @ evs \<and>
         GetContent_calls owner' repo path evs = 0"
  using getRateLimit_fields [of env w "fst (getRateLimit env w)" "snd (getRateLimit env w)"]
  by (auto simp: GetContent_calls_def)

lemma getRateLimit_auth: "octokit (snd (getRateLimit env w)) = octokit w"
  using getRateLimit_fields [of env w "fst (getRateLimit env w)" "snd (getRateLimit env w)"]
  by simp

lemma afterRequest_fields [simp]:
  "octokit (afterRequest env w key req) = octokit w"
  "trace (afterRequest env w key req) = trace w @ [Call req]"
  by (simp_all add: afterRequest_def)

lemma getFileContent_throws_only:
  assumes "getFileContent env w owner' repo path retryCount = (Inl err, w')"
    and "retryCount \<le> 2"
  shows "err = Error (fileContentRateLimitMessage @ rateLimitAdvice w) \<and>
         (\<exists>evs w2.
            trace w' = trace w @ evs \<and>
            1 \<le> GetContent_calls owner' repo path evs \<and>
            GetContent_calls owner' repo path evs \<le> 3 - retryCount \<and>
            trace w2 \<noteq> [] \<and>
            last (trace w2) = Call (GetContent owner' repo path) \<and>
            (\<exists>e. get_content env (length (trace w2) - 1) owner' repo path = Inl e \<and>
                 isRateLimitError e) \<and>
            w' = snd (getRateLimit env w2) \<and>
            \<not> willRetry (getRateLimit env w2)
                  (retryCount + GetContent_calls owner' repo path evs - 1))"
  using assms
proof (induction "2 - retryCount" arbitrary: retryCount w rule: less_induct)
  case less
  let ?w2 = "afterRequest env w (fileContentKey owner' repo path) (GetContent owner' repo path)"
  let ?g = "getRateLimit env ?w2"
  let ?calls = "GetContent_calls owner' repo path"
  from getFileContent_Inl [OF less.prems(1), unfolded Let_def]
  have e: "\<exists>e. get_content env (length (trace w)) owner' repo path = Inl e \<and> isRateLimitError e"
    and step: "if willRetry ?g retryCount
               then getFileContent env (retryWorld env ?g) owner' repo path (retryCount + 1)
                      = (Inl err, w')
               else err = Error (fileContentRateLimitMessage @ rateLimitAdvice (snd ?g)) \<and>
                    w' = snd ?g"
    by blast+
  from getRateLimit_trace [of env ?w2 owner' repo path]
  obtain evs0 where evs0: "trace (snd ?g) = trace ?w2 @ evs0" "?calls evs0 = 0" by blast
  have auth: "octokit (snd ?g) = octokit w" by (simp add: getRateLimit_auth)
  show ?case
  proof (cases "willRetry ?g retryCount")
    case False
    with step have r: "err = Error (fileContentRateLimitMessage @ rateLimitAdvice (snd ?g))"
      "w' = snd ?g" by simp_all
    have "trace w' = trace w @ (Call (GetContent owner' repo path) # evs0)"
      using evs0(1) r(2) by simp
    moreover have "?calls (Call (GetContent owner' repo path) # evs0) = 1"
      using evs0(2) by (simp add: GetContent_calls_def)
    moreover have "trace ?w2 \<noteq> []" "last (trace ?w2) = Call (GetContent owner' repo path)"
      "length (trace ?w2) - 1 = length (trace w)" by simp_all
    ultimately show ?thesis
      using r e False less.prems(2) rateLimitAdvice_cong [OF auth]
      by (intro conjI exI [of _ "Call (GetContent owner' repo path) # evs0"] exI [of _ ?w2])
        simp_all
  next
    case True
    then obtain rateLimit where rl: "fst ?g = Inr rateLimit" "retryCount < 2"
      by (auto simp: willRetry_def split: sum.splits)
    let ?w4 = "retryWorld env ?g"
    from True step have rec: "getFileContent env ?w4 owner' repo path (retryCount + 1)
                                = (Inl err, w')" by simp
    have lt: "2 - (retryCount + 1) < 2 - retryCount" using rl(2) by simp
    have le: "retryCount + 1 \<le> 2" using rl(2) by simp
    from less.hyps [OF lt rec le]
    obtain evs w2 where ih:
      "err = Error (fileContentRateLimitMessage @ rateLimitAdvice ?w4)"
      "trace w' = trace ?w4 @ evs"
      "1 \<le> ?calls evs"
      "?calls evs \<le> 3 - (retryCount + 1)"
      "trace w2 \<noteq> []"
      "last (trace w2) = Call (GetContent owner' repo path)"
      "\<exists>e. get_content env (length (trace w2) - 1) owner' repo path = Inl e \<and> isRateLimitError e"
      "w' = snd (getRateLimit env w2)"
      "\<not> willRetry (getRateLimit env w2) (retryCount + 1 + ?calls evs - 1)"
      by blast
    have t4: "trace ?w4
                = trace w @ Call (GetContent owner' repo path) # evs0
                    @ [Sleep ((timeToReset rateLimit (snd ?g) + 1) * 1000)]"
      using evs0(1) by (simp add: retryWorld_def rl(1))
    have a4: "octokit ?w4 = octokit w"
      using auth by (simp add: retryWorld_def rl(1))
    let ?evs = "Call (GetContent owner' repo path) # evs0
                  @ [Sleep ((timeToReset rateLimit (snd ?g) + 1) * 1000)] @ evs"
    have c: "?calls ?evs = 1 + ?calls evs"
      using evs0(2) by (simp add: GetContent_calls_def)
    have "trace w' = trace w @ ?evs" using ih(2) t4 by simp
    moreover have "retryCount + ?calls ?evs - 1 = retryCount + 1 + ?calls evs - 1"
      using c by simp
    ultimately show ?thesis
      using ih c rl(2) rateLimitAdvice_cong [OF a4]
      by (intro conjI exI [of _ ?evs] exI [of _ w2]) simp_all
  qed
qed

lemma getFileContent_skipped:
  assumes "cache_hit (fst (ApiCache_get (contentCache w) (clock w)
                            (fileContentKey owner' repo path))) = None"
    and "shouldSkipPath path"
  shows "fst (getFileContent env w owner' repo path retryCount) = Inr (fileSkipped path)"
  by (subst getFileContent.simps) (simp add: assms Let_def case_prod_beta)

lemma getFileContent_directory:
  assumes "cache_hit (fst (ApiCache_get (contentCache w) (clock w)
                            (fileContentKey owner' repo path))) = None"
    and "\<not> shouldSkipPath path"
    and "get_content env (length (trace w)) owner' repo path = Inr (Directory items)"
  shows "fst (getFileContent env w owner' repo path retryCount)
           = Inr (fileLoadError notADirectoryError)"
  by (subst getFileContent.simps)
    (simp add: assms Let_def case_prod_beta readFileResponse_def notADirectoryError_def)

lemma getFileContent_too_large:
  assumes "cache_hit (fst (ApiCache_get (contentCache w) (clock w)
                            (fileContentKey owner' repo path))) = None"
    and "\<not> shouldSkipPath path"
    and "get_content env (length (trace w)) owner' repo path = Inr (SingleFile fileData)"
    and "item_size fileData > 2 * 1024 * 1024"
  shows "fst (getFileContent env w owner' repo path retryCount)
           = Inr (fileTooLarge path (item_size fileData))"
  using assms(4)
  by (subst getFileContent.simps)
    (simp add: assms(1,2,3) Let_def case_prod_beta readFileResponse_def)

lemma getFileContent_no_content:
  assumes "cache_hit (fst (ApiCache_get (contentCache w) (clock w)
                            (fileContentKey owner' repo path))) = None"
    and "\<not> shouldSkipPath path"
    and "get_content env (length (trace w)) owner' repo path = Inr (SingleFile fileData)"
    and "\<not> item_size fileData > 2 * 1024 * 1024"
    and "item_content fileData = NoProperty"
  shows "fst (getFileContent env w owner' repo path retryCount)
           = Inr (fileLoadError noContentError)"
  using assms(4)
  by (subst getFileContent.simps)
    (simp add: assms(1,2,3,5) Let_def case_prod_beta readFileResponse_def noContentError_def)

lemma getFileContent_null_content:
  assumes "cache_hit (fst (ApiCache_get (contentCache w) (clock w)
                            (fileContentKey owner' repo path))) = None"
    and "\<not> shouldSkipPath path"
    and "get_content env (length (trace w)) owner' repo path = Inr (SingleFile fileData)"
    and "\<not> item_size fileData > 2 * 1024 * 1024"
    and "item_content fileData = NullValue"
  shows "fst (getFileContent env w owner' repo path retryCount)
           = Inr (fileLoadError invalidArgumentError)"
  using assms(4)
  by (subst getFileContent.simps)
    (simp add: assms(1,2,3,5) Let_def case_prod_beta readFileResponse_def
       invalidArgumentError_def)

lemma getFileContent_not_found:
  assumes "cache_hit (fst (ApiCache_get (contentCache w) (clock w)
                            (fileContentKey owner' repo path))) = None"
    and "\<not> shouldSkipPath path"
    and "get_content env (length (trace w)) owner' repo path = Inl e"
    and "status e = Some 404"
  shows "fst (getFileContent env w owner' repo path retryCount) = Inr (fileNotFound path)"
  by (subst getFileContent.simps)
    (simp add: assms Let_def case_prod_beta not_found_not_rate_limit)

lemma getFileContent_other_error:
  assumes "cache_hit (fst (ApiCache_get (contentCache w) (clock w)
                            (fileContentKey owner' repo path))) = None"
    and "\<not> shouldSkipPath path"
    and "get_content env (length (trace w)) owner' repo path = Inl e"
    and "\<not> isRateLimitError e"
    and "status e \<noteq> Some 404"
  shows "fst (getFileContent env w owner' repo path retryCount) = Inr (fileLoadError e)"
  by (subst getFileContent.simps) (simp add: assms Let_def case_prod_beta)

lemma placeholders_start:
  "take 2 (fileSkipped path) = ''//''"
  "take 2 (fileTooLarge path sz) = ''//''"
  "take 2 (fileNotFound path) = ''//''"
  "take 2 (fileLoadError e) = ''//''"
  by (simp_all add: fileSkipped_def fileTooLarge_def fileNotFound_def fileLoadError_def)

lemma getRepoContents_not_found:
  assumes "cache_hit (fst (ApiCache_get (contentCache w) (clock w)
                            (repoContentsKey owner' repo path))) = None"
    and "\<not> shouldSkipPath path"
    and "get_content env (length (trace w)) owner' repo path = Inl e"
    and "\<not> isRateLimitError e"
  shows "fst (getRepoContents env w owner' repo path retryCount) = Inr []"
  by (subst getRepoContents.simps) (simp add: assms Let_def case_prod_beta)

lemma getContributors_not_found:
  assumes "cache_hit (fst (ApiCache_get (repoCache w) (clock w)
                            (contributorsKey owner' repo))) = None"
    and "list_contributors env (length (trace w)) owner' repo = Inl e"
    and "\<not> isRateLimitError e"
  shows "fst (getContributors env w owner' repo) = Inr []"
  by (simp add: getContributors_def assms Let_def case_prod_beta)

lemma getRepoDetails_rejected:
  assumes "cache_hit (fst (ApiCache_get (repoCache w) (clock w)
                            (repoDetailsKey owner' repo))) = None"
    and "getRateLimit env (w\<lparr>repoCache := snd (ApiCache_get (repoCache w) (clock w)
                                               (repoDetailsKey owner' repo))\<rparr>)
           = (Inr rateLimit, w2)"
    and "repos_get env (length (trace w2)) owner' repo = Inl e"
  shows "getRepoDetails env w owner' repo =
           (Inl (handleApiError (await_event env w2 (Call (ReposGet owner' repo))) e
                   ''repository details''),
            await_event env w2 (Call (ReposGet owner' repo)))"
  by (simp add: getRepoDetails_def assms Let_def case_prod_beta)

lemma handleApiError_not_found:
  "status e = Some 404 \<Longrightarrow> handleApiError w e entityName = Error (couldNotBeFoundMessage entityName)"
  by (simp add: handleApiError_def not_found_not_rate_limit)

subsection \<open>Failure modes of getFileContent\<close>

text \<open>
  Claim C10, as the code has it. \<^verbatim>\<open>getFileContent\<close> (called with the default retry
  count 0) throws only the rate-limit error, and only after a request that the provider
  rejected with a rate-limit error and that the retry policy does not retry: because
  two retries were made before (three requests in all), or because the limit resets in
  30 seconds or more, or because the rate-limit information could not be fetched. After
  a cache miss, every other failure returns a placeholder string that begins with
  \<open>//\<close>: a path on the skip list, a path that is a directory, a file of more than 2 MB,
  a not-found rejection, and any other rejection. The claim's "only when rate-limit retries are
  exhausted" fails where the limit resets in an hour: the first rejection is thrown at
  once (\<open>getFileContent_throws_counterexample\<close>).
\<close>

theorem getFileContent_failure_modes:
  "(getFileContent env w owner' repo path 0 = (Inl err, w') \<longrightarrow>
      err = Error (fileContentRateLimitMessage
                   @ (if isAuthenticated w then tryAgainLater else addAToken)) \<and>
      (\<exists>evs w2.
         trace w' = trace w @ evs \<and>
         1 \<le> GetContent_calls owner' repo path evs \<and>
         GetContent_calls owner' repo path evs \<le> 3 \<and>
         trace w2 \<noteq> [] \<and>
         last (trace w2) = Call (GetContent owner' repo path) \<and>
         (\<exists>e. get_content env (length (trace w2) - 1) owner' repo path = Inl e \<and>
              isRateLimitError e) \<and>
         w' = snd (getRateLimit env w2) \<and>
         (GetContent_calls owner' repo path evs = 3 \<or>
          (\<exists>rateLimit. fst (getRateLimit env w2) = Inr rateLimit \<and>
                        30 \<le> timeToReset rateLimit w') \<or>
          (\<exists>rateLimitError. fst (getRateLimit env w2) = Inl rateLimitError)))) \<and>
   (cache_hit (fst (ApiCache_get (contentCache w) (clock w)
                      (fileContentKey owner' repo path))) = None \<longrightarrow>
      (shouldSkipPath path \<longrightarrow>
         fst (getFileContent env w owner' repo path retryCount) = Inr (fileSkipped path)) \<and>
      (\<not> shouldSkipPath path \<longrightarrow>
         (get_content env (length (trace w)) owner' repo path = Inr (Directory items) \<longrightarrow>
            fst (getFileContent env w owner' repo path retryCount)
              = Inr (fileLoadError notADirectoryError)) \<and>
         (get_content env (length (trace w)) owner' repo path = Inr (SingleFile fileData) \<and>
          item_size fileData > 2 * 1024 * 1024 \<longrightarrow>
            fst (getFileContent env w owner' repo path retryCount)
              = Inr (fileTooLarge path (item_size fileData))) \<and>
         (get_content env (length (trace w)) owner' repo path = Inl e \<and>
          status e = Some 404 \<longrightarrow>
            fst (getFileContent env w owner' repo path retryCount) = Inr (fileNotFound path)) \<and>
         (get_content env (length (trace w)) owner' repo path = Inl e \<and>
          \<not> isRateLimitError e \<and> status e \<noteq> Some 404 \<longrightarrow>
            fst (getFileContent env w owner' repo path retryCount) = Inr (fileLoadError e)))) \<and>
   take 2 (fileSkipped path) = ''//'' \<and>
   take 2 (fileLoadError e) = ''//'' \<and>
   take 2 (fileTooLarge path sz) = ''//'' \<and>
   take 2 (fileNotFound path) = ''//''"
proof -
  have throws: "err = Error (fileContentRateLimitMessage
                   @ (if isAuthenticated w then tryAgainLater else addAToken)) \<and>
      (\<exists>evs w2.
         trace w' = trace w @ evs \<and>
         1 \<le> GetContent_calls owner' repo path evs \<and>
         GetContent_calls owner' repo path evs \<le> 3 \<and>
         trace w2 \<noteq> [] \<and>
         last (trace w2) = Call (GetContent owner' repo path) \<and>
         (\<exists>e. get_content env (length (trace w2) - 1) owner' repo path = Inl e \<and>
              isRateLimitError e) \<and>
         w' = snd (getRateLimit env w2) \<and>
         (GetContent_calls owner' repo path evs = 3 \<or>
          (\<exists>rateLimit. fst (getRateLimit env w2) = Inr rateLimit \<and>
                        30 \<le> timeToReset rateLimit w') \<or>
          (\<exists>rateLimitError. fst (getRateLimit env w2) = Inl rateLimitError)))"
    if t: "getFileContent env w owner' repo path 0 = (Inl err, w')"
  proof -
    from getFileContent_throws_only [OF t]
    obtain evs w2 where r:
      "err = Error (fileContentRateLimitMessage @ rateLimitAdvice w)"
      "trace w' = trace w @ evs"
      "1 \<le> GetContent_calls owner' repo path evs"
      "GetContent_calls owner' repo path evs \<le> 3"
      "trace w2 \<noteq> []"
      "last (trace w2) = Call (GetContent owner' repo path)"
      "\<exists>e. get_content env (length (trace w2) - 1) owner' repo path = Inl e \<and> isRateLimitError e"
      "w' = snd (getRateLimit env w2)"
      "\<not> willRetry (getRateLimit env w2) (GetContent_calls owner' repo path evs - 1)"
      by auto
    from r(3,4,8,9)
    have d: "GetContent_calls owner' repo path evs = 3 \<or>
          (\<exists>rateLimit. fst (getRateLimit env w2) = Inr rateLimit \<and>
                        30 \<le> timeToReset rateLimit w') \<or>
          (\<exists>rateLimitError. fst (getRateLimit env w2) = Inl rateLimitError)"
      by (cases "fst (getRateLimit env w2)") (auto simp: willRetry_def)
    have m: "err = Error (fileContentRateLimitMessage
                   @ (if isAuthenticated w then tryAgainLater else addAToken))"
      using r(1) by (simp add: rateLimitAdvice_def)
    from m r(2-8) d show ?thesis
      by (intro conjI exI [of _ evs] exI [of _ w2])
  qed
  show ?thesis
  proof (intro conjI impI)
    assume "getFileContent env w owner' repo path 0 = (Inl err, w')"
    from throws [OF this]
    show "err = Error (fileContentRateLimitMessage
                   @ (if isAuthenticated w then tryAgainLater else addAToken))"
      and "\<exists>evs w2.
         trace w' = trace w @ evs \<and>
         1 \<le> GetContent_calls owner' repo path evs \<and>
         GetContent_calls owner' repo path evs \<le> 3 \<and>
         trace w2 \<noteq> [] \<and>
         last (trace w2) = Call (GetContent owner' repo path) \<and>
         (\<exists>e. get_content env (length (trace w2) - 1) owner' repo path = Inl e \<and>
              isRateLimitError e) \<and>
         w' = snd (getRateLimit env w2) \<and>
         (GetContent_calls owner' repo path evs = 3 \<or>
          (\<exists>rateLimit. fst (getRateLimit env w2) = Inr rateLimit \<and>
                        30 \<le> timeToReset rateLimit w') \<or>
          (\<exists>rateLimitError. fst (getRateLimit env w2) = Inl rateLimitError))"
      by (rule conjunct1, rule conjunct2)
  next
    assume miss: "cache_hit (fst (ApiCache_get (contentCache w) (clock w)
                      (fileContentKey owner' repo path))) = None"
    {
      assume "shouldSkipPath path"
      with miss show "fst (getFileContent env w owner' repo path retryCount)
                        = Inr (fileSkipped path)"
        by (rule getFileContent_skipped)
    }
    assume skip: "\<not> shouldSkipPath path"
    {
      assume "get_content env (length (trace w)) owner' repo path = Inr (Directory items)"
      with miss skip show "fst (getFileContent env w owner' repo path retryCount)
              = Inr (fileLoadError notADirectoryError)"
        by (rule getFileContent_directory)
    }
    {
      assume "get_content env (length (trace w)) owner' repo path = Inr (SingleFile fileData) \<and>
          item_size fileData > 2 * 1024 * 1024"
      with miss skip show "fst (getFileContent env w owner' repo path retryCount)
              = Inr (fileTooLarge path (item_size fileData))"
        by (simp add: getFileContent_too_large)
    }
    {
      assume "get_content env (length (trace w)) owner' repo path = Inl e \<and>
          status e = Some 404"
      with miss skip show "fst (getFileContent env w owner' repo path retryCount)
              = Inr (fileNotFound path)"
        by (simp add: getFileContent_not_found)
    }
    {
      assume "get_content env (length (trace w)) owner' repo path = Inl e \<and>
          \<not> isRateLimitError e \<and> status e \<noteq> Some 404"
      with miss skip show "fst (getFileContent env w owner' repo path retryCount)
              = Inr (fileLoadError e)"
        by (simp add: getFileContent_other_error)
    }
  qed (rule placeholders_start)+
qed

lemma readme_not_skipped: "shouldSkipPath ''README.md'' = False"
  by code_simp

lemma logo_skipped: "shouldSkipPath ''logo.png'' = True"
  by code_simp

lemma status_not_found: "status not_found = Some 404"
  by (simp add: not_found_def)

lemma not_found_is_not_rate_limit: "isRateLimitError not_found = False"
  by (simp add: isRateLimitError_def not_found_def)

lemma server_error_is_not_rate_limit:
  "isRateLimitError \<lparr>status = Some 500, message = None, x_ratelimit_remaining = None\<rparr> = False"
  by (simp add: isRateLimitError_def)

lemmas run_defs =
  getRateLimit_def no_provider_def initial_World_def Let_def ApiCache_get_def ApiCache_set_def
  ApiCache_new_def cache_hit_def truthy_def await_event_def timeToReset_def DEFAULT_OPTIONS_def
  rateLimitAdvice_def isAuthenticated_def rateLimitKey_def GetContent_calls_def

theorem getFileContent_failure_modes_witness:
  "fst (getFileContent always_rate_limited (initial_World None 0) ''octo'' ''demo'' ''README.md'' 0)
     = Inl (Error (fileContentRateLimitMessage @ addAToken)) \<and>
   GetContent_calls ''octo'' ''demo'' ''README.md''
     (trace (snd (getFileContent always_rate_limited (initial_World None 0)
                    ''octo'' ''demo'' ''README.md'' 0))) = 3 \<and>
   fst (getFileContent no_provider (initial_World None 0) ''octo'' ''demo'' ''logo.png'' 0)
     = Inr (fileSkipped ''logo.png'') \<and>
   fst (getFileContent no_provider (initial_World None 0) ''octo'' ''demo'' ''README.md'' 0)
     = Inr (fileNotFound ''README.md'') \<and>
   fst (getFileContent (no_provider\<lparr>get_content := (\<lambda>n owner' repo path. Inr (Directory []))\<rparr>)
          (initial_World None 0) ''octo'' ''demo'' ''README.md'' 0)
     = Inr (fileLoadError notADirectoryError) \<and>
   fst (getFileContent
          (no_provider\<lparr>get_content := (\<lambda>n owner' repo path.
             Inr (SingleFile \<lparr>item_name = ''README.md'', item_path = ''README.md'',
                              item_type = ''file'', item_size = 3000000, item_html_url = None,
                              item_content = StringValue ''AAAA''\<rparr>))\<rparr>)
          (initial_World None 0) ''octo'' ''demo'' ''README.md'' 0)
     = Inr (fileTooLarge ''README.md'' 3000000) \<and>
   fst (getFileContent
          (no_provider\<lparr>get_content := (\<lambda>n owner' repo path.
             Inl \<lparr>status = Some 500, message = None, x_ratelimit_remaining = None\<rparr>)\<rparr>)
          (initial_World None 0) ''octo'' ''demo'' ''README.md'' 0)
     = Inr (fileLoadError \<lparr>status = Some 500, message = None, x_ratelimit_remaining = None\<rparr>)"
  using getFileContent_failure_modes
    [of always_rate_limited "initial_World None 0" "''octo''" "''demo''" "''README.md''"
        "Error (fileContentRateLimitMessage @ addAToken)"
        "snd (getFileContent always_rate_limited (initial_World None 0)
                ''octo'' ''demo'' ''README.md'' 0)"]
    getFileContent_failure_modes
    [of no_provider "initial_World None 0" "''octo''" "''demo''" "''logo.png''" _ _ 0]
    getFileContent_failure_modes
    [of no_provider "initial_World None 0" "''octo''" "''demo''" "''README.md''" _ _ 0 _ _
        not_found]
  by (simp add: getFileContent.simps run_defs always_rate_limited_def readme_not_skipped
        logo_skipped rate_limited_is not_found_is_not_rate_limit fileContentKey_def
        readFileResponse_def server_error_is_not_rate_limit notADirectoryError_def
        status_not_found)

theorem getFileContent_throws_counterexample:
  "fst (getFileContent rate_limited_for_an_hour (initial_World None 0)
          ''octo'' ''demo'' ''README.md'' 0)
     = Inl (Error (fileContentRateLimitMessage @ addAToken)) \<and>
   trace (snd (getFileContent rate_limited_for_an_hour (initial_World None 0)
                 ''octo'' ''demo'' ''README.md'' 0))
     = [Call (GetContent ''octo'' ''demo'' ''README.md''), Call RateLimitGet]"
  by (simp add: getFileContent.simps run_defs rate_limited_for_an_hour_def readme_not_skipped
        rate_limited_is fileContentKey_def)

subsection \<open>Not-found rejections\<close>

text \<open>
  Claim C5, as the code has it. When the provider rejects the request with status 404,
  \<^verbatim>\<open>getRepoContents\<close> and \<^verbatim>\<open>getContributors\<close> return an empty array, and
  \<^verbatim>\<open>getRepoDetails\<close> (whose rate-limit check succeeded) throws the not-found error of
  \<^verbatim>\<open>handleApiError\<close>. \<^verbatim>\<open>getFileContent\<close> does not throw: it returns the placeholder
  string \<open>fileNotFound path\<close> (\<open>getFileContent_not_found_counterexample\<close>).
\<close>

theorem not_found_handling:
  "(cache_hit (fst (ApiCache_get (contentCache w) (clock w)
                      (repoContentsKey owner' repo path))) = None \<and>
    \<not> shouldSkipPath path \<and>
    get_content env (length (trace w)) owner' repo path = Inl e \<and> status e = Some 404 \<longrightarrow>
      fst (getRepoContents env w owner' repo path retryCount) = Inr []) \<and>
   (cache_hit (fst (ApiCache_get (repoCache w) (clock w)
                      (contributorsKey owner' repo))) = None \<and>
    list_contributors env (length (trace w)) owner' repo = Inl e \<and> status e = Some 404 \<longrightarrow>
      fst (getContributors env w owner' repo) = Inr []) \<and>
   (cache_hit (fst (ApiCache_get (repoCache w) (clock w)
                      (repoDetailsKey owner' repo))) = None \<and>
    getRateLimit env (w\<lparr>repoCache := snd (ApiCache_get (repoCache w) (clock w)
                                            (repoDetailsKey owner' repo))\<rparr>)
      = (Inr rateLimit, w2) \<and>
    repos_get env (length (trace w2)) owner' repo = Inl e \<and> status e = Some 404 \<longrightarrow>
      fst (getRepoDetails env w owner' repo)
        = Inl (Error (couldNotBeFoundMessage ''repository details''))) \<and>
   (cache_hit (fst (ApiCache_get (contentCache w) (clock w)
                      (fileContentKey owner' repo path))) = None \<and>
    \<not> shouldSkipPath path \<and>
    get_content env (length (trace w)) owner' repo path = Inl e \<and> status e = Some 404 \<longrightarrow>
      fst (getFileContent env w owner' repo path retryCount) = Inr (fileNotFound path))"
proof (intro conjI impI)
  assume "cache_hit (fst (ApiCache_get (contentCache w) (clock w)
                      (repoContentsKey owner' repo path))) = None \<and>
    \<not> shouldSkipPath path \<and>
    get_content env (length (trace w)) owner' repo path = Inl e \<and> status e = Some 404"
  then show "fst (getRepoContents env w owner' repo path retryCount) = Inr []"
    by (simp add: getRepoContents_not_found not_found_not_rate_limit)
next
  assume "cache_hit (fst (ApiCache_get (repoCache w) (clock w)
                      (contributorsKey owner' repo))) = None \<and>
    list_contributors env (length (trace w)) owner' repo = Inl e \<and> status e = Some 404"
  then show "fst (getContributors env w owner' repo) = Inr []"
    by (simp add: getContributors_not_found not_found_not_rate_limit)
next
  assume "cache_hit (fst (ApiCache_get (repoCache w) (clock w)
                      (repoDetailsKey owner' repo))) = None \<and>
    getRateLimit env (w\<lparr>repoCache := snd (ApiCache_get (repoCache w) (clock w)
                                            (repoDetailsKey owner' repo))\<rparr>)
      = (Inr rateLimit, w2) \<and>
    repos_get env (length (trace w2)) owner' repo = Inl e \<and> status e = Some 404"
  then show "fst (getRepoDetails env w owner' repo)
        = Inl (Error (couldNotBeFoundMessage ''repository details''))"
    by (simp add: getRepoDetails_rejected handleApiError_not_found)
next
  assume "cache_hit (fst (ApiCache_get (contentCache w) (clock w)
                      (fileContentKey owner' repo path))) = None \<and>
    \<not> shouldSkipPath path \<and>
    get_content env (length (trace w)) owner' repo path = Inl e \<and> status e = Some 404"
  then show "fst (getFileContent env w owner' repo path retryCount) = Inr (fileNotFound path)"
    by (simp add: getFileContent_not_found)
qed

theorem not_found_handling_witness:
  "status not_found = Some 404 \<and>
   get_content provider_without_repo 0 ''octo'' ''demo'' ''README.md'' = Inl not_found \<and>
   fst (getRepoContents provider_without_repo (initial_World None 0)
          ''octo'' ''demo'' ''README.md'' 0) = Inr [] \<and>
   fst (getContributors provider_without_repo (initial_World None 0) ''octo'' ''demo'') = Inr [] \<and>
   fst (getRepoDetails provider_without_repo (initial_World None 0) ''octo'' ''demo'')
     = Inl (Error (couldNotBeFoundMessage ''repository details'')) \<and>
   fst (getFileContent provider_without_repo (initial_World None 0)
          ''octo'' ''demo'' ''README.md'' 0) = Inr (fileNotFound ''README.md'')"
  using not_found_handling
    [of "initial_World None 0" "''octo''" "''demo''" "''README.md''" provider_without_repo
        not_found 0
        "\<lparr>limit = 60, remaining = 59, reset = 3600, isAuthenticated_rl = False\<rparr>"
        "snd (getRateLimit provider_without_repo (initial_World None 0))"]
  by (simp add: getRepoContents.simps getFileContent.simps getContributors_def
        getRepoDetails_def run_defs provider_without_repo_def readme_not_skipped
        not_found_is_not_rate_limit status_not_found handleApiError_def
        repoContentsKey_def fileContentKey_def contributorsKey_def repoDetailsKey_def)

theorem getFileContent_not_found_counterexample:
  "get_content no_provider 0 ''octo'' ''demo'' ''src/index.ts'' = Inl not_found \<and>
   status not_found = Some 404 \<and>
   getFileContent no_provider (initial_World None 0) ''octo'' ''demo'' ''src/index.ts'' 0
     = (Inr (fileNotFound ''src/index.ts''),
        (initial_World None 0)
          \<lparr>trace := [Call (GetContent ''octo'' ''demo'' ''src/index.ts'')]\<rparr>)"
proof -
  have "shouldSkipPath ''src/index.ts'' = False" by code_simp
  then show ?thesis
    by (simp add: getFileContent.simps run_defs not_found_is_not_rate_limit status_not_found
          fileContentKey_def)
qed


subsection \<open>Two calls of getRepoDetails\<close>

lemma options_ApiCache_get [simp]: "options (snd (ApiCache_get c now key)) = options c"
  by (simp add: ApiCache_get_def split: option.splits)

lemma ApiCache_get_fresh:
  assumes "t \<le> now + ttl (options c)"
  shows "ApiCache_get (ApiCache_set c now now' key d None) t key
           = (Some d, ApiCache_set c now now' key d None)"
  using assms
  by (simp add: ApiCache_get_def ApiCache_set_def Let_def Map_get_Map_set_same)

text \<open>
  \<^verbatim>\<open>getRateLimit\<close> sends its request exactly when the rate-limit cache gives it no
  snapshot, that is, when the cache holds none or an expired one.
\<close>

lemma cache_hit_iff:
  "cache_hit (fst (ApiCache_get c now key)) \<noteq> None \<longleftrightarrow>
     (\<exists>e. Map_get (cache c) key = Some e \<and> now \<le> expiresAt e \<and> truthy (Some (data e)))"
  by (auto simp: ApiCache_get_def cache_hit_def truthy_def split: option.splits)

lemma getRateLimit_request:
  "trace (snd (getRateLimit env w)) =
     trace w @ (if cache_hit (fst (ApiCache_get (rateLimitCache w) (clock w) rateLimitKey)) = None
                then [Call RateLimitGet] else [])"
  by (auto simp: getRateLimit_def Let_def case_prod_beta split: option.splits sum.splits)

lemma getRepoDetails_first_call:
  assumes miss: "cache_hit (fst (ApiCache_get (repoCache w) (clock w)
                                   (repoDetailsKey owner' repo))) = None"
    and first: "getRepoDetails env w owner' repo = (Inr d, w1)"
  shows "\<exists>w3. w1 = w3\<lparr>repoCache := ApiCache_set (repoCache w3) (clock w3) (clock w3)
                                      (repoDetailsKey owner' repo) (CRepoDetails d) None\<rparr> \<and>
              options (repoCache w3) = options (repoCache w) \<and>
              trace w3 =
                trace w
                @ (if cache_hit (fst (ApiCache_get (rateLimitCache w) (clock w) rateLimitKey))
                      = None
                   then [Call RateLimitGet] else [])
                @ [Call (ReposGet owner' repo)]"
proof -
  let ?w1 = "w\<lparr>repoCache := snd (ApiCache_get (repoCache w) (clock w)
                                    (repoDetailsKey owner' repo))\<rparr>"
  obtain r w2 where g: "getRateLimit env ?w1 = (r, w2)" by (cases "getRateLimit env ?w1")
  from getRateLimit_fields [OF g]
  have f: "repoCache w2 = repoCache ?w1" by auto
  from getRateLimit_request [of env ?w1] g
  have tr: "trace w2 =
              trace w
              @ (if cache_hit (fst (ApiCache_get (rateLimitCache w) (clock w) rateLimitKey))
                    = None
                 then [Call RateLimitGet] else [])"
    by simp
  let ?w3 = "await_event env w2 (Call (ReposGet owner' repo))"
  from first miss g
  have "w1 = ?w3\<lparr>repoCache := ApiCache_set (repoCache ?w3) (clock ?w3) (clock ?w3)
                                 (repoDetailsKey owner' repo) (CRepoDetails d) None\<rparr>"
    by (auto simp: getRepoDetails_def Let_def case_prod_beta split: sum.splits)
  moreover have "options (repoCache ?w3) = options (repoCache w)"
    by (simp add: f)
  moreover have "trace ?w3 =
                   trace w
                   @ (if cache_hit (fst (ApiCache_get (rateLimitCache w) (clock w) rateLimitKey))
                         = None
                      then [Call RateLimitGet] else [])
                   @ [Call (ReposGet owner' repo)]"
    by (simp add: tr)
  ultimately show ?thesis by blast
qed

text \<open>
  Claim C7, as the code has it. Let a call of \<^verbatim>\<open>getRepoDetails\<close> miss the cache and
  return the details \<open>d\<close>. The call has sent one request for the repository; before it,
  it has sent one request for the rate limit when the rate-limit cache gave no snapshot
  at the time of the call, and none when that cache held a fresh snapshot (an entry
  that has not expired, with a truthy value, as every snapshot is). A second
  call at any time \<open>t\<close> up to the ttl of the repository cache after the details were
  stored returns the same \<open>d\<close> and leaves the state as it is: it sends no request and
  changes no cache. On cold caches the first call therefore sends two requests, not one
  (\<open>getRepoDetails_two_requests_counterexample\<close>).
\<close>

theorem getRepoDetails_idempotent:
  assumes "cache_hit (fst (ApiCache_get (repoCache w) (clock w)
                             (repoDetailsKey owner' repo))) = None"
    and "getRepoDetails env w owner' repo = (Inr d, w1)"
    and "t \<le> clock w1 + ttl (options (repoCache w))"
  shows "trace w1 =
           trace w
           @ (if cache_hit (fst (ApiCache_get (rateLimitCache w) (clock w) rateLimitKey)) = None
              then [Call RateLimitGet] else [])
           @ [Call (ReposGet owner' repo)] \<and>
         (cache_hit (fst (ApiCache_get (rateLimitCache w) (clock w) rateLimitKey)) \<noteq> None \<longleftrightarrow>
            (\<exists>e. Map_get (cache (rateLimitCache w)) rateLimitKey = Some e \<and>
                 clock w \<le> expiresAt e \<and> truthy (Some (data e)))) \<and>
         getRepoDetails env (w1\<lparr>clock := t\<rparr>) owner' repo = (Inr d, w1\<lparr>clock := t\<rparr>)"
proof -
  from getRepoDetails_first_call [OF assms(1,2)]
  obtain w3 where w3:
    "w1 = w3\<lparr>repoCache := ApiCache_set (repoCache w3) (clock w3) (clock w3)
                              (repoDetailsKey owner' repo) (CRepoDetails d) None\<rparr>"
    "options (repoCache w3) = options (repoCache w)"
    "trace w3 =
       trace w
       @ (if cache_hit (fst (ApiCache_get (rateLimitCache w) (clock w) rateLimitKey)) = None
          then [Call RateLimitGet] else [])
       @ [Call (ReposGet owner' repo)]"
    by blast
  have t: "t \<le> clock w3 + ttl (options (repoCache w3))"
    using assms(3) by (simp add: w3(1,2))
  have second: "getRepoDetails env (w1\<lparr>clock := t\<rparr>) owner' repo = (Inr d, w1\<lparr>clock := t\<rparr>)"
    unfolding w3(1)
    by (simp add: getRepoDetails_def Let_def ApiCache_get_fresh [OF t] cache_hit_def truthy_def)
  have tr: "trace w1 =
       trace w
       @ (if cache_hit (fst (ApiCache_get (rateLimitCache w) (clock w) rateLimitKey)) = None
          then [Call RateLimitGet] else [])
       @ [Call (ReposGet owner' repo)]"
    using w3(3) by (simp add: w3(1))
  have fresh: "cache_hit (fst (ApiCache_get (rateLimitCache w) (clock w) rateLimitKey)) \<noteq> None
               \<longleftrightarrow> (\<exists>e. Map_get (cache (rateLimitCache w)) rateLimitKey = Some e \<and>
                        clock w \<le> expiresAt e \<and> truthy (Some (data e)))"
    by (rule cache_hit_iff)
  from tr fresh second show ?thesis by blast
qed

lemma example_first_call:
  "getRepoDetails provider_with_repo (initial_World None 0) ''octo'' ''demo''
     = (Inr (repoDetails_of demo_repo),
        (initial_World None 0)
          \<lparr>repoCache :=
             \<lparr>cache = [(repoDetailsKey ''octo'' ''demo'',
                        \<lparr>data = CRepoDetails (repoDetails_of demo_repo), timestamp = 0,
                         expiresAt = 600000\<rparr>)],
              options = \<lparr>ttl = 600000, maxSize = 100\<rparr>\<rparr>,
           rateLimitCache :=
             \<lparr>cache = [(rateLimitKey,
                        \<lparr>data = CRateLimit \<lparr>limit = 60, remaining = 59, reset = 3600,
                                             isAuthenticated_rl = False\<rparr>,
                         timestamp = 0, expiresAt = 30000\<rparr>)],
              options = \<lparr>ttl = 30000, maxSize = 100\<rparr>\<rparr>,
           trace := [Call RateLimitGet, Call (ReposGet ''octo'' ''demo'')]\<rparr>)"
  by (simp add: getRepoDetails_def run_defs provider_with_repo_def)

lemma example_snapshot:
  "world_with_snapshot
     = (initial_World None 0)
         \<lparr>rateLimitCache :=
            \<lparr>cache = [(rateLimitKey,
                       \<lparr>data = CRateLimit \<lparr>limit = 60, remaining = 59, reset = 3600,
                                            isAuthenticated_rl = False\<rparr>,
                        timestamp = 0, expiresAt = 30000\<rparr>)],
             options = \<lparr>ttl = 30000, maxSize = 100\<rparr>\<rparr>,
          trace := [Call RateLimitGet]\<rparr>"
  by (simp add: world_with_snapshot_def run_defs provider_with_repo_def)

lemma example_first_call_with_snapshot:
  "getRepoDetails provider_with_repo world_with_snapshot ''octo'' ''demo''
     = (Inr (repoDetails_of demo_repo),
        world_with_snapshot
          \<lparr>repoCache :=
             \<lparr>cache = [(repoDetailsKey ''octo'' ''demo'',
                        \<lparr>data = CRepoDetails (repoDetails_of demo_repo), timestamp = 0,
                         expiresAt = 600000\<rparr>)],
              options = \<lparr>ttl = 600000, maxSize = 100\<rparr>\<rparr>,
           trace := [Call RateLimitGet, Call (ReposGet ''octo'' ''demo'')]\<rparr>)"
  unfolding example_snapshot
  by (simp add: getRepoDetails_def run_defs provider_with_repo_def)

theorem getRepoDetails_idempotent_witness:
  "(let w = initial_World None 0;
        r1 = getRepoDetails provider_with_repo w ''octo'' ''demo'';
        r2 = getRepoDetails provider_with_repo ((snd r1)\<lparr>clock := 600000\<rparr>) ''octo'' ''demo''
    in cache_hit (fst (ApiCache_get (repoCache w) (clock w) (repoDetailsKey ''octo'' ''demo'')))
         = None \<and>
       cache_hit (fst (ApiCache_get (rateLimitCache w) (clock w) rateLimitKey)) = None \<and>
       fst r1 = Inr (repoDetails_of demo_repo) \<and>
       trace (snd r1) = trace w @ [Call RateLimitGet, Call (ReposGet ''octo'' ''demo'')] \<and>
       owner (repoDetails_of demo_repo) = ''octo'' \<and>
       name (repoDetails_of demo_repo) = ''demo'' \<and>
       600000 \<le> clock (snd r1) + ttl (options (repoCache w)) \<and>
       fst r2 = Inr (repoDetails_of demo_repo) \<and>
       snd r2 = (snd r1)\<lparr>clock := 600000\<rparr>) \<and>
   (let w = world_with_snapshot;
        r1 = getRepoDetails provider_with_repo w ''octo'' ''demo'';
        r2 = getRepoDetails provider_with_repo ((snd r1)\<lparr>clock := 600000\<rparr>) ''octo'' ''demo''
    in cache_hit (fst (ApiCache_get (repoCache w) (clock w) (repoDetailsKey ''octo'' ''demo'')))
         = None \<and>
       cache_hit (fst (ApiCache_get (rateLimitCache w) (clock w) rateLimitKey)) \<noteq> None \<and>
       fst r1 = Inr (repoDetails_of demo_repo) \<and>
       trace (snd r1) = trace w @ [Call (ReposGet ''octo'' ''demo'')] \<and>
       600000 \<le> clock (snd r1) + ttl (options (repoCache w)) \<and>
       fst r2 = Inr (repoDetails_of demo_repo) \<and>
       snd r2 = (snd r1)\<lparr>clock := 600000\<rparr>)"
  using getRepoDetails_idempotent
    [of "initial_World None 0" "''octo''" "''demo''" provider_with_repo
        "repoDetails_of demo_repo"
        "snd (getRepoDetails provider_with_repo (initial_World None 0) ''octo'' ''demo'')"
        600000]
    getRepoDetails_idempotent
    [of world_with_snapshot "''octo''" "''demo''"
        provider_with_repo "repoDetails_of demo_repo"
        "snd (getRepoDetails provider_with_repo world_with_snapshot ''octo'' ''demo'')"
        600000]
  by (simp add: example_first_call example_first_call_with_snapshot Let_def)
    (simp add: example_snapshot initial_World_def ApiCache_new_def ApiCache_get_def
       cache_hit_def truthy_def repoDetails_of_def demo_repo_def rateLimitKey_def
       repoDetailsKey_def)

theorem getRepoDetails_two_requests_counterexample:
  "trace (snd (getRepoDetails provider_with_repo (initial_World None 0) ''octo'' ''demo''))
     = [Call RateLimitGet, Call (ReposGet ''octo'' ''demo'')] \<and>
   fst (getRepoDetails provider_with_repo (initial_World None 0) ''octo'' ''demo'')
     = Inr (repoDetails_of demo_repo)"
  by (simp add: example_first_call)

subsection \<open>Commit activity statistics that stay pending\<close>

lemma getCommitActivity_pending:
  assumes "cache_hit (fst (ApiCache_get (repoCache w) (clock w)
                             (commitActivityKey owner' repo))) = None"
    and "get_commit_activity_stats env (length (trace w)) owner' repo = Inr response"
    and "stats_status response = 202"
  shows "getCommitActivity env w owner' repo retryCount =
           (let w2 = await_event env
                       (w\<lparr>repoCache := snd (ApiCache_get (repoCache w) (clock w)
                                               (commitActivityKey owner' repo))\<rparr>)
                       (Call (GetCommitActivityStats owner' repo))
            in if retryCount < 3
               then getCommitActivity env (await_event env w2 (Sleep 3000)) owner' repo
                      (retryCount + 1)
               else getCommitActivity_catch env w2 owner' repo (Error stillComputingMessage))"
  by (subst getCommitActivity.simps) (simp add: assms Let_def case_prod_beta)

lemma getCommitActivity_catch_other:
  assumes "\<not> isRateLimitError error" and "status error \<noteq> Some 404"
  shows "getCommitActivity_catch env w owner' repo error =
           (Inr (fst (getCommitActivityAlternative env w owner' repo)),
            snd (getCommitActivityAlternative env w owner' repo))"
  by (simp add: getCommitActivity_catch_def assms case_prod_beta)

lemma getCommitActivityAlternative_trace:
  "trace (snd (getCommitActivityAlternative env w owner' repo))
     = trace w @ [Call (ListCommits owner' repo)]"
  by (simp add: getCommitActivityAlternative_def Let_def split: sum.splits)

lemma getCommitActivity_pending_returns:
  assumes pending: "\<forall>n. \<exists>response. get_commit_activity_stats env n owner' repo = Inr response \<and>
                                   stats_status response = 202"
    and miss: "cache_hit (fst (ApiCache_get (repoCache w) (clock w)
                                 (commitActivityKey owner' repo))) = None"
    and rc: "retryCount \<le> 3"
  shows "\<exists>weeks w'.
           getCommitActivity env w owner' repo retryCount = (Inr weeks, w') \<and>
           trace w' = trace w
             @ concat (replicate (3 - retryCount)
                         [Call (GetCommitActivityStats owner' repo), Sleep 3000])
             @ [Call (GetCommitActivityStats owner' repo), Call (ListCommits owner' repo)]"
  using miss rc
proof (induction "3 - retryCount" arbitrary: retryCount w)
  case 0
  let ?w2 = "await_event env
               (w\<lparr>repoCache := snd (ApiCache_get (repoCache w) (clock w)
                                       (commitActivityKey owner' repo))\<rparr>)
               (Call (GetCommitActivityStats owner' repo))"
  from pending obtain response where
    r: "get_commit_activity_stats env (length (trace w)) owner' repo = Inr response"
       "stats_status response = 202" by blast
  from "0.hyps" have n3: "\<not> retryCount < 3" by simp
  have "getCommitActivity env w owner' repo retryCount =
          (Inr (fst (getCommitActivityAlternative env ?w2 owner' repo)),
           snd (getCommitActivityAlternative env ?w2 owner' repo))"
    using n3
    by (simp add: getCommitActivity_pending [OF "0.prems"(1) r] Let_def
          getCommitActivity_catch_other)
  then show ?case
    using "0.hyps" by (simp add: getCommitActivityAlternative_trace)
next
  case (Suc k)
  let ?w2 = "await_event env
               (w\<lparr>repoCache := snd (ApiCache_get (repoCache w) (clock w)
                                       (commitActivityKey owner' repo))\<rparr>)
               (Call (GetCommitActivityStats owner' repo))"
  let ?w3 = "await_event env ?w2 (Sleep 3000)"
  from pending obtain response where
    r: "get_commit_activity_stats env (length (trace w)) owner' repo = Inr response"
       "stats_status response = 202" by blast
  from Suc.hyps(2) have lt: "retryCount < 3" by simp
  have step: "getCommitActivity env w owner' repo retryCount =
                getCommitActivity env ?w3 owner' repo (retryCount + 1)"
    using lt by (simp add: getCommitActivity_pending [OF Suc.prems(1) r] Let_def)
  have m3: "cache_hit (fst (ApiCache_get (repoCache ?w3) (clock ?w3)
                              (commitActivityKey owner' repo))) = None"
    using miss_then_misses [OF Suc.prems(1)] by (simp add: misses_get)
  have k: "k = 3 - (retryCount + 1)" using Suc.hyps(2) by simp
  have le: "retryCount + 1 \<le> 3" using lt by simp
  from Suc.hyps(1) [OF k m3 le]
  obtain weeks w' where ih:
    "getCommitActivity env ?w3 owner' repo (retryCount + 1) = (Inr weeks, w')"
    "trace w' = trace ?w3
       @ concat (replicate (3 - (retryCount + 1))
                   [Call (GetCommitActivityStats owner' repo), Sleep 3000])
       @ [Call (GetCommitActivityStats owner' repo), Call (ListCommits owner' repo)]"
    by blast
  have "3 - retryCount = Suc (3 - (retryCount + 1))" using lt by simp
  then have "concat (replicate (3 - retryCount)
                       [Call (GetCommitActivityStats owner' repo), Sleep 3000])
               = [Call (GetCommitActivityStats owner' repo), Sleep 3000]
                 @ concat (replicate (3 - (retryCount + 1))
                             [Call (GetCommitActivityStats owner' repo), Sleep 3000])"
    by simp
  with ih step show ?case by simp
qed

text \<open>
  Claim C4 at the code. When every request for the commit activity statistics is
  answered with status 202, \<^verbatim>\<open>getCommitActivity\<close> sends the request four times with a
  wait of 3000 ms after each of the first three, as the claim says. The error that it
  then throws is caught by the catch block of the same call, which goes on to the
  alternative computation: the call sends the request for the commits and returns what
  \<^verbatim>\<open>getCommitActivityAlternative\<close> returns. The caller gets a list of weeks (an empty
  one when that request fails), never the error.
\<close>

theorem getCommitActivity_pending_no_error:
  assumes "\<forall>n. \<exists>response. get_commit_activity_stats env n owner' repo = Inr response \<and>
                          stats_status response = 202"
    and "cache_hit (fst (ApiCache_get (repoCache w) (clock w)
                           (commitActivityKey owner' repo))) = None"
  shows "\<exists>weeks w'.
           getCommitActivity env w owner' repo 0 = (Inr weeks, w') \<and>
           trace w' = trace w
             @ [Call (GetCommitActivityStats owner' repo), Sleep 3000,
                Call (GetCommitActivityStats owner' repo), Sleep 3000,
                Call (GetCommitActivityStats owner' repo), Sleep 3000,
                Call (GetCommitActivityStats owner' repo), Call (ListCommits owner' repo)]"
  using getCommitActivity_pending_returns [OF assms, of 0]
  by (simp add: eval_nat_numeral)

theorem getCommitActivity_pending_no_error_witness:
  "(\<forall>n. \<exists>response. get_commit_activity_stats statistics_pending n ''octo'' ''demo'' = Inr response \<and>
                    stats_status response = 202) \<and>
   getCommitActivity statistics_pending (initial_World None 0) ''octo'' ''demo'' 0
     = (Inr [],
        (initial_World None 0)
          \<lparr>trace := [Call (GetCommitActivityStats ''octo'' ''demo''), Sleep 3000,
                     Call (GetCommitActivityStats ''octo'' ''demo''), Sleep 3000,
                     Call (GetCommitActivityStats ''octo'' ''demo''), Sleep 3000,
                     Call (GetCommitActivityStats ''octo'' ''demo''),
                     Call (ListCommits ''octo'' ''demo'')]\<rparr>)"
  using getCommitActivity_pending_no_error
    [of statistics_pending "''octo''" "''demo''" "initial_World None 0"]
  by (simp add: getCommitActivity.simps getCommitActivity_catch_def
        getCommitActivityAlternative_def run_defs statistics_pending_def commitActivityKey_def
        status_not_found)

subsection \<open>The file tree\<close>

lemma getRepoContents_Inl:
  assumes "getRepoContents env w owner' repo path retryCount = (Inl err, w')"
  shows "(let g = getRateLimit env
                    (afterRequest env w (repoContentsKey owner' repo path)
                       (GetContent owner' repo path))
          in if willRetry g retryCount
             then getRepoContents env (retryWorld env g) owner' repo path (retryCount + 1)
                    = (Inl err, w')
             else err = Error (contentsRateLimitMessage path @ rateLimitAdvice (snd g)) \<and>
                  w' = snd g)"
  using assms
  apply (subst (asm) getRepoContents.simps)
  apply (auto simp: Let_def case_prod_beta afterRequest_def willRetry_def retryWorld_def
      split: option.splits sum.splits if_splits prod.splits)
  done

lemma getRepoContents_throws_Error:
  assumes "getRepoContents env w owner' repo path retryCount = (Inl err, w')"
  shows "\<not> isRateLimitError err"
  using assms
proof (induction "2 - retryCount" arbitrary: retryCount w rule: less_induct)
  case less
  let ?g = "getRateLimit env
              (afterRequest env w (repoContentsKey owner' repo path)
                 (GetContent owner' repo path))"
  from getRepoContents_Inl [OF less.prems, unfolded Let_def]
  have step: "if willRetry ?g retryCount
              then getRepoContents env (retryWorld env ?g) owner' repo path (retryCount + 1)
                     = (Inl err, w')
              else err = Error (contentsRateLimitMessage path @ rateLimitAdvice (snd ?g)) \<and>
                   w' = snd ?g" .
  show ?case
  proof (cases "willRetry ?g retryCount")
    case True
    then have "retryCount < 2" by (auto simp: willRetry_def split: sum.splits)
    then have "2 - (retryCount + 1) < 2 - retryCount" by simp
    moreover from True step
    have "getRepoContents env (retryWorld env ?g) owner' repo path (retryCount + 1)
            = (Inl err, w')" by simp
    ultimately show ?thesis by (rule less.hyps)
  next
    case False
    with step show ?thesis by simp
  qed
qed

lemma buildFileTree_miss:
  assumes "cache_hit (fst (ApiCache_get (contentCache w) (clock w)
                             (fileTreeKey owner' repo path maxDepth currentDepth))) = None"
    and "currentDepth < maxDepth"
  shows "fst (buildFileTree env w owner' repo path maxDepth currentDepth retryCount) =
           (let w1 = w\<lparr>contentCache := snd (ApiCache_get (contentCache w) (clock w)
                            (fileTreeKey owner' repo path maxDepth currentDepth))\<rparr>
            in case getRepoContents env w1 owner' repo path 0 of
                 (Inr contents, w2) \<Rightarrow>
                   Inr (fst (expandItems env w2 owner' repo maxDepth currentDepth contents 0))
               | (Inl error, w2) \<Rightarrow> Inr [])"
proof -
  let ?w1 = "w\<lparr>contentCache := snd (ApiCache_get (contentCache w) (clock w)
                   (fileTreeKey owner' repo path maxDepth currentDepth))\<rparr>"
  obtain r w2 where g: "getRepoContents env ?w1 owner' repo path 0 = (r, w2)"
    by (cases "getRepoContents env ?w1 owner' repo path 0")
  show ?thesis
  proof (cases r)
    case (Inl e)
    with g have "\<not> isRateLimitError e" by (simp add: getRepoContents_throws_Error)
    with Inl g assms show ?thesis
      by (subst buildFileTree.simps) (simp add: Let_def case_prod_beta)
  next
    case (Inr contents)
    with g assms show ?thesis
      by (subst buildFileTree.simps) (simp add: Let_def case_prod_beta)
  qed
qed

lemma buildFileTree_never_throws:
  "\<exists>files. fst (buildFileTree env w owner' repo path maxDepth currentDepth retryCount) = Inr files"
proof -
  let ?w1 = "w\<lparr>contentCache := snd (ApiCache_get (contentCache w) (clock w)
                   (fileTreeKey owner' repo path maxDepth currentDepth))\<rparr>"
  obtain r w2 where g: "getRepoContents env ?w1 owner' repo path 0 = (r, w2)"
    by (cases "getRepoContents env ?w1 owner' repo path 0")
  show ?thesis
  proof (cases r)
    case (Inl e)
    with g have "\<not> isRateLimitError e" by (simp add: getRepoContents_throws_Error)
    with Inl g show ?thesis
      by (subst buildFileTree.simps) (simp add: Let_def case_prod_beta split: option.splits)
  next
    case (Inr contents)
    with g show ?thesis
      by (subst buildFileTree.simps) (simp add: Let_def case_prod_beta split: option.splits)
  qed
qed

lemma expandItems_entries:
  "fst (expandItems env w owner' repo maxDepth currentDepth items dirsBefore) =
     map (\<lambda>(item, expand, w'). expandedEntry env owner' repo maxDepth currentDepth item expand w')
       (zip items (zip (expandFlags items dirsBefore)
                       (expandWorlds env w owner' repo maxDepth currentDepth items dirsBefore)))"
proof (induction items arbitrary: w dirsBefore)
  case Nil
  show ?case by simp
next
  case (Cons item items)
  show ?case
    by (simp add: Cons.IH expandedEntry_def case_prod_beta split: sum.splits)
qed

lemma length_expandFlags [simp]: "length (expandFlags items dirsBefore) = length items"
  by (induction items arbitrary: dirsBefore) simp_all

lemma length_expandWorlds [simp]:
  "length (expandWorlds env w owner' repo maxDepth currentDepth items dirsBefore) = length items"
  by (induction items arbitrary: w dirsBefore) simp_all

lemma expandFlags_count:
  "length (filter (\<lambda>b. b) (expandFlags items dirsBefore)) \<le> 25 - dirsBefore"
proof (induction items arbitrary: dirsBefore)
  case Nil
  show ?case by simp
next
  case (Cons item items)
  from Cons.IH [of "dirsBefore + 1"] Cons.IH [of dirsBefore] show ?case by auto
qed

lemma expandFlags_nth:
  "i < length items \<Longrightarrow>
   expandFlags items dirsBefore ! i \<longleftrightarrow>
     type_f (items ! i) = ''dir'' \<and>
     dirsBefore + length (filter (\<lambda>x. type_f x = ''dir'') (take i items)) < 25"
proof (induction items arbitrary: dirsBefore i)
  case Nil
  then show ?case by simp
next
  case (Cons item items)
  show ?case
  proof (cases i)
    case 0
    then show ?thesis by simp
  next
    case (Suc j)
    with Cons.prems have "j < length items" by simp
    from Cons.IH [OF this] Suc show ?thesis by simp
  qed
qed

lemma with_children_fields [simp]:
  "children (with_children item cs) = Some cs"
  "path_f (with_children item cs) = path_f item"
  "name_f (with_children item cs) = name_f item"
  "type_f (with_children item cs) = type_f item"
  by (simp_all add: with_children_def)

lemma expandWorlds_prefix:
  "i < length items \<Longrightarrow>
   expandWorlds env w owner' repo maxDepth currentDepth items dirsBefore ! i
     = snd (expandItems env w owner' repo maxDepth currentDepth (take i items) dirsBefore)"
proof (induction items arbitrary: w dirsBefore i)
  case Nil
  then show ?case by simp
next
  case (Cons item items)
  show ?case
  proof (cases i)
    case 0
    then show ?thesis by simp
  next
    case (Suc j)
    with Cons.prems have "j < length items" by simp
    from Cons.IH [OF this] Suc show ?thesis by (simp add: case_prod_beta)
  qed
qed

lemma expandItems_step:
  "i < length items \<Longrightarrow>
   snd (expandItems env w owner' repo maxDepth currentDepth (take (Suc i) items) dirsBefore) =
     (if expandFlags items dirsBefore ! i
      then snd (buildFileTree env
                  (snd (expandItems env w owner' repo maxDepth currentDepth (take i items)
                          dirsBefore))
                  owner' repo (path_f (items ! i)) maxDepth (currentDepth + 1) 0)
      else snd (expandItems env w owner' repo maxDepth currentDepth (take i items) dirsBefore))"
proof (induction items arbitrary: w dirsBefore i)
  case Nil
  then show ?case by simp
next
  case (Cons item items)
  show ?case
  proof (cases i)
    case 0
    then show ?thesis by (simp add: case_prod_beta)
  next
    case (Suc j)
    with Cons.prems have "j < length items" by simp
    from Cons.IH [OF this] Suc show ?thesis by (simp add: case_prod_beta)
  qed
qed

lemma stateAfter_0:
  "stateAfter env w owner' repo maxDepth currentDepth items 0 = w"
  by (simp add: stateAfter_def)

lemma stateAfter_all:
  "stateAfter env w owner' repo maxDepth currentDepth items (length items)
     = snd (expandItems env w owner' repo maxDepth currentDepth items 0)"
  by (simp add: stateAfter_def)

lemma stateAfter_step:
  "i < length items \<Longrightarrow>
   stateAfter env w owner' repo maxDepth currentDepth items (Suc i) =
     (if expandFlags items 0 ! i
      then snd (buildFileTree env (stateAfter env w owner' repo maxDepth currentDepth items i)
                  owner' repo (path_f (items ! i)) maxDepth (currentDepth + 1) 0)
      else stateAfter env w owner' repo maxDepth currentDepth items i)"
  unfolding stateAfter_def by (rule expandItems_step)

lemma stateAfter_changes:
  "card {i. i < length items \<and>
            stateAfter env w owner' repo maxDepth currentDepth items (Suc i)
              \<noteq> stateAfter env w owner' repo maxDepth currentDepth items i} \<le> 25"
proof -
  have "{i. i < length items \<and>
            stateAfter env w owner' repo maxDepth currentDepth items (Suc i)
              \<noteq> stateAfter env w owner' repo maxDepth currentDepth items i}
        \<subseteq> {i. i < length (expandFlags items 0) \<and> expandFlags items 0 ! i}"
    by (auto simp: stateAfter_step split: if_splits)
  then have "card {i. i < length items \<and>
            stateAfter env w owner' repo maxDepth currentDepth items (Suc i)
              \<noteq> stateAfter env w owner' repo maxDepth currentDepth items i}
        \<le> card {i. i < length (expandFlags items 0) \<and> expandFlags items 0 ! i}"
    by (intro card_mono) simp_all
  also have "\<dots> = length (filter (\<lambda>b. b) (expandFlags items 0))"
    by (simp add: length_filter_conv_card)
  also have "\<dots> \<le> 25" using expandFlags_count [of items 0] by simp
  finally show ?thesis .
qed

lemma buildFileTree_miss_state:
  assumes "cache_hit (fst (ApiCache_get (contentCache w) (clock w)
                             (fileTreeKey owner' repo path maxDepth currentDepth))) = None"
    and "currentDepth < maxDepth"
    and "getRepoContents env
           (w\<lparr>contentCache := snd (ApiCache_get (contentCache w) (clock w)
                                     (fileTreeKey owner' repo path maxDepth currentDepth))\<rparr>)
           owner' repo path 0 = (Inr contents, w2)"
  shows "snd (buildFileTree env w owner' repo path maxDepth currentDepth retryCount) =
           (let w3 = stateAfter env w2 owner' repo maxDepth currentDepth contents (length contents)
            in w3\<lparr>contentCache :=
                    ApiCache_set (contentCache w3) (clock w3) (clock w3)
                      (fileTreeKey owner' repo path maxDepth currentDepth)
                      (CFiles (fst (expandItems env w2 owner' repo maxDepth currentDepth
                                      contents 0))) None\<rparr>)"
  using assms
  by (subst buildFileTree.simps) (simp add: Let_def case_prod_beta stateAfter_all)

text \<open>
  Claim C8. A call of \<^verbatim>\<open>buildFileTree\<close> below the depth limit that misses the cache
  and gets the listing \<open>contents\<close> returns one entry for every item of the listing, in
  the order of the listing. At most 25 items are expanded: an item is expanded exactly
  when it is a directory and fewer than 25 directories come before it in the listing.
  The entry of an expanded directory is the item with \<open>children\<close> set to what the
  recursive call for its path returns, in the state in which the loop reaches the item,
  and to the empty list if that call throws; the entry of any other item, a directory
  beyond the cap among them, is the item as it is, with no children.

  The state: the loop starts in the state \<open>w2\<close> in which the listing has arrived; at an
  expanded directory the state becomes the one that the recursive call leaves; at any
  other item, a directory beyond the cap among them, the state stays as it is, so that
  no request is sent and no cache is read or written for it; the state changes at no
  more than 25 items of the listing; and the call ends in the state after the last item,
  with its result stored in the cache, so its events are those of the loop.

  A recursive call (any call of \<^verbatim>\<open>buildFileTree\<close>) never throws, and it returns the
  empty list when its request for the contents fails, by throwing or with the empty
  listing that \<^verbatim>\<open>getRepoContents\<close> returns for a rejected request; so a directory
  whose fetch fails is in the result with \<open>children = Some []\<close>.
\<close>

theorem buildFileTree_sibling_cap:
  "(cache_hit (fst (ApiCache_get (contentCache w) (clock w)
                      (fileTreeKey owner' repo path maxDepth currentDepth))) = None \<and>
    currentDepth < maxDepth \<and>
    getRepoContents env
      (w\<lparr>contentCache := snd (ApiCache_get (contentCache w) (clock w)
                                (fileTreeKey owner' repo path maxDepth currentDepth))\<rparr>)
      owner' repo path 0 = (Inr contents, w2) \<longrightarrow>
      fst (buildFileTree env w owner' repo path maxDepth currentDepth retryCount)
        = Inr (fst (expandItems env w2 owner' repo maxDepth currentDepth contents 0)) \<and>
      snd (buildFileTree env w owner' repo path maxDepth currentDepth retryCount)
        = (let w3 = stateAfter env w2 owner' repo maxDepth currentDepth contents (length contents)
           in w3\<lparr>contentCache :=
                   ApiCache_set (contentCache w3) (clock w3) (clock w3)
                     (fileTreeKey owner' repo path maxDepth currentDepth)
                     (CFiles (fst (expandItems env w2 owner' repo maxDepth currentDepth
                                     contents 0))) None\<rparr>) \<and>
      trace (snd (buildFileTree env w owner' repo path maxDepth currentDepth retryCount))
        = trace (stateAfter env w2 owner' repo maxDepth currentDepth contents (length contents))) \<and>
   length (fst (expandItems env w2 owner' repo maxDepth currentDepth contents 0))
     = length contents \<and>
   length (filter (\<lambda>b. b) (expandFlags contents 0)) \<le> 25 \<and>
   stateAfter env w2 owner' repo maxDepth currentDepth contents 0 = w2 \<and>
   card {j. j < length contents \<and>
            stateAfter env w2 owner' repo maxDepth currentDepth contents (Suc j)
              \<noteq> stateAfter env w2 owner' repo maxDepth currentDepth contents j} \<le> 25 \<and>
   (i < length contents \<longrightarrow>
      (expandFlags contents 0 ! i \<longleftrightarrow>
         type_f (contents ! i) = ''dir'' \<and>
         length (filter (\<lambda>x. type_f x = ''dir'') (take i contents)) < 25) \<and>
      expandWorlds env w2 owner' repo maxDepth currentDepth contents 0 ! i
        = stateAfter env w2 owner' repo maxDepth currentDepth contents i \<and>
      (expandFlags contents 0 ! i \<longrightarrow>
         fst (expandItems env w2 owner' repo maxDepth currentDepth contents 0) ! i
           = with_children (contents ! i)
               (case fst (buildFileTree env
                            (expandWorlds env w2 owner' repo maxDepth currentDepth contents 0 ! i)
                            owner' repo (path_f (contents ! i)) maxDepth (currentDepth + 1) 0) of
                  Inr children' \<Rightarrow> children'
                | Inl error \<Rightarrow> []) \<and>
         stateAfter env w2 owner' repo maxDepth currentDepth contents (Suc i)
           = snd (buildFileTree env
                    (stateAfter env w2 owner' repo maxDepth currentDepth contents i)
                    owner' repo (path_f (contents ! i)) maxDepth (currentDepth + 1) 0)) \<and>
      (\<not> expandFlags contents 0 ! i \<longrightarrow>
         fst (expandItems env w2 owner' repo maxDepth currentDepth contents 0) ! i
           = contents ! i \<and>
         stateAfter env w2 owner' repo maxDepth currentDepth contents (Suc i)
           = stateAfter env w2 owner' repo maxDepth currentDepth contents i \<and>
         trace (stateAfter env w2 owner' repo maxDepth currentDepth contents (Suc i))
           = trace (stateAfter env w2 owner' repo maxDepth currentDepth contents i))) \<and>
   children (with_children item cs) = Some cs \<and>
   (\<exists>files. fst (buildFileTree env wd owner' repo dir maxDepth depth retryCount) = Inr files) \<and>
   (cache_hit (fst (ApiCache_get (contentCache wd) (clock wd)
                      (fileTreeKey owner' repo dir maxDepth depth))) = None \<and>
    depth < maxDepth \<and>
    (fst (getRepoContents env
            (wd\<lparr>contentCache := snd (ApiCache_get (contentCache wd) (clock wd)
                                       (fileTreeKey owner' repo dir maxDepth depth))\<rparr>)
            owner' repo dir 0) = Inl e \<or>
     fst (getRepoContents env
            (wd\<lparr>contentCache := snd (ApiCache_get (contentCache wd) (clock wd)
                                       (fileTreeKey owner' repo dir maxDepth depth))\<rparr>)
            owner' repo dir 0) = Inr []) \<longrightarrow>
      fst (buildFileTree env wd owner' repo dir maxDepth depth retryCount) = Inr [])"
proof (intro conjI impI)
  assume a: "cache_hit (fst (ApiCache_get (contentCache w) (clock w)
                      (fileTreeKey owner' repo path maxDepth currentDepth))) = None \<and>
    currentDepth < maxDepth \<and>
    getRepoContents env
      (w\<lparr>contentCache := snd (ApiCache_get (contentCache w) (clock w)
                                (fileTreeKey owner' repo path maxDepth currentDepth))\<rparr>)
      owner' repo path 0 = (Inr contents, w2)"
  then show "fst (buildFileTree env w owner' repo path maxDepth currentDepth retryCount)
        = Inr (fst (expandItems env w2 owner' repo maxDepth currentDepth contents 0))"
    by (simp add: buildFileTree_miss Let_def)
  from a have miss: "cache_hit (fst (ApiCache_get (contentCache w) (clock w)
                      (fileTreeKey owner' repo path maxDepth currentDepth))) = None"
    and below: "currentDepth < maxDepth"
    and listing: "getRepoContents env
      (w\<lparr>contentCache := snd (ApiCache_get (contentCache w) (clock w)
                                (fileTreeKey owner' repo path maxDepth currentDepth))\<rparr>)
      owner' repo path 0 = (Inr contents, w2)"
    by blast+
  from buildFileTree_miss_state [OF miss below listing, of retryCount]
  show s: "snd (buildFileTree env w owner' repo path maxDepth currentDepth retryCount)
        = (let w3 = stateAfter env w2 owner' repo maxDepth currentDepth contents (length contents)
           in w3\<lparr>contentCache :=
                   ApiCache_set (contentCache w3) (clock w3) (clock w3)
                     (fileTreeKey owner' repo path maxDepth currentDepth)
                     (CFiles (fst (expandItems env w2 owner' repo maxDepth currentDepth
                                     contents 0))) None\<rparr>)" .
  show "trace (snd (buildFileTree env w owner' repo path maxDepth currentDepth retryCount))
        = trace (stateAfter env w2 owner' repo maxDepth currentDepth contents (length contents))"
    unfolding s by (simp add: Let_def)
next
  show "length (fst (expandItems env w2 owner' repo maxDepth currentDepth contents 0))
          = length contents"
    by (simp add: expandItems_entries)
next
  show "length (filter (\<lambda>b. b) (expandFlags contents 0)) \<le> 25"
    using expandFlags_count [of contents 0] by simp
next
  show "stateAfter env w2 owner' repo maxDepth currentDepth contents 0 = w2"
    by (rule stateAfter_0)
next
  show "card {j. j < length contents \<and>
            stateAfter env w2 owner' repo maxDepth currentDepth contents (Suc j)
              \<noteq> stateAfter env w2 owner' repo maxDepth currentDepth contents j} \<le> 25"
    by (rule stateAfter_changes)
next
  assume i: "i < length contents"
  from expandFlags_nth [OF i, of 0]
  show "expandFlags contents 0 ! i \<longleftrightarrow>
         type_f (contents ! i) = ''dir'' \<and>
         length (filter (\<lambda>x. type_f x = ''dir'') (take i contents)) < 25"
    by simp
  show "expandWorlds env w2 owner' repo maxDepth currentDepth contents 0 ! i
        = stateAfter env w2 owner' repo maxDepth currentDepth contents i"
    unfolding stateAfter_def using i by (rule expandWorlds_prefix)
  {
    assume f: "expandFlags contents 0 ! i"
    with i show "fst (expandItems env w2 owner' repo maxDepth currentDepth contents 0) ! i
           = with_children (contents ! i)
               (case fst (buildFileTree env
                            (expandWorlds env w2 owner' repo maxDepth currentDepth contents 0 ! i)
                            owner' repo (path_f (contents ! i)) maxDepth (currentDepth + 1) 0) of
                  Inr children' \<Rightarrow> children'
                | Inl error \<Rightarrow> [])"
      by (simp add: expandItems_entries expandedEntry_def)
    from f show "stateAfter env w2 owner' repo maxDepth currentDepth contents (Suc i)
           = snd (buildFileTree env
                    (stateAfter env w2 owner' repo maxDepth currentDepth contents i)
                    owner' repo (path_f (contents ! i)) maxDepth (currentDepth + 1) 0)"
      by (simp add: stateAfter_step [OF i])
  }
  {
    assume f: "\<not> expandFlags contents 0 ! i"
    with i show "fst (expandItems env w2 owner' repo maxDepth currentDepth contents 0) ! i
           = contents ! i"
      by (simp add: expandItems_entries expandedEntry_def)
    from f show same: "stateAfter env w2 owner' repo maxDepth currentDepth contents (Suc i)
           = stateAfter env w2 owner' repo maxDepth currentDepth contents i"
      by (simp add: stateAfter_step [OF i])
    show "trace (stateAfter env w2 owner' repo maxDepth currentDepth contents (Suc i))
           = trace (stateAfter env w2 owner' repo maxDepth currentDepth contents i)"
      unfolding same ..
  }
next
  show "children (with_children item cs) = Some cs" by simp
next
  show "\<exists>files. fst (buildFileTree env wd owner' repo dir maxDepth depth retryCount) = Inr files"
    by (rule buildFileTree_never_throws)
next
  assume a: "cache_hit (fst (ApiCache_get (contentCache wd) (clock wd)
                      (fileTreeKey owner' repo dir maxDepth depth))) = None \<and>
    depth < maxDepth \<and>
    (fst (getRepoContents env
            (wd\<lparr>contentCache := snd (ApiCache_get (contentCache wd) (clock wd)
                                       (fileTreeKey owner' repo dir maxDepth depth))\<rparr>)
            owner' repo dir 0) = Inl e \<or>
     fst (getRepoContents env
            (wd\<lparr>contentCache := snd (ApiCache_get (contentCache wd) (clock wd)
                                       (fileTreeKey owner' repo dir maxDepth depth))\<rparr>)
            owner' repo dir 0) = Inr [])"
  then show "fst (buildFileTree env wd owner' repo dir maxDepth depth retryCount) = Inr []"
    by (auto simp: buildFileTree_miss Let_def case_prod_beta split: sum.splits)
qed

lemma docs_not_skipped: "shouldSkipPath ''docs'' = False"
  by code_simp

lemma root_not_skipped: "shouldSkipPath [] = False"
  by code_simp

lemma example_listing:
  "getRepoContents small_repo
     ((initial_World None 0)
        \<lparr>contentCache := snd (ApiCache_get (contentCache (initial_World None 0))
                                (clock (initial_World None 0))
                                (fileTreeKey ''octo'' ''demo'' [] 2 0))\<rparr>)
     ''octo'' ''demo'' [] 0
   = (Inr [item_of (dir_entry ''src''), item_of (file_entry ''README.md''),
           item_of (dir_entry ''docs'')],
      (initial_World None 0)
        \<lparr>contentCache :=
           \<lparr>cache = [(repoContentsKey ''octo'' ''demo'' [],
                      \<lparr>data = CFiles [item_of (dir_entry ''src''),
                                      item_of (file_entry ''README.md''),
                                      item_of (dir_entry ''docs'')],
                       timestamp = 0, expiresAt = 1800000\<rparr>)],
            options = \<lparr>ttl = 1800000, maxSize = 100\<rparr>\<rparr>,
         trace := [Call (GetContent ''octo'' ''demo'' [])]\<rparr>)"
  by (simp add: getRepoContents.simps run_defs small_repo_def root_not_skipped
        repoContentsKey_def fileTreeKey_def)

lemma example_tree:
  "fst (buildFileTree small_repo (initial_World None 0) ''octo'' ''demo'' [] 2 0 0)
     = Inr [with_children (item_of (dir_entry ''src'')) [item_of (file_entry ''src/a.ts'')],
            item_of (file_entry ''README.md''),
            with_children (item_of (dir_entry ''docs'')) []]"
  by (simp add: buildFileTree.simps getRepoContents.simps run_defs small_repo_def
        root_not_skipped src_not_skipped docs_not_skipped rate_limited_is
        repoContentsKey_def fileTreeKey_def String_of_int_def digits.simps
        item_of_def dir_entry_def file_entry_def or_default_def with_children_def)

lemma example_failed_fetch:
  "fst (getRepoContents small_repo (initial_World None 0) ''octo'' ''demo'' ''docs'' 0)
     = Inl (Error (contentsRateLimitMessage ''docs'' @ addAToken))"
  by (simp add: getRepoContents.simps run_defs small_repo_def docs_not_skipped rate_limited_is
        repoContentsKey_def)

lemma example_failed_tree:
  "fst (buildFileTree small_repo (initial_World None 0) ''octo'' ''demo'' ''docs'' 2 1 0) = Inr []"
  by (simp add: buildFileTree.simps getRepoContents.simps run_defs small_repo_def
        docs_not_skipped rate_limited_is repoContentsKey_def fileTreeKey_def String_of_int_def
        digits.simps)

lemma example_cap:
  "expandFlags (replicate 26 (item_of (dir_entry ''d'')) @ [item_of (file_entry ''f'')]) 0
     = replicate 25 True @ [False, False]"
  by (simp add: eval_nat_numeral item_of_def dir_entry_def file_entry_def)

text \<open>
  The wide repository: the listing of the root has 27 items, the file and the 26
  directories; the directories a to y are expanded, each with one request, and z, the
  26th directory, is in the result as it was listed, with no request for it.
\<close>

lemma wide_listing_fetch:
  "fst (getRepoContents wide_repo
     ((initial_World None 0)
        \<lparr>contentCache := snd (ApiCache_get (contentCache (initial_World None 0))
                                (clock (initial_World None 0))
                                (fileTreeKey ''octo'' ''demo'' [] 2 0))\<rparr>)
     ''octo'' ''demo'' [] 0) = Inr wide_listing"
  by code_simp

lemma wide_length: "length wide_listing = 27"
  by code_simp

lemma wide_flags: "expandFlags wide_listing 0 = False # replicate 25 True @ [False]"
  by code_simp

lemma wide_last: "wide_listing ! 26 = item_of (dir_entry ''z'')"
  by code_simp

lemma wide_last_flag: "expandFlags wide_listing 0 ! 26 = False"
  by code_simp

lemma wide_tree:
  "fst (buildFileTree wide_repo (initial_World None 0) ''octo'' ''demo'' [] 2 0 0)
     = Inr (item_of (file_entry ''README.md'')
            # map (\<lambda>p. with_children (item_of (dir_entry p)) []) (take 25 wide_names)
            @ [item_of (dir_entry ''z'')])"
  by code_simp

lemma wide_trace:
  "trace (snd (buildFileTree wide_repo (initial_World None 0) ''octo'' ''demo'' [] 2 0 0))
     = Call (GetContent ''octo'' ''demo'' [])
       # map (\<lambda>p. Call (GetContent ''octo'' ''demo'' p)) (take 25 wide_names)"
  by code_simp

lemma wide_calls:
  "GetContent_calls ''octo'' ''demo'' ''y''
     (trace (snd (buildFileTree wide_repo (initial_World None 0) ''octo'' ''demo'' [] 2 0 0))) = 1 \<and>
   GetContent_calls ''octo'' ''demo'' ''z''
     (trace (snd (buildFileTree wide_repo (initial_World None 0) ''octo'' ''demo'' [] 2 0 0))) = 0"
  unfolding wide_trace by code_simp

lemma example_tree_trace:
  "trace (snd (buildFileTree small_repo (initial_World None 0) ''octo'' ''demo'' [] 2 0 0))
     = [Call (GetContent ''octo'' ''demo'' []), Call (GetContent ''octo'' ''demo'' ''src''),
        Call (GetContent ''octo'' ''demo'' ''docs''), Call RateLimitGet]"
  by code_simp

theorem buildFileTree_sibling_cap_witness:
  "cache_hit (fst (ApiCache_get (contentCache (initial_World None 0))
                     (clock (initial_World None 0))
                     (fileTreeKey ''octo'' ''demo'' [] 2 0))) = None \<and>
   fst (getRepoContents small_repo
          ((initial_World None 0)
             \<lparr>contentCache := snd (ApiCache_get (contentCache (initial_World None 0))
                                     (clock (initial_World None 0))
                                     (fileTreeKey ''octo'' ''demo'' [] 2 0))\<rparr>)
          ''octo'' ''demo'' [] 0)
     = Inr [item_of (dir_entry ''src''), item_of (file_entry ''README.md''),
            item_of (dir_entry ''docs'')] \<and>
   expandFlags [item_of (dir_entry ''src''), item_of (file_entry ''README.md''),
                item_of (dir_entry ''docs'')] 0 = [True, False, True] \<and>
   fst (buildFileTree small_repo (initial_World None 0) ''octo'' ''demo'' [] 2 0 0)
     = Inr [with_children (item_of (dir_entry ''src'')) [item_of (file_entry ''src/a.ts'')],
            item_of (file_entry ''README.md''),
            with_children (item_of (dir_entry ''docs'')) []] \<and>
   fst (getRepoContents small_repo (initial_World None 0) ''octo'' ''demo'' ''docs'' 0)
     = Inl (Error (contentsRateLimitMessage ''docs'' @ addAToken)) \<and>
   fst (buildFileTree small_repo (initial_World None 0) ''octo'' ''demo'' ''docs'' 2 1 0) = Inr [] \<and>
   expandFlags (replicate 26 (item_of (dir_entry ''d'')) @ [item_of (file_entry ''f'')]) 0
     = replicate 25 True @ [False, False] \<and>
   trace (snd (buildFileTree small_repo (initial_World None 0) ''octo'' ''demo'' [] 2 0 0))
     = [Call (GetContent ''octo'' ''demo'' []), Call (GetContent ''octo'' ''demo'' ''src''),
        Call (GetContent ''octo'' ''demo'' ''docs''), Call RateLimitGet] \<and>
   fst (getRepoContents wide_repo
          ((initial_World None 0)
             \<lparr>contentCache := snd (ApiCache_get (contentCache (initial_World None 0))
                                     (clock (initial_World None 0))
                                     (fileTreeKey ''octo'' ''demo'' [] 2 0))\<rparr>)
          ''octo'' ''demo'' [] 0)
     = Inr wide_listing \<and>
   length wide_listing = 27 \<and>
   expandFlags wide_listing 0 = False # replicate 25 True @ [False] \<and>
   wide_listing ! 26 = item_of (dir_entry ''z'') \<and>
   stateAfter wide_repo
     (snd (getRepoContents wide_repo
             ((initial_World None 0)
                \<lparr>contentCache := snd (ApiCache_get (contentCache (initial_World None 0))
                                        (clock (initial_World None 0))
                                        (fileTreeKey ''octo'' ''demo'' [] 2 0))\<rparr>)
             ''octo'' ''demo'' [] 0))
     ''octo'' ''demo'' 2 0 wide_listing (Suc 26)
   = stateAfter wide_repo
     (snd (getRepoContents wide_repo
             ((initial_World None 0)
                \<lparr>contentCache := snd (ApiCache_get (contentCache (initial_World None 0))
                                        (clock (initial_World None 0))
                                        (fileTreeKey ''octo'' ''demo'' [] 2 0))\<rparr>)
             ''octo'' ''demo'' [] 0))
     ''octo'' ''demo'' 2 0 wide_listing 26 \<and>
   fst (buildFileTree wide_repo (initial_World None 0) ''octo'' ''demo'' [] 2 0 0)
     = Inr (item_of (file_entry ''README.md'')
            # map (\<lambda>p. with_children (item_of (dir_entry p)) []) (take 25 wide_names)
            @ [item_of (dir_entry ''z'')]) \<and>
   trace (snd (buildFileTree wide_repo (initial_World None 0) ''octo'' ''demo'' [] 2 0 0))
     = Call (GetContent ''octo'' ''demo'' [])
       # map (\<lambda>p. Call (GetContent ''octo'' ''demo'' p)) (take 25 wide_names) \<and>
   GetContent_calls ''octo'' ''demo'' ''y''
     (trace (snd (buildFileTree wide_repo (initial_World None 0) ''octo'' ''demo'' [] 2 0 0))) = 1 \<and>
   GetContent_calls ''octo'' ''demo'' ''z''
     (trace (snd (buildFileTree wide_repo (initial_World None 0) ''octo'' ''demo'' [] 2 0 0))) = 0"
proof -
  note used = buildFileTree_sibling_cap
    [where w = "initial_World None 0" and owner' = "''octo''" and repo = "''demo''"
       and path = "[]" and maxDepth = 2 and currentDepth = 0 and env = small_repo
       and retryCount = 0 and i = 0
       and contents = "[item_of (dir_entry ''src''), item_of (file_entry ''README.md''),
                        item_of (dir_entry ''docs'')]"
       and ?w2.0 = "snd (getRepoContents small_repo
          ((initial_World None 0)
             \<lparr>contentCache := snd (ApiCache_get (contentCache (initial_World None 0))
                                     (clock (initial_World None 0))
                                     (fileTreeKey ''octo'' ''demo'' [] 2 0))\<rparr>)
          ''octo'' ''demo'' [] 0)"
       and wd = "initial_World None 0" and dir = "''docs''" and depth = 1
       and e = "Error (contentsRateLimitMessage ''docs'' @ addAToken)"]
  note wide = buildFileTree_sibling_cap
    [where w = "initial_World None 0" and owner' = "''octo''" and repo = "''demo''"
       and path = "[]" and maxDepth = 2 and currentDepth = 0 and env = wide_repo
       and retryCount = 0 and i = 26 and contents = wide_listing
       and ?w2.0 = "snd (getRepoContents wide_repo
          ((initial_World None 0)
             \<lparr>contentCache := snd (ApiCache_get (contentCache (initial_World None 0))
                                     (clock (initial_World None 0))
                                     (fileTreeKey ''octo'' ''demo'' [] 2 0))\<rparr>)
          ''octo'' ''demo'' [] 0)"
       and wd = "initial_World None 0" and dir = "''z''" and depth = 1
       and e = "Error []" and item = "item_of (dir_entry ''z'')" and cs = "[]"]
  have miss: "cache_hit (fst (ApiCache_get (contentCache (initial_World None 0))
                     (clock (initial_World None 0))
                     (fileTreeKey ''octo'' ''demo'' [] 2 0))) = None"
    by (simp add: initial_World_def ApiCache_new_def ApiCache_get_def cache_hit_def truthy_def)
  have listing: "fst (getRepoContents small_repo
          ((initial_World None 0)
             \<lparr>contentCache := snd (ApiCache_get (contentCache (initial_World None 0))
                                     (clock (initial_World None 0))
                                     (fileTreeKey ''octo'' ''demo'' [] 2 0))\<rparr>)
          ''octo'' ''demo'' [] 0)
     = Inr [item_of (dir_entry ''src''), item_of (file_entry ''README.md''),
            item_of (dir_entry ''docs'')]"
    by (simp add: example_listing)
  have flags: "expandFlags [item_of (dir_entry ''src''), item_of (file_entry ''README.md''),
                item_of (dir_entry ''docs'')] 0 = [True, False, True]"
    by (simp add: item_of_def dir_entry_def file_entry_def)
  have at_z: "26 < length wide_listing" by (simp add: wide_length)
  from wide [THEN conjunct2, THEN conjunct2, THEN conjunct2, THEN conjunct2, THEN conjunct2,
             THEN conjunct1, THEN mp, OF at_z]
  have capped: "stateAfter wide_repo
     (snd (getRepoContents wide_repo
             ((initial_World None 0)
                \<lparr>contentCache := snd (ApiCache_get (contentCache (initial_World None 0))
                                        (clock (initial_World None 0))
                                        (fileTreeKey ''octo'' ''demo'' [] 2 0))\<rparr>)
             ''octo'' ''demo'' [] 0))
     ''octo'' ''demo'' 2 0 wide_listing (Suc 26)
   = stateAfter wide_repo
     (snd (getRepoContents wide_repo
             ((initial_World None 0)
                \<lparr>contentCache := snd (ApiCache_get (contentCache (initial_World None 0))
                                        (clock (initial_World None 0))
                                        (fileTreeKey ''octo'' ''demo'' [] 2 0))\<rparr>)
             ''octo'' ''demo'' [] 0))
     ''octo'' ''demo'' 2 0 wide_listing 26"
    by (simp only: wide_last_flag simp_thms)
  from used show ?thesis
    by - (intro conjI, rule miss, rule listing, rule flags, rule example_tree,
          rule example_failed_fetch, rule example_failed_tree, rule example_cap,
          rule example_tree_trace, rule wide_listing_fetch, rule wide_length, rule wide_flags,
          rule wide_last, rule capped, rule wide_tree, rule wide_trace,
          rule wide_calls [THEN conjunct1], rule wide_calls [THEN conjunct2])
qed

end
